theory Spec2Isabelle
  imports Main
begin

section \<open>The platform: URLs, requests and responses\<close>

text \<open>
  The extension talks to a Gitea server through the platform's \<^verbatim>\<open>fetch\<close> and builds its
  request URLs with the platform's \<^verbatim>\<open>URL\<close> class. Both are outside the repository, so they
  are parameters of the model: \<open>URL_new\<close> is \<^verbatim>\<open>new URL(s)\<close> (\<open>Inl m\<close> when it throws a
  TypeError with message \<open>m\<close>), \<open>URL_toString\<close> is \<^verbatim>\<open>url.toString()\<close>, and a \<open>fetch\<close> function
  maps a request to \<open>Inl m\<close> when the promise rejects (network failure, message \<open>m\<close>) or to
  the response. The answer to a request depends on the request only: the remote data does
  not change while one operation runs.
\<close>

record URL =
  protocol :: string
  host :: string
  pathname :: string
  searchParams :: "(string \<times> string) list"

record platform =
  URL_new :: "string \<Rightarrow> string + URL"
  URL_toString :: "URL \<Rightarrow> string"

text \<open>\<^verbatim>\<open>fetch(url, { headers: { Authorization } })\<close>: the URL text and the header, if any.\<close>

record request =
  req_url :: string
  authorization :: "string option"

text \<open>
  A response: \<^verbatim>\<open>response.ok\<close>, \<^verbatim>\<open>response.status\<close>, \<^verbatim>\<open>response.statusText\<close>, the body as
  \<^verbatim>\<open>response.text()\<close> reads it, and the body as \<^verbatim>\<open>response.json()\<close> reads it (\<open>Inl m\<close> when
  the body is not JSON and the promise rejects with message \<open>m\<close>). The type \<open>'j\<close> is the shape
  the calling code casts the JSON value to.
\<close>

record 'j response =
  ok :: bool
  status :: nat
  statusText :: string
  body_text :: string
  body_json :: "string + 'j"

text \<open>What \<^verbatim>\<open>Array.isArray\<close> distinguishes in a JSON value cast to \<^verbatim>\<open>T[]\<close>.\<close>

datatype 'a json_list = JArray "'a list" | JNotArray

text \<open>
  The errors the code throws or lets through: its own \<^verbatim>\<open>GiteaApiError(status, message, url)\<close>,
  a plain \<^verbatim>\<open>Error(message)\<close>, and an error raised by the platform (a rejected \<^verbatim>\<open>fetch\<close> or
  \<^verbatim>\<open>json()\<close>, an invalid URL, a property read on \<^verbatim>\<open>null\<close>).
\<close>

datatype error =
    GiteaApiError nat string "string option"
  | Error string
  | PlatformError string

section \<open>Strings\<close>

text \<open>\<^verbatim>\<open>String(n)\<close> for a non-negative integer: its decimal digits.\<close>

definition digit_char :: "nat \<Rightarrow> char" where
  "digit_char d = ''0123456789'' ! d"

function String_nat :: "nat \<Rightarrow> string" where
  "String_nat n = (if n < 10 then [digit_char n] else String_nat (n div 10) @ [digit_char (n mod 10)])"
  by pat_completeness auto
termination
  by (relation "measure id") auto

text \<open>\<^verbatim>\<open>normalizeBaseUrl\<close>: \<^verbatim>\<open>url.replace(/\/+$/, "")\<close> removes the trailing slashes.\<close>

definition normalizeBaseUrl :: "string \<Rightarrow> string" where
  "normalizeBaseUrl url = rev (dropWhile (\<lambda>c. c = CHR ''/'') (rev url))"

text \<open>
  \<^verbatim>\<open>s.split("/")\<close>: the pieces between the separators, empty pieces included; the result
  is never empty (\<^verbatim>\<open>"".split("/")\<close> is \<^verbatim>\<open>[""]\<close>).
\<close>

fun split_on :: "char \<Rightarrow> string \<Rightarrow> string list" where
  "split_on sep [] = [[]]"
| "split_on sep (c # cs) =
     (if c = sep then [] # split_on sep cs
      else (case split_on sep cs of
              [] \<Rightarrow> [[c]]
            | p # ps \<Rightarrow> (c # p) # ps))"

section \<open>The paginated fetcher\<close>

definition PER_PAGE :: nat where
  "PER_PAGE = 100"

text \<open>
  \<^verbatim>\<open>searchParams.set(k, v)\<close>: the first pair named \<open>k\<close> takes the value and the other pairs
  named \<open>k\<close> go; without such a pair, the new one is appended.
\<close>

fun set_param :: "string \<Rightarrow> string \<Rightarrow> (string \<times> string) list \<Rightarrow> (string \<times> string) list" where
  "set_param k v [] = [(k, v)]"
| "set_param k v (p # ps) =
     (if fst p = k then (k, v) # filter (\<lambda>q. fst q \<noteq> k) ps else p # set_param k v ps)"

definition searchParams_set :: "string \<Rightarrow> string \<Rightarrow> URL \<Rightarrow> URL" where
  "searchParams_set k v u = u\<lparr>searchParams := set_param k v (searchParams u)\<rparr>"

text \<open>
  The URL object of one page request of \<^verbatim>\<open>fetchPaged\<close>: \<^verbatim>\<open>limit\<close> and \<^verbatim>\<open>page\<close> are set, and
  \<^verbatim>\<open>token\<close> when an access token is given. An absent access token (\<^verbatim>\<open>undefined\<close>) is the
  empty string: the code only tests it for truthiness.
\<close>

definition paged_apiUrl :: "URL \<Rightarrow> string \<Rightarrow> nat \<Rightarrow> URL" where
  "paged_apiUrl u accessToken page =
     (let u1 = searchParams_set ''limit'' (String_nat PER_PAGE) u;
          u2 = searchParams_set ''page'' (String_nat page) u1
      in if accessToken \<noteq> [] then searchParams_set ''token'' accessToken u2 else u2)"

definition auth_header :: "string \<Rightarrow> string option" where
  "auth_header accessToken = (if accessToken \<noteq> [] then Some (''token '' @ accessToken) else None)"

definition paged_request :: "platform \<Rightarrow> URL \<Rightarrow> string \<Rightarrow> nat \<Rightarrow> request" where
  "paged_request plat u accessToken page =
     \<lparr>req_url = URL_toString plat (paged_apiUrl u accessToken page),
      authorization = auth_header accessToken\<rparr>"

text \<open>The message of the error for a response that is not ok.\<close>

definition api_error_message :: "'j response \<Rightarrow> string" where
  "api_error_message response =
     ''Gitea API error ('' @ String_nat (status response) @ ''): '' @
     (if body_text response \<noteq> [] then body_text response else statusText response)"

text \<open>
  \<^verbatim>\<open>fetchPaged\<close>, the loop \<^verbatim>\<open>while (true)\<close> with its variables \<open>page\<close> and \<open>items\<close>. The
  result is \<open>None\<close> when the loop never ends (a server that answers every page with a full
  page). Beside the outcome (\<open>Inl\<close> the error thrown, \<open>Inr\<close> the items returned) the model
  keeps the list of the requests handed to \<^verbatim>\<open>fetch\<close>, in order; the code has no such list,
  and nothing in the model reads it.
\<close>

type_synonym 'a paged_outcome = "request list \<times> (error + 'a list)"

partial_function (option) fetchPaged_loop ::
  "platform \<Rightarrow> (request \<Rightarrow> string + 'a json_list response) \<Rightarrow> string \<Rightarrow> string \<Rightarrow>
   nat \<Rightarrow> 'a list \<Rightarrow> request list \<Rightarrow> 'a paged_outcome option" where
  "fetchPaged_loop plat fetch url accessToken page items sent =
     (case URL_new plat url of
        Inl m \<Rightarrow> Some (sent, Inl (PlatformError m))
      | Inr u \<Rightarrow>
          (let req = paged_request plat u accessToken page;
               sent' = sent @ [req]
           in case fetch req of
                Inl m \<Rightarrow> Some (sent', Inl (PlatformError m))
              | Inr response \<Rightarrow>
                  if \<not> ok response
                  then Some (sent', Inl (GiteaApiError (status response)
                                          (api_error_message response) (Some (req_url req))))
                  else (case body_json response of
                          Inl m \<Rightarrow> Some (sent', Inl (PlatformError m))
                        | Inr JNotArray \<Rightarrow> Some (sent', Inr items)
                        | Inr (JArray data) \<Rightarrow>
                            if length data = 0 then Some (sent', Inr items)
                            else if length data < PER_PAGE then Some (sent', Inr (items @ data))
                            else fetchPaged_loop plat fetch url accessToken (page + 1)
                                   (items @ data) sent')))"

definition fetchPaged ::
  "platform \<Rightarrow> (request \<Rightarrow> string + 'a json_list response) \<Rightarrow> string \<Rightarrow> string \<Rightarrow>
   'a paged_outcome option" where
  "fetchPaged plat fetch url accessToken = fetchPaged_loop plat fetch url accessToken 1 [] []"

section \<open>The data model\<close>

text \<open>
  The entities as \<^verbatim>\<open>lib/gitea.ts\<close> declares them. Identifiers are JSON integers. A field
  the code reads through \<^verbatim>\<open>?.\<close> is optional here, whatever its declared type; the
  chains \<^verbatim>\<open>head?.sha\<close>, \<^verbatim>\<open>repository?.full_name\<close> and \<^verbatim>\<open>base?.repo?.full_name\<close> are one
  optional field each (\<open>None\<close> when any link of the chain is missing or \<^verbatim>\<open>null\<close>). The
  assignee fields of a pull request are left out: no function modelled here reads them.
\<close>

record GiteaUser =
  login :: string
  avatar_url :: "string option"

record GiteaRepo =
  repo_id :: int
  full_name :: string
  description :: "string option"
  repo_html_url :: string
  repo_owner :: "GiteaUser option"

record GiteaPullRequest =
  pr_id :: int
  number :: int
  title :: string
  html_url :: string
  user :: "GiteaUser option"
  updated_at :: string
  state :: string
  draft :: "bool option"
  head_sha :: "string option"
  requested_reviewers :: "GiteaUser list option"
  repository_full_name :: "string option"
  base_repo_full_name :: "string option"

record GiteaAuthenticatedUser =
  auth_id :: int
  auth_login :: string

text \<open>An entry of \<^verbatim>\<open>GET /orgs\<close>: \<^verbatim>\<open>{ username?: string; name?: string }\<close>.\<close>

record GiteaOrg =
  username :: "string option"
  org_name :: "string option"

text \<open>
  The JSON value of \<^verbatim>\<open>GET /repos/search\<close> as \<^verbatim>\<open>fetchAllRepos\<close> reads it: \<^verbatim>\<open>null\<close> (reading
  \<^verbatim>\<open>json.data\<close> throws), or a value with \<^verbatim>\<open>data\<close> (\<open>None\<close> when it is not an array) and
  \<^verbatim>\<open>total_count\<close> (\<open>None\<close> when it is not a number).
\<close>

datatype search_json = SearchNull | SearchObject "GiteaRepo list option" "int option"

text \<open>
  The JSON value of \<^verbatim>\<open>GET /repos/{owner}/{name}/commits/{sha}/status\<close>: \<^verbatim>\<open>null\<close>, or a
  value with the optional string \<^verbatim>\<open>state\<close>.
\<close>

datatype status_json = StatusNull | StatusObject "string option"

text \<open>
  The code has one \<^verbatim>\<open>fetch\<close> and casts each JSON value to the shape it expects. The model
  has one function per shape.
\<close>

record network =
  fetch_pulls :: "request \<Rightarrow> string + GiteaPullRequest json_list response"
  fetch_repos :: "request \<Rightarrow> string + GiteaRepo json_list response"
  fetch_search :: "request \<Rightarrow> string + search_json response"
  fetch_orgs :: "request \<Rightarrow> string + GiteaOrg json_list response"
  fetch_user :: "request \<Rightarrow> string + GiteaAuthenticatedUser option response"
  fetch_status :: "request \<Rightarrow> string + status_json response"

text \<open>The message of the TypeError for a property read on \<^verbatim>\<open>null\<close>.\<close>

definition null_read :: string where
  "null_read = ''Cannot read properties of null''"

section \<open>The current user\<close>

text \<open>
  \<^verbatim>\<open>fetchCurrentUser\<close>: every failure is \<^verbatim>\<open>null\<close>. The JSON value \<^verbatim>\<open>null\<close> is \<open>None\<close> in
  \<open>body_json\<close>.
\<close>

definition fetchCurrentUser ::
  "(request \<Rightarrow> string + GiteaAuthenticatedUser option response) \<Rightarrow> string \<Rightarrow> string \<Rightarrow>
   GiteaAuthenticatedUser option" where
  "fetchCurrentUser fetch baseUrl accessToken =
     (case fetch \<lparr>req_url = normalizeBaseUrl baseUrl @ ''/api/v1/user'',
                  authorization = Some (''token '' @ accessToken)\<rparr> of
        Inl m \<Rightarrow> None
      | Inr response \<Rightarrow>
          if \<not> ok response then None
          else (case body_json response of Inl m \<Rightarrow> None | Inr data \<Rightarrow> data))"

section \<open>Repository discovery\<close>

text \<open>
  The accumulator of \<^verbatim>\<open>fetchAllRepos\<close>: the array \<open>repos\<close> and the set \<open>seenIds\<close>.
\<close>

record repo_acc =
  repos :: "GiteaRepo list"
  seenIds :: "int set"

definition empty_acc :: repo_acc where
  "empty_acc = \<lparr>repos = [], seenIds = {}\<rparr>"

text \<open>
  The loop \<^verbatim>\<open>for (const repo of data)\<close>, the same in all three phases, and its body.
\<close>

definition add_repo :: "GiteaRepo \<Rightarrow> repo_acc \<Rightarrow> repo_acc" where
  "add_repo repo acc =
     (if repo_id repo \<notin> seenIds acc
      then acc\<lparr>seenIds := insert (repo_id repo) (seenIds acc), repos := repos acc @ [repo]\<rparr>
      else acc)"

definition add_page :: "GiteaRepo list \<Rightarrow> repo_acc \<Rightarrow> repo_acc" where
  "add_page data acc = fold add_repo data acc"

text \<open>
  A request of the repository phases: a URL object with \<^verbatim>\<open>limit\<close> and \<^verbatim>\<open>page\<close> set. The
  search sends the authorization header when there is an access token; the other two
  phases run only with a token and always send it.
\<close>

definition repos_apiUrl :: "URL \<Rightarrow> nat \<Rightarrow> URL" where
  "repos_apiUrl u page =
     searchParams_set ''page'' (String_nat page) (searchParams_set ''limit'' (String_nat PER_PAGE) u)"

definition search_request :: "platform \<Rightarrow> URL \<Rightarrow> string \<Rightarrow> nat \<Rightarrow> request" where
  "search_request plat u accessToken page =
     \<lparr>req_url = URL_toString plat (repos_apiUrl u page), authorization = auth_header accessToken\<rparr>"

definition repos_request :: "platform \<Rightarrow> URL \<Rightarrow> string \<Rightarrow> nat \<Rightarrow> request" where
  "repos_request plat u accessToken page =
     \<lparr>req_url = URL_toString plat (repos_apiUrl u page),
      authorization = Some (''token '' @ accessToken)\<rparr>"

text \<open>
  Phase 1, the search endpoint, with the loop variables \<open>page\<close> and \<open>prevCount\<close>. A failure
  here is thrown to the caller of \<^verbatim>\<open>fetchAllRepos\<close>.
\<close>

partial_function (option) search_loop ::
  "platform \<Rightarrow> (request \<Rightarrow> string + search_json response) \<Rightarrow> string \<Rightarrow> string \<Rightarrow>
   nat \<Rightarrow> nat \<Rightarrow> repo_acc \<Rightarrow> (error + repo_acc) option" where
  "search_loop plat fetch baseUrl accessToken page prevCount acc =
     (case URL_new plat (normalizeBaseUrl baseUrl @ ''/api/v1/repos/search'') of
        Inl m \<Rightarrow> Some (Inl (PlatformError m))
      | Inr u \<Rightarrow>
          (case fetch (search_request plat u accessToken page) of
             Inl m \<Rightarrow> Some (Inl (PlatformError m))
           | Inr response \<Rightarrow>
               if \<not> ok response then Some (Inl (Error (api_error_message response)))
               else (case body_json response of
                       Inl m \<Rightarrow> Some (Inl (PlatformError m))
                     | Inr SearchNull \<Rightarrow> Some (Inl (PlatformError null_read))
                     | Inr (SearchObject json_data totalCount) \<Rightarrow>
                         (let data = (case json_data of Some d \<Rightarrow> d | None \<Rightarrow> []);
                              acc' = add_page data acc
                          in if length data = 0 then Some (Inr acc')
                             else if (case totalCount of
                                        Some t \<Rightarrow> t \<le> int (length (repos acc'))
                                      | None \<Rightarrow> False)
                             then Some (Inr acc')
                             else if length (repos acc') = prevCount then Some (Inr acc')
                             else search_loop plat fetch baseUrl accessToken (page + 1)
                                    (length (repos acc')) acc'))))"

text \<open>
  Phase 2, the authenticated user's repositories. A response that is not ok ends the
  phase; a rejected \<^verbatim>\<open>fetch\<close> or \<^verbatim>\<open>json()\<close> is not caught and leaves \<^verbatim>\<open>fetchAllRepos\<close>.
\<close>

partial_function (option) user_repos_loop ::
  "platform \<Rightarrow> (request \<Rightarrow> string + GiteaRepo json_list response) \<Rightarrow> string \<Rightarrow> string \<Rightarrow>
   nat \<Rightarrow> repo_acc \<Rightarrow> (error + repo_acc) option" where
  "user_repos_loop plat fetch baseUrl accessToken page acc =
     (case URL_new plat (normalizeBaseUrl baseUrl @ ''/api/v1/user/repos'') of
        Inl m \<Rightarrow> Some (Inl (PlatformError m))
      | Inr u \<Rightarrow>
          (case fetch (repos_request plat u accessToken page) of
             Inl m \<Rightarrow> Some (Inl (PlatformError m))
           | Inr response \<Rightarrow>
               if \<not> ok response then Some (Inr acc)
               else (case body_json response of
                       Inl m \<Rightarrow> Some (Inl (PlatformError m))
                     | Inr JNotArray \<Rightarrow> Some (Inr acc)
                     | Inr (JArray data) \<Rightarrow>
                         if length data = 0 then Some (Inr acc)
                         else (let beforeCount = length (repos acc);
                                   acc' = add_page data acc
                               in if length (repos acc') = beforeCount then Some (Inr acc')
                                  else user_repos_loop plat fetch baseUrl accessToken
                                         (page + 1) acc'))))"

text \<open>
  Phase 3 runs inside \<^verbatim>\<open>try { ... } catch { }\<close>. First the list of all organizations,
  with the loop variables \<open>orgPage\<close> and \<open>allOrgs\<close>; \<open>Inl\<close> is an exception on its way to
  the \<^verbatim>\<open>catch\<close>.
\<close>

definition orgs_request :: "string \<Rightarrow> string \<Rightarrow> nat \<Rightarrow> request" where
  "orgs_request baseUrl accessToken orgPage =
     \<lparr>req_url = normalizeBaseUrl baseUrl @ ''/api/v1/orgs?limit='' @ String_nat PER_PAGE @
                 ''&page='' @ String_nat orgPage,
      authorization = Some (''token '' @ accessToken)\<rparr>"

partial_function (option) orgs_loop ::
  "(request \<Rightarrow> string + GiteaOrg json_list response) \<Rightarrow> string \<Rightarrow> string \<Rightarrow>
   nat \<Rightarrow> GiteaOrg list \<Rightarrow> (error + GiteaOrg list) option" where
  "orgs_loop fetch baseUrl accessToken orgPage allOrgs =
     (case fetch (orgs_request baseUrl accessToken orgPage) of
        Inl m \<Rightarrow> Some (Inl (PlatformError m))
      | Inr orgsResponse \<Rightarrow>
          if \<not> ok orgsResponse then Some (Inr allOrgs)
          else (case body_json orgsResponse of
                  Inl m \<Rightarrow> Some (Inl (PlatformError m))
                | Inr JNotArray \<Rightarrow> Some (Inr allOrgs)
                | Inr (JArray orgs) \<Rightarrow>
                    if length orgs = 0 then Some (Inr allOrgs)
                    else if length orgs < PER_PAGE then Some (Inr (allOrgs @ orgs))
                    else orgs_loop fetch baseUrl accessToken (orgPage + 1) (allOrgs @ orgs)))"

text \<open>
  The repositories of one organization, with the loop variable \<open>repoPage\<close>. The array
  \<open>repos\<close> is updated in place, so what was added before an exception stays: the result
  is the exception, if any, and the accumulator as it is then.
\<close>

partial_function (option) org_repos_loop ::
  "platform \<Rightarrow> (request \<Rightarrow> string + GiteaRepo json_list response) \<Rightarrow> string \<Rightarrow> string \<Rightarrow>
   string \<Rightarrow> nat \<Rightarrow> repo_acc \<Rightarrow> (error option \<times> repo_acc) option" where
  "org_repos_loop plat fetch baseUrl accessToken orgName repoPage acc =
     (case URL_new plat (normalizeBaseUrl baseUrl @ ''/api/v1/orgs/'' @ orgName @ ''/repos'') of
        Inl m \<Rightarrow> Some (Some (PlatformError m), acc)
      | Inr u \<Rightarrow>
          (case fetch (repos_request plat u accessToken repoPage) of
             Inl m \<Rightarrow> Some (Some (PlatformError m), acc)
           | Inr response \<Rightarrow>
               if \<not> ok response then Some (None, acc)
               else (case body_json response of
                       Inl m \<Rightarrow> Some (Some (PlatformError m), acc)
                     | Inr JNotArray \<Rightarrow> Some (None, acc)
                     | Inr (JArray data) \<Rightarrow>
                         if length data = 0 then Some (None, acc)
                         else (let beforeCount = length (repos acc);
                                   acc' = add_page data acc
                               in if length (repos acc') = beforeCount then Some (None, acc')
                                  else org_repos_loop plat fetch baseUrl accessToken orgName
                                         (repoPage + 1) acc'))))"

text \<open>\<^verbatim>\<open>a || b\<close> on optional strings: the first operand unless it is missing or empty.\<close>

definition truthy :: "string option \<Rightarrow> bool" where
  "truthy s = (case s of None \<Rightarrow> False | Some t \<Rightarrow> t \<noteq> [])"

definition js_or :: "string option \<Rightarrow> string option \<Rightarrow> string option" where
  "js_or a b = (if truthy a then a else b)"

text \<open>
  \<^verbatim>\<open>for (const org of allOrgs)\<close>: an organization without a name is skipped, and the
  first exception ends the loop (it is on its way to the \<^verbatim>\<open>catch\<close>).
\<close>

fun orgs_repos ::
  "platform \<Rightarrow> (request \<Rightarrow> string + GiteaRepo json_list response) \<Rightarrow> string \<Rightarrow> string \<Rightarrow>
   GiteaOrg list \<Rightarrow> repo_acc \<Rightarrow> (error option \<times> repo_acc) option" where
  "orgs_repos plat fetch baseUrl accessToken [] acc = Some (None, acc)"
| "orgs_repos plat fetch baseUrl accessToken (org # rest) acc =
     (let orgName = js_or (username org) (org_name org)
      in if \<not> truthy orgName then orgs_repos plat fetch baseUrl accessToken rest acc
         else (case org_repos_loop plat fetch baseUrl accessToken (the orgName) 1 acc of
                 None \<Rightarrow> None
               | Some (Some e, acc') \<Rightarrow> Some (Some e, acc')
               | Some (None, acc') \<Rightarrow> orgs_repos plat fetch baseUrl accessToken rest acc'))"

text \<open>
  \<^verbatim>\<open>fetchAllRepos\<close>. The array it returns is \<open>repos\<close> of the accumulator. An exception of
  phase 3 is swallowed, whether it comes from listing the organizations or from one of
  their repository loops.
\<close>

definition fetchAllRepos ::
  "platform \<Rightarrow> network \<Rightarrow> string \<Rightarrow> string \<Rightarrow> (error + repo_acc) option" where
  "fetchAllRepos plat net baseUrl accessToken =
     (case search_loop plat (fetch_search net) baseUrl accessToken 1 0 empty_acc of
        None \<Rightarrow> None
      | Some (Inl e) \<Rightarrow> Some (Inl e)
      | Some (Inr acc1) \<Rightarrow>
          if accessToken = [] then Some (Inr acc1)
          else (case user_repos_loop plat (fetch_repos net) baseUrl accessToken 1 acc1 of
                  None \<Rightarrow> None
                | Some (Inl e) \<Rightarrow> Some (Inl e)
                | Some (Inr acc2) \<Rightarrow>
                    (case orgs_loop (fetch_orgs net) baseUrl accessToken 1 [] of
                       None \<Rightarrow> None
                     | Some (Inl e) \<Rightarrow> Some (Inr acc2)
                     | Some (Inr allOrgs) \<Rightarrow>
                         (case orgs_repos plat (fetch_repos net) baseUrl accessToken allOrgs acc2 of
                            None \<Rightarrow> None
                          | Some (thrown, acc3) \<Rightarrow> Some (Inr acc3)))))"

section \<open>The pull-request inbox\<close>

text \<open>
  \<^verbatim>\<open>PullInboxDebug\<close>, without the two clock readings \<^verbatim>\<open>startedAt\<close> and \<^verbatim>\<open>finishedAt\<close>. An
  entry of \<open>errors\<close> is the stage and the error (\<^verbatim>\<open>toDebugError\<close> keeps its type, status,
  message and URL). Console logging is not modelled, so the flag \<^verbatim>\<open>debugEnabled\<close> is no
  parameter here.
\<close>

record PullInboxDebug =
  dbg_baseUrl :: string
  createdUrl :: string
  reviewRequestedUrl :: string
  usedGlobalEndpoints :: "bool option"
  fallbackUsed :: "bool option"
  createdCount :: "nat option"
  reviewRequestedCount :: "nat option"
  currentUser :: "string option"
  repoCount :: "nat option"
  perRepoFailures :: "nat option"
  errors :: "(string \<times> error) list"

text \<open>What \<^verbatim>\<open>fetchPullRequestInbox\<close> returns.\<close>

record PullInbox =
  created :: "GiteaPullRequest list"
  reviewRequested :: "GiteaPullRequest list"
  debug :: PullInboxDebug

text \<open>
  What it throws: the error and, where the code attaches one with
  \<^verbatim>\<open>Object.assign(reason, { __debug: dbg })\<close>, the debug record.
\<close>

type_synonym inbox_outcome = "(error \<times> PullInboxDebug option) + PullInbox"

text \<open>
  One disjunct of \<^verbatim>\<open>any404\<close>: the promise is rejected, the reason is a \<^verbatim>\<open>GiteaApiError\<close>
  and its status is 404.
\<close>

fun rejected_404 :: "error + 'a \<Rightarrow> bool" where
  "rejected_404 (Inl (GiteaApiError st msg url)) = (st = 404)"
| "rejected_404 (Inl (Error msg)) = False"
| "rejected_404 (Inl (PlatformError msg)) = False"
| "rejected_404 (Inr v) = False"

text \<open>
  \<^verbatim>\<open>const [owner, name] = s.split("/")\<close> followed by \<^verbatim>\<open>if (!owner || !name)\<close>: the first
  two pieces, when both are there and not empty.
\<close>

definition owner_and_name :: "string \<Rightarrow> (string \<times> string) option" where
  "owner_and_name s =
     (case split_on CHR ''/'' s of
        owner # name # rest \<Rightarrow> if owner = [] \<or> name = [] then None else Some (owner, name)
      | _ \<Rightarrow> None)"

text \<open>The two filters of the fallback scan.\<close>

definition authored_by :: "string \<Rightarrow> GiteaPullRequest \<Rightarrow> bool" where
  "authored_by me pr = (case user pr of None \<Rightarrow> False | Some u \<Rightarrow> login u = me)"

definition review_requested_of :: "string \<Rightarrow> GiteaPullRequest \<Rightarrow> bool" where
  "review_requested_of me pr =
     (case requested_reviewers pr of None \<Rightarrow> False | Some rs \<Rightarrow> list_ex (\<lambda>r. login r = me) rs)"

definition pullsUrl :: "string \<Rightarrow> string \<Rightarrow> string \<Rightarrow> string" where
  "pullsUrl apiBase owner name =
     apiBase @ ''/api/v1/repos/'' @ owner @ ''/'' @ name @ ''/pulls?state=open''"

text \<open>
  The callback given to \<^verbatim>\<open>mapWithConcurrency\<close>: the partition of one repository, and the
  counter \<^verbatim>\<open>perRepoFailures\<close> (here \<open>failures\<close>) as it leaves it.
\<close>

definition scan_repo ::
  "platform \<Rightarrow> (request \<Rightarrow> string + GiteaPullRequest json_list response) \<Rightarrow> string \<Rightarrow> string \<Rightarrow>
   string \<Rightarrow> GiteaRepo \<Rightarrow> nat \<Rightarrow>
   ((GiteaPullRequest list \<times> GiteaPullRequest list) \<times> nat) option" where
  "scan_repo plat fetch apiBase accessToken me repo failures =
     (case owner_and_name (full_name repo) of
        None \<Rightarrow> Some (([], []), failures)
      | Some (owner, name) \<Rightarrow>
          (case fetchPaged plat fetch (pullsUrl apiBase owner name) accessToken of
             None \<Rightarrow> None
           | Some (sent, Inr pulls) \<Rightarrow>
               Some ((filter (authored_by me) pulls, filter (review_requested_of me) pulls),
                     failures)
           | Some (sent, Inl err) \<Rightarrow> Some (([], []), failures + 1)))"

text \<open>
  \<^verbatim>\<open>mapWithConcurrency(items, concurrency, fn)\<close>. Each worker takes the next index from the
  shared counter and stores its result at that index, so every item is processed once
  and the results are in the order of the items. The callbacks run on one thread and
  interleave only at their \<^verbatim>\<open>await\<close>s; the state they share is threaded here in the order
  of the items, which is the final state whenever, as for a counter, the order of the
  updates does not matter. The number of workers changes the schedule only. The result
  is \<open>None\<close> when some callback never settles.
\<close>

fun mapWithConcurrency ::
  "'a list \<Rightarrow> nat \<Rightarrow> ('a \<Rightarrow> 's \<Rightarrow> ('r \<times> 's) option) \<Rightarrow> 's \<Rightarrow> ('r list \<times> 's) option" where
  "mapWithConcurrency [] concurrency fn s = Some ([], s)"
| "mapWithConcurrency (item # items) concurrency fn s =
     (case fn item s of
        None \<Rightarrow> None
      | Some (r, s') \<Rightarrow>
          (case mapWithConcurrency items concurrency fn s' of
             None \<Rightarrow> None
           | Some (rs, s'') \<Rightarrow> Some (r # rs, s'')))"

definition push_error :: "string \<Rightarrow> error + 'a \<Rightarrow> PullInboxDebug \<Rightarrow> PullInboxDebug" where
  "push_error stage result dbg =
     (case result of Inl reason \<Rightarrow> dbg\<lparr>errors := errors dbg @ [(stage, reason)]\<rparr> | Inr v \<Rightarrow> dbg)"

text \<open>The global mode: the part of \<^verbatim>\<open>fetchPullRequestInbox\<close> under \<^verbatim>\<open>if (!any404)\<close>.\<close>

definition global_mode ::
  "PullInboxDebug \<Rightarrow> error + GiteaPullRequest list \<Rightarrow> error + GiteaPullRequest list \<Rightarrow>
   inbox_outcome" where
  "global_mode dbg createdResult reviewResult =
     (let dbg1 = dbg\<lparr>usedGlobalEndpoints := Some True, fallbackUsed := Some False\<rparr>
      in case createdResult of
           Inl reason \<Rightarrow> Inl (reason, Some (push_error ''global_created'' createdResult dbg1))
         | Inr createdValue \<Rightarrow>
             (case reviewResult of
                Inl reason \<Rightarrow>
                  Inl (reason, Some (push_error ''global_review_requested'' reviewResult dbg1))
              | Inr reviewValue \<Rightarrow>
                  Inr \<lparr>created = createdValue, reviewRequested = reviewValue,
                       debug = dbg1\<lparr>createdCount := Some (length createdValue),
                                    reviewRequestedCount := Some (length reviewValue)\<rparr>\<rparr>))"

text \<open>The fallback mode: the rest of the function, from the comment \<^verbatim>\<open>// Fallback\<close> on.\<close>

definition fallback_mode ::
  "platform \<Rightarrow> network \<Rightarrow> string \<Rightarrow> string \<Rightarrow> PullInboxDebug \<Rightarrow>
   error + GiteaPullRequest list \<Rightarrow> error + GiteaPullRequest list \<Rightarrow> inbox_outcome option" where
  "fallback_mode plat net baseUrl accessToken dbg createdResult reviewResult =
     (let dbg1 = dbg\<lparr>usedGlobalEndpoints := Some False, fallbackUsed := Some True\<rparr>;
          dbg2 = push_error ''global_created'' createdResult dbg1;
          dbg3 = push_error ''global_review_requested'' reviewResult dbg2
      in case fetchCurrentUser (fetch_user net) baseUrl accessToken of
           None \<Rightarrow>
             Some (Inl (Error ''Could not determine current user. Check your access token.'',
                        Some (dbg3\<lparr>errors := errors dbg3 @
                                [(''current_user'', Error ''Could not determine current user.'')]\<rparr>)))
         | Some me \<Rightarrow>
             (let dbg4 = dbg3\<lparr>currentUser := Some (auth_login me)\<rparr>
              in case fetchAllRepos plat net baseUrl accessToken of
                   None \<Rightarrow> None
                 | Some (Inl e) \<Rightarrow> Some (Inl (e, None))
                 | Some (Inr acc) \<Rightarrow>
                     (let dbg5 = dbg4\<lparr>repoCount := Some (length (repos acc))\<rparr>
                      in case mapWithConcurrency (repos acc) 6
                                (scan_repo plat (fetch_pulls net) (normalizeBaseUrl baseUrl)
                                   accessToken (auth_login me)) 0 of
                           None \<Rightarrow> None
                         | Some (perRepo, failures) \<Rightarrow>
                             (let created' = concat (map fst perRepo);
                                  reviewRequested' = concat (map snd perRepo)
                              in Some (Inr \<lparr>created = created',
                                            reviewRequested = reviewRequested',
                                            debug = dbg5\<lparr>perRepoFailures := Some failures,
                                                         createdCount := Some (length created'),
                                                         reviewRequestedCount :=
                                                           Some (length reviewRequested')\<rparr>\<rparr>)))))"

definition global_createdUrl :: "string \<Rightarrow> string" where
  "global_createdUrl baseUrl = normalizeBaseUrl baseUrl @ ''/api/v1/pulls/created?state=open''"

definition global_reviewRequestedUrl :: "string \<Rightarrow> string" where
  "global_reviewRequestedUrl baseUrl =
     normalizeBaseUrl baseUrl @ ''/api/v1/pulls/requested_review?state=open''"

definition initial_debug :: "string \<Rightarrow> PullInboxDebug" where
  "initial_debug baseUrl =
     \<lparr>dbg_baseUrl = normalizeBaseUrl baseUrl,
      createdUrl = global_createdUrl baseUrl,
      reviewRequestedUrl = global_reviewRequestedUrl baseUrl,
      usedGlobalEndpoints = None, fallbackUsed = None, createdCount = None,
      reviewRequestedCount = None, currentUser = None, repoCount = None,
      perRepoFailures = None, errors = []\<rparr>"

text \<open>
  \<^verbatim>\<open>fetchPullRequestInbox\<close>. \<^verbatim>\<open>Promise.allSettled\<close> waits for both global fetches, so the
  result is \<open>None\<close> when one of them never settles.
\<close>

definition fetchPullRequestInbox ::
  "platform \<Rightarrow> network \<Rightarrow> string \<Rightarrow> string \<Rightarrow> inbox_outcome option" where
  "fetchPullRequestInbox plat net baseUrl accessToken =
     (case fetchPaged plat (fetch_pulls net) (global_createdUrl baseUrl) accessToken of
        None \<Rightarrow> None
      | Some (sent1, createdResult) \<Rightarrow>
          (case fetchPaged plat (fetch_pulls net) (global_reviewRequestedUrl baseUrl) accessToken of
             None \<Rightarrow> None
           | Some (sent2, reviewResult) \<Rightarrow>
               (let any404 = (rejected_404 createdResult \<or> rejected_404 reviewResult)
                in if \<not> any404
                   then Some (global_mode (initial_debug baseUrl) createdResult reviewResult)
                   else fallback_mode plat net baseUrl accessToken (initial_debug baseUrl)
                          createdResult reviewResult)))"

section \<open>Check statuses\<close>

text \<open>
  \<^verbatim>\<open>fetchCommitStatus\<close>, with the request it sends. It returns \<^verbatim>\<open>payload.state\<close> as it is,
  \<open>None\<close> when the field is missing.
\<close>

definition statusUrl :: "string \<Rightarrow> string \<Rightarrow> string \<Rightarrow> string \<Rightarrow> string" where
  "statusUrl baseUrl owner name sha =
     normalizeBaseUrl baseUrl @ ''/api/v1/repos/'' @ owner @ ''/'' @ name @ ''/commits/'' @ sha @
     ''/status''"

definition status_request :: "string \<Rightarrow> string \<Rightarrow> string \<Rightarrow> string \<Rightarrow> string \<Rightarrow> request" where
  "status_request baseUrl owner name sha accessToken =
     \<lparr>req_url = statusUrl baseUrl owner name sha, authorization = auth_header accessToken\<rparr>"

definition fetchCommitStatus ::
  "(request \<Rightarrow> string + status_json response) \<Rightarrow> string \<Rightarrow> string \<Rightarrow> string \<Rightarrow> string \<Rightarrow>
   string \<Rightarrow> error + string option" where
  "fetchCommitStatus fetch baseUrl owner name sha accessToken =
     (case fetch (status_request baseUrl owner name sha accessToken) of
        Inl m \<Rightarrow> Inl (PlatformError m)
      | Inr response \<Rightarrow>
          if \<not> ok response
          then Inl (GiteaApiError (status response) (api_error_message response)
                      (Some (statusUrl baseUrl owner name sha)))
          else (case body_json response of
                  Inl m \<Rightarrow> Inl (PlatformError m)
                | Inr StatusNull \<Rightarrow> Inl (PlatformError null_read)
                | Inr (StatusObject payload_state) \<Rightarrow> Inr payload_state))"

text \<open>\<^verbatim>\<open>inferRepoFullNameFromPullUrl\<close>: an invalid URL is caught and gives \<^verbatim>\<open>null\<close>.\<close>

definition inferRepoFullNameFromPullUrl :: "platform \<Rightarrow> string \<Rightarrow> string option" where
  "inferRepoFullNameFromPullUrl plat url =
     (case URL_new plat url of
        Inl m \<Rightarrow> None
      | Inr parsed \<Rightarrow>
          (let parts = filter (\<lambda>part. part \<noteq> []) (split_on CHR ''/'' (pathname parsed))
           in if 4 \<le> length parts \<and> (parts ! 2 = ''pulls'' \<or> parts ! 2 = ''pull'')
              then Some (parts ! 0 @ ''/'' @ parts ! 1)
              else None))"

definition getPullRepoFullName :: "platform \<Rightarrow> GiteaPullRequest \<Rightarrow> string option" where
  "getPullRepoFullName plat pull =
     js_or (repository_full_name pull)
       (js_or (base_repo_full_name pull) (inferRepoFullNameFromPullUrl plat (html_url pull)))"

definition getRepoOwnerAndName :: "platform \<Rightarrow> GiteaPullRequest \<Rightarrow> (string \<times> string) option" where
  "getRepoOwnerAndName plat pull =
     (let full = getPullRepoFullName plat pull
      in if \<not> truthy full then None else owner_and_name (the full))"

text \<open>
  The callback of \<^verbatim>\<open>all.map(async (pull) => ...)\<close> in the status effect of \<^verbatim>\<open>Command\<close>: the
  requests the item sends and its entry \<^verbatim>\<open>{ id, state }\<close>.
\<close>

definition enrich_pull ::
  "platform \<Rightarrow> (request \<Rightarrow> string + status_json response) \<Rightarrow> string \<Rightarrow> string \<Rightarrow>
   GiteaPullRequest \<Rightarrow> request list \<times> (int \<times> string)" where
  "enrich_pull plat fetch baseUrl accessToken pull =
     (let sha = head_sha pull;
          repo = getRepoOwnerAndName plat pull
      in if \<not> truthy sha \<or> repo = None then ([], (pr_id pull, ''unknown''))
         else (case the repo of
                 (owner, name) \<Rightarrow>
                   ([status_request baseUrl owner name (the sha) accessToken],
                    (case fetchCommitStatus fetch baseUrl owner name (the sha) accessToken of
                       Inr (Some st) \<Rightarrow> (pr_id pull, st)
                     | Inr None \<Rightarrow> (pr_id pull, ''unknown'')
                     | Inl err \<Rightarrow> (pr_id pull, ''unknown'')))))"

text \<open>
  \<^verbatim>\<open>for (const r of results) next[r.id] = r.state\<close>, from the empty record \<^verbatim>\<open>next\<close>.
\<close>

definition status_map :: "(int \<times> string) list \<Rightarrow> (int \<rightharpoonup> string)" where
  "status_map results = fold (\<lambda>r next. next(fst r \<mapsto> snd r)) results Map.empty"

text \<open>
  The status effect of \<^verbatim>\<open>Command\<close> for the list
  \<^verbatim>\<open>all = [...createdPulls, ...reviewRequestedPulls]\<close>, when it runs (the settings are
  loaded, the base URL is valid and an access token is there): all the requests sent,
  and the mapping given to \<^verbatim>\<open>setStatusById\<close> (the empty one when the list is empty). The
  code keeps no list of requests; nothing in the model reads it.
\<close>

definition enrich_statuses ::
  "platform \<Rightarrow> (request \<Rightarrow> string + status_json response) \<Rightarrow> string \<Rightarrow> string \<Rightarrow>
   GiteaPullRequest list \<Rightarrow> request list \<times> (int \<rightharpoonup> string)" where
  "enrich_statuses plat fetch baseUrl accessToken all =
     (let results = map (enrich_pull plat fetch baseUrl accessToken) all
      in (concat (map fst results), status_map (map snd results)))"

section \<open>The inbox cache and the refresh\<close>

text \<open>
  \<^verbatim>\<open>LocalStorage\<close> is a store of strings under string keys. The conversions between
  values and strings belong to the platform and are parameters: \<^verbatim>\<open>encodeURIComponent\<close>,
  \<^verbatim>\<open>JSON.stringify\<close> on a payload, \<^verbatim>\<open>JSON.parse\<close> followed by the shape test of
  \<^verbatim>\<open>loadCachedInbox\<close> (\<open>None\<close> when the parser throws or the test fails: both give the
  empty result), and \<^verbatim>\<open>Number\<close> on a string (\<open>None\<close> for \<^verbatim>\<open>NaN\<close>). Times are integers, the
  milliseconds of \<^verbatim>\<open>Date.now()\<close>, and the TTL is a whole number of minutes. Reading and
  writing the store always succeed.
\<close>

record PullInboxCachePayload =
  payload_created :: "GiteaPullRequest list"
  payload_reviewRequested :: "GiteaPullRequest list"
  payload_statusById :: "(int \<rightharpoonup> string) option"

record codec =
  encodeURIComponent :: "string \<Rightarrow> string"
  JSON_stringify :: "PullInboxCachePayload \<Rightarrow> string"
  JSON_parse :: "string \<Rightarrow> PullInboxCachePayload option"
  Number :: "string \<Rightarrow> int option"

definition String_int :: "int \<Rightarrow> string" where
  "String_int i = (if i < 0 then ''-'' @ String_nat (nat (- i)) else String_nat (nat i))"

definition prCacheKey :: "codec \<Rightarrow> string \<Rightarrow> string" where
  "prCacheKey cdc baseUrl = ''gitea-pr-inbox-cache:'' @ encodeURIComponent cdc baseUrl"

definition prCacheTimeKey :: "codec \<Rightarrow> string \<Rightarrow> string" where
  "prCacheTimeKey cdc baseUrl = ''gitea-pr-inbox-cache-time:'' @ encodeURIComponent cdc baseUrl"

definition loadCachedInbox ::
  "codec \<Rightarrow> (string \<rightharpoonup> string) \<Rightarrow> string \<Rightarrow> PullInboxCachePayload option \<times> int option" where
  "loadCachedInbox cdc store baseUrl =
     (let raw = store (prCacheKey cdc baseUrl);
          rawTime = store (prCacheTimeKey cdc baseUrl)
      in if \<not> truthy raw \<or> \<not> truthy rawTime then (None, None)
         else (case Number cdc (the rawTime) of
                 None \<Rightarrow> (None, None)
               | Some timestamp \<Rightarrow>
                   (case JSON_parse cdc (the raw) of
                      None \<Rightarrow> (None, None)
                    | Some payload \<Rightarrow> (Some payload, Some timestamp))))"

definition saveCachedInbox ::
  "codec \<Rightarrow> (string \<rightharpoonup> string) \<Rightarrow> string \<Rightarrow> PullInboxCachePayload \<Rightarrow> int \<Rightarrow>
   (string \<rightharpoonup> string)" where
  "saveCachedInbox cdc store baseUrl payload now =
     store(prCacheKey cdc baseUrl \<mapsto> JSON_stringify cdc payload,
           prCacheTimeKey cdc baseUrl \<mapsto> String_int now)"

text \<open>
  The freshness test, written in \<^verbatim>\<open>refreshInbox\<close> and in \<^verbatim>\<open>refreshRepos\<close> as
  \<^verbatim>\<open>cached.timestamp && Date.now() - cached.timestamp < cacheTtlMinutes * 60_000\<close>. The
  operator \<^verbatim>\<open>&&\<close> gives its left operand back when that is \<^verbatim>\<open>null\<close> or \<^verbatim>\<open>0\<close>, and the
  \<^verbatim>\<open>if\<close> that follows takes both as false.
\<close>

definition isFresh :: "int option \<Rightarrow> int \<Rightarrow> int \<Rightarrow> bool" where
  "isFresh timestamp now cacheTtlMinutes =
     (case timestamp of
        None \<Rightarrow> False
      | Some t \<Rightarrow> t \<noteq> 0 \<and> now - t < cacheTtlMinutes * 60000)"

text \<open>The state of \<^verbatim>\<open>Command\<close> that \<^verbatim>\<open>refreshInbox\<close> sets.\<close>

record inbox_state =
  createdPulls :: "GiteaPullRequest list"
  reviewRequestedPulls :: "GiteaPullRequest list"
  statusById :: "int \<rightharpoonup> string"
  isLoading :: bool
  errorMessage :: "string option"
  debugInfo :: "PullInboxDebug option"
  lastError :: "error option"

text \<open>
  What \<^verbatim>\<open>refreshInbox\<close> does to the outside, in order: it reads the cache
  (\<^verbatim>\<open>loadCachedInbox\<close>), runs the live fetch (\<^verbatim>\<open>fetchPullRequestInbox\<close>), writes the cache
  (\<^verbatim>\<open>saveCachedInbox\<close>), shows a toast. The list \<open>effects\<close> of these is not in the code,
  and nothing in the model reads it.
\<close>

datatype effect = CacheRead | LiveFetch | CacheWrite | ShowToast string

record world =
  ui :: inbox_state
  storage :: "string \<rightharpoonup> string"
  effects :: "effect list"

definition error_message :: "error \<Rightarrow> string" where
  "error_message e = (case e of GiteaApiError st m url \<Rightarrow> m | Error m \<Rightarrow> m | PlatformError m \<Rightarrow> m)"

text \<open>
  The second half of \<^verbatim>\<open>refreshInbox\<close>, from \<^verbatim>\<open>setIsLoading(!hasCached)\<close> on; \<open>now\<close> is the
  clock when the cache is written.
\<close>

definition live_refresh ::
  "platform \<Rightarrow> codec \<Rightarrow> network \<Rightarrow> string \<Rightarrow> string \<Rightarrow> int \<Rightarrow> bool \<Rightarrow> world \<Rightarrow> world option" where
  "live_refresh plat cdc net baseUrl accessToken now hasCached w =
     (let w1 = w\<lparr>ui := (ui w)\<lparr>isLoading := \<not> hasCached\<rparr>, effects := effects w @ [LiveFetch]\<rparr>
      in case fetchPullRequestInbox plat net baseUrl accessToken of
           None \<Rightarrow> None
         | Some (Inr res) \<Rightarrow>
             Some (w1\<lparr>ui := (ui w1)\<lparr>createdPulls := created res,
                                   reviewRequestedPulls := reviewRequested res,
                                   debugInfo := Some (debug res),
                                   isLoading := False\<rparr>,
                       storage := saveCachedInbox cdc (storage w1) baseUrl
                                    \<lparr>payload_created = created res,
                                     payload_reviewRequested = reviewRequested res,
                                     payload_statusById = None\<rparr> now,
                       effects := effects w1 @ [CacheWrite]\<rparr>)
         | Some (Inl (err, maybeDebug)) \<Rightarrow>
             Some (w1\<lparr>ui := (ui w1)\<lparr>errorMessage := Some (error_message err),
                                   lastError := Some err,
                                   debugInfo := (case maybeDebug of
                                                   Some d \<Rightarrow> Some d
                                                 | None \<Rightarrow> debugInfo (ui w1)),
                                   isLoading := False\<rparr>,
                       effects := effects w1 @ [ShowToast (error_message err)]\<rparr>))"

text \<open>
  \<^verbatim>\<open>refreshInbox(force)\<close>; \<open>now1\<close> is the clock at the freshness test and \<open>now2\<close> the clock
  when the cache is written. An absent base URL or access token is the empty string.
\<close>

definition refreshInbox ::
  "platform \<Rightarrow> codec \<Rightarrow> network \<Rightarrow> string \<Rightarrow> string \<Rightarrow> int \<Rightarrow> int \<Rightarrow> int \<Rightarrow> bool \<Rightarrow>
   world \<Rightarrow> world option" where
  "refreshInbox plat cdc net baseUrl accessToken cacheTtlMinutes now1 now2 force w =
     (if baseUrl = [] \<or> accessToken = [] then Some (w\<lparr>ui := (ui w)\<lparr>isLoading := False\<rparr>\<rparr>)
      else
        (let w1 = w\<lparr>ui := (ui w)\<lparr>errorMessage := None, debugInfo := None, lastError := None\<rparr>\<rparr>
         in if force then live_refresh plat cdc net baseUrl accessToken now2 False w1
            else
              (let cached = loadCachedInbox cdc (storage w1) baseUrl;
                   w2 = w1\<lparr>effects := effects w1 @ [CacheRead]\<rparr>
               in case fst cached of
                    None \<Rightarrow> live_refresh plat cdc net baseUrl accessToken now2 False w2
                  | Some payload \<Rightarrow>
                      (let w3 = w2\<lparr>ui := (ui w2)\<lparr>createdPulls := payload_created payload,
                                                  reviewRequestedPulls :=
                                                    payload_reviewRequested payload,
                                                  statusById :=
                                                    (case payload_statusById payload of
                                                       Some m \<Rightarrow> m
                                                     | None \<Rightarrow> statusById (ui w2))\<rparr>\<rparr>
                       in if isFresh (snd cached) now1 cacheTtlMinutes
                          then Some (w3\<lparr>ui := (ui w3)\<lparr>isLoading := False\<rparr>\<rparr>)
                          else live_refresh plat cdc net baseUrl accessToken now2 True w3))))"

text \<open>
  \<^verbatim>\<open>isValidBaseUrl\<close>, and what \<^verbatim>\<open>Command\<close> renders. The two actions that call
  \<^verbatim>\<open>refreshInbox(true)\<close> belong to the items of the list, which is rendered only when the
  base URL is valid and an access token is there.
\<close>

definition isValidBaseUrl :: "platform \<Rightarrow> string \<Rightarrow> bool" where
  "isValidBaseUrl plat baseUrl =
     (if baseUrl = [] then False
      else (case URL_new plat baseUrl of
              Inl m \<Rightarrow> False
            | Inr parsed \<Rightarrow> protocol parsed = ''http:'' \<or> protocol parsed = ''https:''))"

datatype view = LoadingList | SetupForm | InboxList

definition Command_view :: "platform \<Rightarrow> bool \<Rightarrow> string \<Rightarrow> string \<Rightarrow> view" where
  "Command_view plat settingsLoaded baseUrl accessToken =
     (if \<not> settingsLoaded then LoadingList
      else if \<not> isValidBaseUrl plat baseUrl \<or> accessToken = [] then SetupForm
      else InboxList)"

section \<open>Notions used to state the properties\<close>

text \<open>
  The page a response carries for a paginated loop: the array of an ok response.
\<close>

fun page_of :: "string + 'a json_list response \<Rightarrow> 'a list option" where
  "page_of (Inl m) = None"
| "page_of (Inr response) =
     (if ok response
      then (case body_json response of Inr (JArray data) \<Rightarrow> Some data | _ \<Rightarrow> None)
      else None)"

text \<open>The debug record an outcome of \<^verbatim>\<open>fetchPullRequestInbox\<close> carries, if any.\<close>

definition outcome_debug :: "inbox_outcome \<Rightarrow> PullInboxDebug option" where
  "outcome_debug out = (case out of Inl (e, d) \<Rightarrow> d | Inr res \<Rightarrow> Some (debug res))"

text \<open>
  The open pull requests the fallback scan obtains for a repository: what \<^verbatim>\<open>fetchPaged\<close>
  returns for it, and nothing when its full name has no owner and name or the fetch
  fails.
\<close>

definition repo_open_pulls ::
  "platform \<Rightarrow> (request \<Rightarrow> string + GiteaPullRequest json_list response) \<Rightarrow> string \<Rightarrow> string \<Rightarrow>
   GiteaRepo \<Rightarrow> GiteaPullRequest list" where
  "repo_open_pulls plat fetch apiBase accessToken repo =
     (case owner_and_name (full_name repo) of
        None \<Rightarrow> []
      | Some (owner, name) \<Rightarrow>
          (case fetchPaged plat fetch (pullsUrl apiBase owner name) accessToken of
             Some (sent, Inr pulls) \<Rightarrow> pulls
           | _ \<Rightarrow> []))"

text \<open>The fetch of a repository's pull requests settles (or is not made at all).\<close>

definition repo_scan_settles ::
  "platform \<Rightarrow> (request \<Rightarrow> string + GiteaPullRequest json_list response) \<Rightarrow> string \<Rightarrow> string \<Rightarrow>
   GiteaRepo \<Rightarrow> bool" where
  "repo_scan_settles plat fetch apiBase accessToken repo =
     (case owner_and_name (full_name repo) of
        None \<Rightarrow> True
      | Some (owner, name) \<Rightarrow>
          fetchPaged plat fetch (pullsUrl apiBase owner name) accessToken \<noteq> None)"

text \<open>
  Of a list of repositories, the earliest copy for each identifier, in the order of
  the first occurrences.
\<close>

fun earliest_copies :: "GiteaRepo list \<Rightarrow> GiteaRepo list" where
  "earliest_copies [] = []"
| "earliest_copies (r # rs) = r # filter (\<lambda>x. repo_id x \<noteq> repo_id r) (earliest_copies rs)"

text \<open>The accumulator that holds the earliest copies of a sequence of pages.\<close>

definition acc_of :: "GiteaRepo list list \<Rightarrow> repo_acc" where
  "acc_of pages =
     \<lparr>repos = earliest_copies (concat pages), seenIds = repo_id ` set (concat pages)\<rparr>"

text \<open>The number of distinct identifiers in a sequence of pages.\<close>

definition distinct_ids :: "GiteaRepo list list \<Rightarrow> nat" where
  "distinct_ids pages = length (remdups (map repo_id (concat pages)))"

text \<open>
  What the server answers to the requests of the search: the page an ok response
  carries (empty when \<^verbatim>\<open>data\<close> is no array) with its \<^verbatim>\<open>total_count\<close>.
\<close>

fun search_answer :: "string + search_json response \<Rightarrow> (GiteaRepo list \<times> int option) option" where
  "search_answer (Inl m) = None"
| "search_answer (Inr response) =
     (if ok response
      then (case body_json response of
              Inr (SearchObject json_data totalCount) \<Rightarrow>
                Some (case json_data of Some d \<Rightarrow> d | None \<Rightarrow> [], totalCount)
            | _ \<Rightarrow> None)
      else None)"

text \<open>
  The search asks for one more page after the pages \<open>before\<close> and the page \<open>d\<close> with the
  total count \<open>t\<close>: the page is not empty, the distinct identifiers so far are fewer than
  the total count, if there is one, and the page has brought a new identifier.
\<close>

definition search_continues :: "GiteaRepo list list \<Rightarrow> GiteaRepo list \<Rightarrow> int option \<Rightarrow> bool" where
  "search_continues before d t \<longleftrightarrow>
     d \<noteq> []
     \<and> (case t of Some n \<Rightarrow> int (distinct_ids (before @ [d])) < n | None \<Rightarrow> True)
     \<and> distinct_ids (before @ [d]) \<noteq> distinct_ids before"

text \<open>
  The search source returns the pages \<open>answers\<close> (each with its total count), where
  \<open>answer page\<close> is what the server answers to the request for a page: the first of
  \<open>answers\<close> is the answer to the request for \<open>page\<close>; if the search goes on after it, the
  others are returned from the next page on, and otherwise there are no others.
\<close>

fun search_yields_from ::
  "(nat \<Rightarrow> string + search_json response) \<Rightarrow> nat \<Rightarrow> GiteaRepo list list \<Rightarrow>
   (GiteaRepo list \<times> int option) list \<Rightarrow> bool" where
  "search_yields_from answer page before [] = False"
| "search_yields_from answer page before (a # rest) =
     (search_answer (answer page) = Some a
      \<and> (if search_continues before (fst a) (snd a)
          then search_yields_from answer (page + 1) (before @ [fst a]) rest
          else rest = []))"

definition search_yields ::
  "platform \<Rightarrow> (request \<Rightarrow> string + search_json response) \<Rightarrow> string \<Rightarrow> string \<Rightarrow>
   (GiteaRepo list \<times> int option) list \<Rightarrow> bool" where
  "search_yields plat fetch baseUrl accessToken answers \<longleftrightarrow>
     (case URL_new plat (normalizeBaseUrl baseUrl @ ''/api/v1/repos/search'') of
        Inl m \<Rightarrow> False
      | Inr u \<Rightarrow>
          search_yields_from (\<lambda>page. fetch (search_request plat u accessToken page)) 1 []
            answers)"

text \<open>
  An answer that ends a source of repository pages without a page (a response that is
  not ok, a JSON value that is no array, the empty array), and an answer that makes the
  loop throw (a rejected \<^verbatim>\<open>fetch\<close>, an ok response whose body is not JSON).
\<close>

definition ends_source :: "string + GiteaRepo json_list response \<Rightarrow> bool" where
  "ends_source x \<longleftrightarrow>
     (case x of
        Inl m \<Rightarrow> False
      | Inr response \<Rightarrow>
          \<not> ok response \<or> body_json response = Inr JNotArray
          \<or> body_json response = Inr (JArray []))"

definition throws_source :: "string + GiteaRepo json_list response \<Rightarrow> bool" where
  "throws_source x \<longleftrightarrow>
     (case x of Inl m \<Rightarrow> True | Inr response \<Rightarrow> ok response \<and> isl (body_json response))"

text \<open>
  A source of repository pages (the user's repositories, or those of one organization)
  returns the pages \<open>ps\<close> after the pages \<open>before\<close> of the earlier sources. With no page
  left, the answer to the request for \<open>page\<close> ends the source, or makes it throw
  (\<open>thrown\<close>). Otherwise the first of \<open>ps\<close> is the answer to the request for \<open>page\<close> and is
  not empty; if it brings no new identifier the source is left there, and if it brings
  one the other pages are returned from the next page on.
\<close>

fun source_yields_from ::
  "(nat \<Rightarrow> string + GiteaRepo json_list response) \<Rightarrow> nat \<Rightarrow> GiteaRepo list list \<Rightarrow>
   GiteaRepo list list \<Rightarrow> bool \<Rightarrow> bool" where
  "source_yields_from answer page before [] thrown =
     (if thrown then throws_source (answer page) else ends_source (answer page))"
| "source_yields_from answer page before (d # rest) thrown =
     (page_of (answer page) = Some d \<and> d \<noteq> []
      \<and> (if distinct_ids (before @ [d]) = distinct_ids before then rest = [] \<and> \<not> thrown
          else source_yields_from answer (page + 1) (before @ [d]) rest thrown))"

text \<open>The same for the user's repositories, which must not throw, and for an organization.\<close>

definition user_yields ::
  "platform \<Rightarrow> (request \<Rightarrow> string + GiteaRepo json_list response) \<Rightarrow> string \<Rightarrow> string \<Rightarrow>
   GiteaRepo list list \<Rightarrow> GiteaRepo list list \<Rightarrow> bool" where
  "user_yields plat fetch baseUrl accessToken before ps \<longleftrightarrow>
     (case URL_new plat (normalizeBaseUrl baseUrl @ ''/api/v1/user/repos'') of
        Inl m \<Rightarrow> False
      | Inr u \<Rightarrow>
          source_yields_from (\<lambda>page. fetch (repos_request plat u accessToken page)) 1 before ps
            False)"

definition org_yields ::
  "platform \<Rightarrow> (request \<Rightarrow> string + GiteaRepo json_list response) \<Rightarrow> string \<Rightarrow> string \<Rightarrow>
   string \<Rightarrow> GiteaRepo list list \<Rightarrow> GiteaRepo list list \<Rightarrow> bool \<Rightarrow> bool" where
  "org_yields plat fetch baseUrl accessToken orgName before ps thrown \<longleftrightarrow>
     (case URL_new plat (normalizeBaseUrl baseUrl @ ''/api/v1/orgs/'' @ orgName @ ''/repos'') of
        Inl m \<Rightarrow> ps = [] \<and> thrown
      | Inr u \<Rightarrow>
          source_yields_from (\<lambda>page. fetch (repos_request plat u accessToken page)) 1 before ps
            thrown)"

text \<open>The names of the listed organizations that have one, in the order of the list.\<close>

definition org_names :: "GiteaOrg list \<Rightarrow> string list" where
  "org_names orgs =
     map (\<lambda>org. the (js_or (username org) (org_name org)))
       (filter (\<lambda>org. truthy (js_or (username org) (org_name org))) orgs)"

text \<open>
  The organizations \<open>names\<close> return, one after the other, the pages of \<open>runs\<close>; the
  organizations after one that throws return nothing.
\<close>

fun orgs_yield ::
  "platform \<Rightarrow> (request \<Rightarrow> string + GiteaRepo json_list response) \<Rightarrow> string \<Rightarrow> string \<Rightarrow>
   GiteaRepo list list \<Rightarrow> string list \<Rightarrow> (GiteaRepo list list \<times> bool) list \<Rightarrow> bool" where
  "orgs_yield plat fetch baseUrl accessToken before [] runs = (runs = [])"
| "orgs_yield plat fetch baseUrl accessToken before (name # names) [] = False"
| "orgs_yield plat fetch baseUrl accessToken before (name # names) (run # runs) =
     (org_yields plat fetch baseUrl accessToken name before (fst run) (snd run)
      \<and> (if snd run then runs = []
          else orgs_yield plat fetch baseUrl accessToken (before @ fst run) names runs))"

text \<open>
  The three sources return the pages \<open>answers\<close> (search), \<open>userPages\<close> (the user's
  repositories) and \<open>runs\<close> (the organizations, one run each): without an access token
  only the search is asked; with one, the user's repositories follow the search, the
  list of the organizations is read, and the named organizations follow in its order
  (none when reading the list throws).
\<close>

definition sources_yield ::
  "platform \<Rightarrow> network \<Rightarrow> string \<Rightarrow> string \<Rightarrow> (GiteaRepo list \<times> int option) list \<Rightarrow>
   GiteaRepo list list \<Rightarrow> (GiteaRepo list list \<times> bool) list \<Rightarrow> bool" where
  "sources_yield plat net baseUrl accessToken answers userPages runs \<longleftrightarrow>
     search_yields plat (fetch_search net) baseUrl accessToken answers
     \<and> (if accessToken = [] then userPages = [] \<and> runs = []
         else user_yields plat (fetch_repos net) baseUrl accessToken (map fst answers) userPages
              \<and> (case orgs_loop (fetch_orgs net) baseUrl accessToken 1 [] of
                    None \<Rightarrow> False
                  | Some (Inl e) \<Rightarrow> runs = []
                  | Some (Inr allOrgs) \<Rightarrow>
                      orgs_yield plat (fetch_repos net) baseUrl accessToken
                        (map fst answers @ userPages) (org_names allOrgs) runs))"

text \<open>All the pages of the three sources, in the order in which they are returned.\<close>

definition all_pages ::
  "(GiteaRepo list \<times> int option) list \<Rightarrow> GiteaRepo list list \<Rightarrow>
   (GiteaRepo list list \<times> bool) list \<Rightarrow> GiteaRepo list list" where
  "all_pages answers userPages runs = map fst answers @ userPages @ concat (map fst runs)"

text \<open>
  What one of the three sources of a pull request's repository name gives, taken alone:
  the owner and the name, when the source has a full name with both.
\<close>

definition source_owner_and_name :: "string option \<Rightarrow> (string \<times> string) option" where
  "source_owner_and_name full = (case full of None \<Rightarrow> None | Some s \<Rightarrow> owner_and_name s)"

section \<open>A small server, for the concrete instances\<close>

text \<open>
  A platform whose URL class accepts the texts that start with \<^verbatim>\<open>https://\<close>: the host
  ends at the first \<^verbatim>\<open>/\<close>, the path at the first \<^verbatim>\<open>?\<close>, and the rest is the query, a list
  of \<^verbatim>\<open>key=value\<close> separated by \<^verbatim>\<open>&\<close>. It prints a URL the same way.
\<close>

definition ex_parse_query :: "string \<Rightarrow> (string \<times> string) list" where
  "ex_parse_query q =
     (if q = [] then []
      else map (\<lambda>kv. (takeWhile (\<lambda>c. c \<noteq> CHR ''='') kv,
                      drop 1 (dropWhile (\<lambda>c. c \<noteq> CHR ''='') kv)))
             (split_on CHR ''&'' q))"

fun ex_print_query :: "(string \<times> string) list \<Rightarrow> string" where
  "ex_print_query [] = []"
| "ex_print_query [p] = fst p @ ''='' @ snd p"
| "ex_print_query (p # q # ps) = fst p @ ''='' @ snd p @ ''&'' @ ex_print_query (q # ps)"

definition ex_plat :: platform where
  "ex_plat =
     \<lparr>URL_new =
        (\<lambda>s. if take 8 s = ''https://''
              then (let location = takeWhile (\<lambda>c. c \<noteq> CHR ''?'') (drop 8 s);
                        query = drop 1 (dropWhile (\<lambda>c. c \<noteq> CHR ''?'') (drop 8 s))
                    in Inr \<lparr>protocol = ''https:'',
                            host = takeWhile (\<lambda>c. c \<noteq> CHR ''/'') location,
                            pathname = dropWhile (\<lambda>c. c \<noteq> CHR ''/'') location,
                            searchParams = ex_parse_query query\<rparr>)
              else Inl ''Invalid URL''),
      URL_toString =
        (\<lambda>u. protocol u @ ''//'' @ host u @ pathname u @
              (if searchParams u = [] then [] else ''?'' @ ex_print_query (searchParams u)))\<rparr>"

definition ok_response :: "'j \<Rightarrow> 'j response" where
  "ok_response j =
     \<lparr>ok = True, status = 200, statusText = ''OK'', body_text = ''(json)'', body_json = Inr j\<rparr>"

definition failed_response :: "nat \<Rightarrow> string \<Rightarrow> string \<Rightarrow> 'j response" where
  "failed_response st line body =
     \<lparr>ok = False, status = st, statusText = line, body_text = body,
      body_json = Inl ''Unexpected token''\<rparr>"

text \<open>
  A collection of numbers in two pages, and one whose second page fails with an empty
  body.
\<close>

definition ex_paged_fetch :: "request \<Rightarrow> string + nat json_list response" where
  "ex_paged_fetch req =
     (if req_url req = ''https://g/n?limit=100&page=1&token=t''
      then Inr (ok_response (JArray (replicate 100 7)))
      else if req_url req = ''https://g/n?limit=100&page=2&token=t''
      then Inr (ok_response (JArray [8, 9]))
      else if req_url req = ''https://g/e?limit=100&page=1&token=t''
      then Inr (ok_response (JArray (replicate 100 7)))
      else if req_url req = ''https://g/e?limit=100&page=2&token=t''
      then Inr (failed_response 500 ''Internal Server Error'' [])
      else Inr (failed_response 404 ''Not Found'' ''no such page''))"

text \<open>
  Pull requests of the user \<^verbatim>\<open>me\<close> and of others, and repositories; \<open>ex_repo\<close> takes the
  description to tell two copies of one repository apart.
\<close>

definition ex_user :: "string \<Rightarrow> GiteaUser" where
  "ex_user l = \<lparr>login = l, avatar_url = None\<rparr>"

definition ex_pull :: "int \<Rightarrow> string \<Rightarrow> string list option \<Rightarrow> GiteaPullRequest" where
  "ex_pull i author reviewers =
     \<lparr>pr_id = i, number = i, title = ''Fix'', html_url = ''https://g/o/a/pulls/1'',
      user = Some (ex_user author), updated_at = ''2026-01-01T00:00:00Z'', state = ''open'',
      draft = None, head_sha = Some ''abc'',
      requested_reviewers = map_option (map ex_user) reviewers,
      repository_full_name = None, base_repo_full_name = None\<rparr>"

definition ex_repo :: "int \<Rightarrow> string \<Rightarrow> string \<Rightarrow> GiteaRepo" where
  "ex_repo i name source =
     \<lparr>repo_id = i, full_name = name, description = Some source,
      repo_html_url = ''https://g/'' @ name, repo_owner = None\<rparr>"

text \<open>
  The server \<^verbatim>\<open>https://g\<close> has no global pull-request endpoints. Its search lists the
  repositories 1 and 2 (and 1 once more), the user's repositories are 2 and 3, and the
  organization \<^verbatim>\<open>x\<close> has repository 1. The pull requests of \<^verbatim>\<open>o/b\<close> cannot be read. The
  server \<^verbatim>\<open>https://h\<close> has the global endpoints.
\<close>

definition ex_fetch_pulls :: "request \<Rightarrow> string + GiteaPullRequest json_list response" where
  "ex_fetch_pulls req =
     (if req_url req = ''https://g/api/v1/pulls/created?state=open&limit=100&page=1&token=t''
      then Inr (failed_response 404 ''Not Found'' [])
      else if req_url req =
                ''https://g/api/v1/pulls/requested_review?state=open&limit=100&page=1&token=t''
      then Inr (failed_response 500 ''Internal Server Error'' ''down'')
      else if req_url req = ''https://g/api/v1/repos/o/a/pulls?state=open&limit=100&page=1&token=t''
      then Inr (ok_response (JArray [ex_pull 1 ''me'' None, ex_pull 2 ''you'' (Some [''me'']),
                                      ex_pull 3 ''you'' (Some [''they''])]))
      else if req_url req = ''https://g/api/v1/repos/o/b/pulls?state=open&limit=100&page=1&token=t''
      then Inr (failed_response 500 ''Internal Server Error'' ''down'')
      else if req_url req = ''https://g/api/v1/repos/o/c/pulls?state=open&limit=100&page=1&token=t''
      then Inr (ok_response (JArray [ex_pull 4 ''me'' (Some [''me''])]))
      else if req_url req = ''https://h/api/v1/pulls/created?state=open&limit=100&page=1&token=t''
      then Inr (ok_response (JArray [ex_pull 1 ''me'' None]))
      else if req_url req =
                ''https://h/api/v1/pulls/requested_review?state=open&limit=100&page=1&token=t''
      then Inr (ok_response (JArray [ex_pull 2 ''you'' (Some [''me''])]))
      else Inr (failed_response 404 ''Not Found'' []))"

definition ex_fetch_search :: "request \<Rightarrow> string + search_json response" where
  "ex_fetch_search req =
     (if req_url req = ''https://g/api/v1/repos/search?limit=100&page=1''
      then Inr (ok_response (SearchObject
                  (Some [ex_repo 1 ''o/a'' ''search'', ex_repo 2 ''o/b'' ''search'',
                         ex_repo 1 ''o/a'' ''search again''])
                  None))
      else if req_url req = ''https://g/api/v1/repos/search?limit=100&page=2''
      then Inr (ok_response (SearchObject (Some []) None))
      else Inr (failed_response 404 ''Not Found'' []))"

definition ex_fetch_repos :: "request \<Rightarrow> string + GiteaRepo json_list response" where
  "ex_fetch_repos req =
     (if req_url req = ''https://g/api/v1/user/repos?limit=100&page=1''
      then Inr (ok_response (JArray [ex_repo 2 ''o/b'' ''user'', ex_repo 3 ''o/c'' ''user'']))
      else if req_url req = ''https://g/api/v1/user/repos?limit=100&page=2''
      then Inr (ok_response (JArray []))
      else if req_url req = ''https://g/api/v1/orgs/x/repos?limit=100&page=1''
      then Inr (ok_response (JArray [ex_repo 1 ''o/a'' ''org'']))
      else Inr (failed_response 404 ''Not Found'' []))"

definition ex_fetch_orgs :: "request \<Rightarrow> string + GiteaOrg json_list response" where
  "ex_fetch_orgs req =
     (if req_url req = ''https://g/api/v1/orgs?limit=100&page=1''
      then Inr (ok_response (JArray [\<lparr>username = Some ''x'', org_name = None\<rparr>]))
      else Inr (failed_response 404 ''Not Found'' []))"

definition ex_fetch_user :: "request \<Rightarrow> string + GiteaAuthenticatedUser option response" where
  "ex_fetch_user req =
     (if req_url req = ''https://g/api/v1/user''
      then Inr (ok_response (Some \<lparr>auth_id = 7, auth_login = ''me''\<rparr>))
      else Inr (failed_response 401 ''Unauthorized'' []))"

definition ex_fetch_status :: "request \<Rightarrow> string + status_json response" where
  "ex_fetch_status req =
     (if req_url req = ''https://g/api/v1/repos/o/a/commits/abc/status''
      then Inr (ok_response (StatusObject (Some ''warning'')))
      else Inr (failed_response 500 ''Internal Server Error'' []))"

definition ex_net :: network where
  "ex_net =
     \<lparr>fetch_pulls = ex_fetch_pulls, fetch_repos = ex_fetch_repos,
      fetch_search = ex_fetch_search, fetch_orgs = ex_fetch_orgs,
      fetch_user = ex_fetch_user, fetch_status = ex_fetch_status\<rparr>"

text \<open>What \<^verbatim>\<open>fetchAllRepos\<close> has accumulated on the server \<^verbatim>\<open>https://g\<close>.\<close>

definition ex_acc :: repo_acc where
  "ex_acc =
     \<lparr>repos = [ex_repo 1 ''o/a'' ''search'', ex_repo 2 ''o/b'' ''search'',
               ex_repo 3 ''o/c'' ''user''],
      seenIds = {3, 2, 1}\<rparr>"

text \<open>A pull request without a head commit, and one whose commit has no status.\<close>

definition ex_pull_no_sha :: GiteaPullRequest where
  "ex_pull_no_sha = (ex_pull 5 ''me'' None)\<lparr>head_sha := None\<rparr>"

definition ex_pull_bad_sha :: GiteaPullRequest where
  "ex_pull_bad_sha = (ex_pull 6 ''me'' None)\<lparr>head_sha := Some ''bad''\<rparr>"

text \<open>
  A codec for the concrete instances: keys are not escaped, a payload is written as a
  fixed text, the text \<^verbatim>\<open>cached\<close> reads as the empty inbox and \<^verbatim>\<open>5000\<close> as the number 5000.
\<close>

definition ex_codec :: codec where
  "ex_codec =
     \<lparr>encodeURIComponent = (\<lambda>s. s),
      JSON_stringify = (\<lambda>p. ''fresh''),
      JSON_parse = (\<lambda>s. if s = ''cached''
                          then Some \<lparr>payload_created = [], payload_reviewRequested = [],
                                     payload_statusById = None\<rparr>
                          else None),
      Number = (\<lambda>s. if s = ''5000'' then Some 5000 else None)\<rparr>"

text \<open>A state of the command whose cache for \<^verbatim>\<open>https://h\<close> was written at the time 5000.\<close>

definition ex_ui :: inbox_state where
  "ex_ui =
     \<lparr>createdPulls = [], reviewRequestedPulls = [], statusById = Map.empty, isLoading = True,
      errorMessage = None, debugInfo = None, lastError = None\<rparr>"

definition ex_world :: world where
  "ex_world =
     \<lparr>ui = ex_ui,
      storage = [''gitea-pr-inbox-cache:https://h'' \<mapsto> ''cached'',
                 ''gitea-pr-inbox-cache-time:https://h'' \<mapsto> ''5000''],
      effects = []\<rparr>"

section \<open>Properties of the paginated fetcher\<close>

declare String_nat.simps [simp del]

lemma String_nat_Suc_0: "String_nat (Suc 0) = ''1''"
  by code_simp

lemma String_nat_2: "String_nat (Suc (Suc 0)) = ''2''"
  by code_simp

lemma String_nat_100: "String_nat 100 = ''100''"
  by (simp add: String_nat.simps digit_char_def)

lemma String_nat_500: "String_nat 500 = ''500''"
  by (simp add: String_nat.simps digit_char_def)

lemma page_of_SomeD:
  "page_of x = Some d \<Longrightarrow> \<exists>r. x = Inr r \<and> ok r \<and> body_json r = Inr (JArray d)"
  by (cases x) (auto split: if_splits sum.splits json_list.splits)

text \<open>One full page: the loop appends it and asks for the next page.\<close>

lemma fetchPaged_loop_full_page:
  assumes "URL_new plat url = Inr u"
    and "page_of (fetch (paged_request plat u tok page)) = Some d"
    and "PER_PAGE \<le> length d"
  shows "fetchPaged_loop plat fetch url tok page items sent =
         fetchPaged_loop plat fetch url tok (page + 1) (items @ d)
           (sent @ [paged_request plat u tok page])"
proof -
  from assms(2) obtain r where r: "fetch (paged_request plat u tok page) = Inr r" "ok r"
      "body_json r = Inr (JArray d)"
    by (blast dest: page_of_SomeD)
  from assms(3) have "d \<noteq> []" "\<not> length d < PER_PAGE"
    by (auto simp: PER_PAGE_def)
  then show ?thesis
    by (subst fetchPaged_loop.simps) (simp add: assms(1) r Let_def)
qed

text \<open>The last page, and a response that is not ok: the loop ends.\<close>

lemma fetchPaged_loop_last_page:
  assumes "URL_new plat url = Inr u"
    and "page_of (fetch (paged_request plat u tok page)) = Some d"
    and "length d < PER_PAGE"
  shows "fetchPaged_loop plat fetch url tok page items sent =
         Some (sent @ [paged_request plat u tok page], Inr (items @ d))"
proof -
  from assms(2) obtain r where r: "fetch (paged_request plat u tok page) = Inr r" "ok r"
      "body_json r = Inr (JArray d)"
    by (blast dest: page_of_SomeD)
  show ?thesis
    using assms(3) by (subst fetchPaged_loop.simps) (simp add: assms(1) r Let_def)
qed

lemma fetchPaged_loop_not_ok:
  assumes "URL_new plat url = Inr u"
    and "fetch (paged_request plat u tok page) = Inr response"
    and "\<not> ok response"
  shows "fetchPaged_loop plat fetch url tok page items sent =
         Some (sent @ [paged_request plat u tok page],
               Inl (GiteaApiError (status response) (api_error_message response)
                      (Some (req_url (paged_request plat u tok page)))))"
  using assms(3) by (subst fetchPaged_loop.simps) (simp add: assms(1,2) Let_def)

lemma fetchPaged_single_page:
  assumes "URL_new plat url = Inr u"
    and "page_of (fetch (paged_request plat u tok (Suc 0))) = Some d"
    and "length d < PER_PAGE"
  shows "fetchPaged plat fetch url tok = Some ([paged_request plat u tok (Suc 0)], Inr d)"
  using fetchPaged_loop_last_page[of plat url u fetch tok "Suc 0" d "[]" "[]"] assms
  by (simp add: fetchPaged_def)

lemma fetchPaged_first_not_ok:
  assumes "URL_new plat url = Inr u"
    and "fetch (paged_request plat u tok (Suc 0)) = Inr response"
    and "\<not> ok response"
  shows "fetchPaged plat fetch url tok =
         Some ([paged_request plat u tok (Suc 0)],
               Inl (GiteaApiError (status response) (api_error_message response)
                      (Some (req_url (paged_request plat u tok (Suc 0))))))"
  using fetchPaged_loop_not_ok[of plat url u fetch tok "Suc 0" response "[]" "[]"] assms
  by (simp add: fetchPaged_def)

text \<open>A run of full pages, by induction on the run.\<close>

lemma fetchPaged_loop_full_pages:
  assumes "URL_new plat url = Inr u"
    and "\<forall>i<length ds. page_of (fetch (paged_request plat u tok (page + i))) = Some (ds ! i)
                       \<and> PER_PAGE \<le> length (ds ! i)"
  shows "fetchPaged_loop plat fetch url tok page items sent =
         fetchPaged_loop plat fetch url tok (page + length ds) (items @ concat ds)
           (sent @ map (paged_request plat u tok) [page..<page + length ds])"
  using assms(2)
proof (induction ds arbitrary: page items sent)
  case Nil
  then show ?case by simp
next
  case (Cons d ds)
  from Cons.prems have hd: "page_of (fetch (paged_request plat u tok page)) = Some d"
      "PER_PAGE \<le> length d"
    by force+
  have tl: "\<forall>i<length ds. page_of (fetch (paged_request plat u tok (page + 1 + i))) = Some (ds ! i)
                       \<and> PER_PAGE \<le> length (ds ! i)"
  proof (intro allI impI)
    fix i assume "i < length ds"
    then have "Suc i < length (d # ds)" by simp
    with Cons.prems
    have "page_of (fetch (paged_request plat u tok (page + Suc i))) = Some ((d # ds) ! Suc i)
          \<and> PER_PAGE \<le> length ((d # ds) ! Suc i)"
      by blast
    then show "page_of (fetch (paged_request plat u tok (page + 1 + i))) = Some (ds ! i)
               \<and> PER_PAGE \<le> length (ds ! i)"
      by simp
  qed
  have "fetchPaged_loop plat fetch url tok page items sent =
        fetchPaged_loop plat fetch url tok (page + 1) (items @ d)
          (sent @ [paged_request plat u tok page])"
    using fetchPaged_loop_full_page[of plat url u fetch tok page d items sent] assms(1) hd
    by simp
  also have "\<dots> = fetchPaged_loop plat fetch url tok (page + 1 + length ds)
                     ((items @ d) @ concat ds)
                     ((sent @ [paged_request plat u tok page]) @
                      map (paged_request plat u tok) [page + 1..<page + 1 + length ds])"
    using Cons.IH[of "page + 1" "items @ d" "sent @ [paged_request plat u tok page]"] tl
    by simp
  finally show ?case
    by (simp add: upt_conv_Cons del: upt_Suc)
qed

text \<open>
  C4. Let the server answer the pages 1, 2, ..., n of a collection with the arrays
  \<open>pages\<close>, every one but the last with at least 100 items and the last with fewer than
  100 (none at all, possibly). Then \<^verbatim>\<open>fetchPaged\<close> returns the concatenation of the
  pages in request order, and the requests it has sent are those for the pages 1 to n,
  in this order: as many requests as there are pages up to and including the first
  short one.
\<close>

theorem fetchPaged_concat_pages:
  assumes "URL_new plat url = Inr u"
    and "pages \<noteq> []"
    and "\<forall>i<length pages. page_of (fetch (paged_request plat u tok (i + 1))) = Some (pages ! i)"
    and "\<forall>i<length pages - 1. PER_PAGE \<le> length (pages ! i)"
    and "length (last pages) < PER_PAGE"
  shows "fetchPaged plat fetch url tok =
         Some (map (paged_request plat u tok) [1..<length pages + 1], Inr (concat pages))"
proof -
  define ds where "ds = butlast pages"
  define d where "d = last pages"
  have pages: "pages = ds @ [d]"
    using assms(2) by (simp add: ds_def d_def)
  have full: "\<forall>i<length ds. page_of (fetch (paged_request plat u tok (1 + i))) = Some (ds ! i)
                       \<and> PER_PAGE \<le> length (ds ! i)"
    using assms(3,4) by (auto simp: pages nth_append)
  have "page_of (fetch (paged_request plat u tok (length ds + 1))) = Some (pages ! length ds)"
    using assms(3) by (simp add: pages)
  then have "page_of (fetch (paged_request plat u tok (1 + length ds))) = Some d"
    by (simp add: pages)
  then have last: "fetchPaged_loop plat fetch url tok (1 + length ds) (concat ds)
                     (map (paged_request plat u tok) [1..<1 + length ds]) =
                   Some (map (paged_request plat u tok) [1..<1 + length ds] @
                         [paged_request plat u tok (1 + length ds)],
                         Inr (concat ds @ d))"
    using fetchPaged_loop_last_page[of plat url u fetch tok "1 + length ds" d] assms(1,5)
    by (simp add: d_def)
  have "fetchPaged plat fetch url tok =
        fetchPaged_loop plat fetch url tok (1 + length ds) (concat ds)
          (map (paged_request plat u tok) [1..<1 + length ds])"
    unfolding fetchPaged_def
    using fetchPaged_loop_full_pages[of plat url u ds fetch tok 1 "[]" "[]"] assms(1) full
    by simp
  also note last
  finally show ?thesis
    by (simp add: pages)
qed

theorem fetchPaged_concat_pages_witness:
  "fetchPaged ex_plat ex_paged_fetch ''https://g/n'' ''t'' =
   Some ([\<lparr>req_url = ''https://g/n?limit=100&page=1&token=t'', authorization = Some ''token t''\<rparr>,
          \<lparr>req_url = ''https://g/n?limit=100&page=2&token=t'', authorization = Some ''token t''\<rparr>],
         Inr (replicate 100 7 @ [8, 9]))"
proof -
  let ?u = "\<lparr>protocol = ''https:'', host = ''g'', pathname = ''/n'', searchParams = []\<rparr>"
  let ?pages = "[replicate 100 7, [8, 9 :: nat]]"
  have url: "URL_new ex_plat ''https://g/n'' = Inr ?u"
    by (simp add: ex_plat_def ex_parse_query_def)
  have req1: "paged_request ex_plat ?u ''t'' (Suc 0) =
        \<lparr>req_url = ''https://g/n?limit=100&page=1&token=t'', authorization = Some ''token t''\<rparr>"
    by (simp add: paged_request_def paged_apiUrl_def searchParams_set_def auth_header_def
        PER_PAGE_def String_nat_Suc_0 String_nat_100 ex_plat_def Let_def)
  have req2: "paged_request ex_plat ?u ''t'' (Suc (Suc 0)) =
        \<lparr>req_url = ''https://g/n?limit=100&page=2&token=t'', authorization = Some ''token t''\<rparr>"
    by (simp add: paged_request_def paged_apiUrl_def searchParams_set_def auth_header_def
        PER_PAGE_def String_nat_2 String_nat_100 ex_plat_def Let_def)
  have nonempty: "?pages \<noteq> []"
    by simp
  have answers: "\<forall>i<length ?pages.
      page_of (ex_paged_fetch (paged_request ex_plat ?u ''t'' (i + 1))) = Some (?pages ! i)"
    by (simp add: less_Suc_eq req1 req2 ex_paged_fetch_def ok_response_def)
  have full: "\<forall>i<length ?pages - 1. PER_PAGE \<le> length (?pages ! i)"
    by (simp add: PER_PAGE_def)
  have short: "length (last ?pages) < PER_PAGE"
    by (simp add: PER_PAGE_def)
  show ?thesis
    using fetchPaged_concat_pages[OF url nonempty answers full short] req1 req2
    by (simp add: upt_conv_Cons del: upt_Suc)
qed

text \<open>
  C5. Let the pages before page n be full and let the answer to the request for page n
  be a response that is not ok. Then \<^verbatim>\<open>fetchPaged\<close> throws: its outcome is an error and
  holds none of the items fetched so far. The error is a \<^verbatim>\<open>GiteaApiError\<close> with the status
  of that response, a message that ends with the body text (with the status line when
  the body is empty), and the URL of the request for page n.
\<close>

theorem fetchPaged_api_error:
  assumes "URL_new plat url = Inr u"
    and "\<forall>i<length pages. page_of (fetch (paged_request plat u tok (i + 1))) = Some (pages ! i)
                          \<and> PER_PAGE \<le> length (pages ! i)"
    and "fetch (paged_request plat u tok (length pages + 1)) = Inr response"
    and "\<not> ok response"
  shows "fetchPaged plat fetch url tok =
         Some (map (paged_request plat u tok) [1..<length pages + 2],
               Inl (GiteaApiError (status response)
                      (''Gitea API error ('' @ String_nat (status response) @ ''): '' @
                       (if body_text response = [] then statusText response
                        else body_text response))
                      (Some (req_url (paged_request plat u tok (length pages + 1))))))"
proof -
  have full: "\<forall>i<length pages. page_of (fetch (paged_request plat u tok (1 + i))) = Some (pages ! i)
                       \<and> PER_PAGE \<le> length (pages ! i)"
    using assms(2) by simp
  have r: "fetch (paged_request plat u tok (1 + length pages)) = Inr response"
    using assms(3) by simp
  have last: "fetchPaged_loop plat fetch url tok (1 + length pages) (concat pages)
                (map (paged_request plat u tok) [1..<1 + length pages]) =
              Some (map (paged_request plat u tok) [1..<1 + length pages] @
                    [paged_request plat u tok (1 + length pages)],
                    Inl (GiteaApiError (status response) (api_error_message response)
                           (Some (req_url (paged_request plat u tok (1 + length pages))))))"
    using fetchPaged_loop_not_ok[of plat url u fetch tok "1 + length pages" response] assms(1,4) r
    by simp
  have "fetchPaged plat fetch url tok =
        fetchPaged_loop plat fetch url tok (1 + length pages) (concat pages)
          (map (paged_request plat u tok) [1..<1 + length pages])"
    unfolding fetchPaged_def
    using fetchPaged_loop_full_pages[of plat url u pages fetch tok 1 "[]" "[]"] assms(1) full
    by simp
  also note last
  finally show ?thesis
    by (simp add: api_error_message_def)
qed

theorem fetchPaged_api_error_witness:
  "fetchPaged ex_plat ex_paged_fetch ''https://g/e'' ''t'' =
   Some ([\<lparr>req_url = ''https://g/e?limit=100&page=1&token=t'', authorization = Some ''token t''\<rparr>,
          \<lparr>req_url = ''https://g/e?limit=100&page=2&token=t'', authorization = Some ''token t''\<rparr>],
         Inl (GiteaApiError 500 ''Gitea API error (500): Internal Server Error''
                (Some ''https://g/e?limit=100&page=2&token=t'')))"
proof -
  let ?u = "\<lparr>protocol = ''https:'', host = ''g'', pathname = ''/e'', searchParams = []\<rparr>"
  let ?pages = "[replicate 100 (7 :: nat)]"
  have url: "URL_new ex_plat ''https://g/e'' = Inr ?u"
    by (simp add: ex_plat_def ex_parse_query_def)
  have req1: "paged_request ex_plat ?u ''t'' (Suc 0) =
        \<lparr>req_url = ''https://g/e?limit=100&page=1&token=t'', authorization = Some ''token t''\<rparr>"
    by (simp add: paged_request_def paged_apiUrl_def searchParams_set_def auth_header_def
        PER_PAGE_def String_nat_Suc_0 String_nat_100 ex_plat_def Let_def)
  have req2: "paged_request ex_plat ?u ''t'' (Suc (Suc 0)) =
        \<lparr>req_url = ''https://g/e?limit=100&page=2&token=t'', authorization = Some ''token t''\<rparr>"
    by (simp add: paged_request_def paged_apiUrl_def searchParams_set_def auth_header_def
        PER_PAGE_def String_nat_2 String_nat_100 ex_plat_def Let_def)
  have full: "\<forall>i<length ?pages.
      page_of (ex_paged_fetch (paged_request ex_plat ?u ''t'' (i + 1))) = Some (?pages ! i)
      \<and> PER_PAGE \<le> length (?pages ! i)"
    by (simp add: req1 ex_paged_fetch_def ok_response_def PER_PAGE_def)
  have failing: "ex_paged_fetch (paged_request ex_plat ?u ''t'' (length ?pages + 1)) =
      Inr (failed_response 500 ''Internal Server Error'' [])"
    by (simp add: req2 ex_paged_fetch_def)
  have not_ok: "\<not> ok (failed_response 500 ''Internal Server Error'' [] :: nat json_list response)"
    by (simp add: failed_response_def)
  show ?thesis
    using fetchPaged_api_error[OF url full failing not_ok] req1 req2
    by (simp add: upt_conv_Cons failed_response_def String_nat_500 del: upt_Suc)
qed

section \<open>What the small server answers\<close>

lemma String_nat_404: "String_nat 404 = ''404''"
  by (simp add: String_nat.simps digit_char_def)

lemma normalizeBaseUrl_g: "normalizeBaseUrl ''https://g'' = ''https://g''"
  by (simp add: normalizeBaseUrl_def)

lemma normalizeBaseUrl_h: "normalizeBaseUrl ''https://h'' = ''https://h''"
  by (simp add: normalizeBaseUrl_def)

lemma ex_net_simps:
  "fetch_pulls ex_net = ex_fetch_pulls" "fetch_repos ex_net = ex_fetch_repos"
  "fetch_search ex_net = ex_fetch_search" "fetch_orgs ex_net = ex_fetch_orgs"
  "fetch_user ex_net = ex_fetch_user" "fetch_status ex_net = ex_fetch_status"
  by (simp_all add: ex_net_def)

lemmas ex_url_simps =
  ex_plat_def ex_parse_query_def paged_request_def paged_apiUrl_def repos_apiUrl_def
  searchParams_set_def auth_header_def PER_PAGE_def String_nat_Suc_0 String_nat_2
  String_nat_100 Let_def

text \<open>A collection that fits on one page, and one whose first request fails.\<close>

lemma fetchPaged_one_page_at:
  assumes "URL_new plat url = Inr u"
    and "paged_request plat u tok (Suc 0) = req"
    and "page_of (fetch req) = Some d"
    and "length d < 100"
  shows "fetchPaged plat fetch url tok = Some ([req], Inr d)"
  using fetchPaged_single_page[where fetch = fetch and d = d, OF assms(1)] assms(2,3,4)
  by (simp add: PER_PAGE_def)

lemma fetchPaged_first_fails_at:
  assumes "URL_new plat url = Inr u"
    and "paged_request plat u tok (Suc 0) = req"
    and "fetch req = Inr (failed_response st line body)"
  shows "fetchPaged plat fetch url tok =
         Some ([req],
               Inl (GiteaApiError st
                      (''Gitea API error ('' @ String_nat st @ ''): '' @
                       (if body \<noteq> [] then body else line))
                      (Some (req_url req))))"
proof -
  have not_ok: "\<not> ok (failed_response st line body :: 'a json_list response)"
    by (simp add: failed_response_def)
  show ?thesis
    using fetchPaged_first_not_ok[where fetch = fetch, OF assms(1) _ not_ok] assms(2,3)
    by (simp add: api_error_message_def failed_response_def)
qed

lemma ex_created_h:
  "fetchPaged ex_plat ex_fetch_pulls (global_createdUrl ''https://h'') ''t'' =
   Some ([\<lparr>req_url = ''https://h/api/v1/pulls/created?state=open&limit=100&page=1&token=t'',
           authorization = Some ''token t''\<rparr>],
         Inr [ex_pull 1 ''me'' None])"
  by (rule fetchPaged_one_page_at[where u = "\<lparr>protocol = ''https:'', host = ''h'',
          pathname = ''/api/v1/pulls/created'', searchParams = [(''state'', ''open'')]\<rparr>"])
     (simp_all add: global_createdUrl_def normalizeBaseUrl_h ex_url_simps search_request_def repos_request_def ex_fetch_pulls_def
        ok_response_def)

lemma ex_review_h:
  "fetchPaged ex_plat ex_fetch_pulls (global_reviewRequestedUrl ''https://h'') ''t'' =
   Some ([\<lparr>req_url =
             ''https://h/api/v1/pulls/requested_review?state=open&limit=100&page=1&token=t'',
           authorization = Some ''token t''\<rparr>],
         Inr [ex_pull 2 ''you'' (Some [''me''])])"
  by (rule fetchPaged_one_page_at[where u = "\<lparr>protocol = ''https:'', host = ''h'',
          pathname = ''/api/v1/pulls/requested_review'',
          searchParams = [(''state'', ''open'')]\<rparr>"])
     (simp_all add: global_reviewRequestedUrl_def normalizeBaseUrl_h ex_url_simps
        ex_fetch_pulls_def ok_response_def)

lemma ex_created_g:
  "fetchPaged ex_plat ex_fetch_pulls (global_createdUrl ''https://g'') ''t'' =
   Some ([\<lparr>req_url = ''https://g/api/v1/pulls/created?state=open&limit=100&page=1&token=t'',
           authorization = Some ''token t''\<rparr>],
         Inl (GiteaApiError 404 ''Gitea API error (404): Not Found''
                (Some ''https://g/api/v1/pulls/created?state=open&limit=100&page=1&token=t'')))"
  using fetchPaged_first_fails_at[where plat = ex_plat and fetch = ex_fetch_pulls
      and url = "global_createdUrl ''https://g''" and tok = "''t''"
      and u = "\<lparr>protocol = ''https:'', host = ''g'', pathname = ''/api/v1/pulls/created'',
                searchParams = [(''state'', ''open'')]\<rparr>"
      and req = "\<lparr>req_url = ''https://g/api/v1/pulls/created?state=open&limit=100&page=1&token=t'',
                  authorization = Some ''token t''\<rparr>"
      and st = 404 and line = "''Not Found''" and body = "[]"]
  by (simp add: global_createdUrl_def normalizeBaseUrl_g ex_url_simps search_request_def repos_request_def ex_fetch_pulls_def
      String_nat_404)

lemma ex_review_g:
  "fetchPaged ex_plat ex_fetch_pulls (global_reviewRequestedUrl ''https://g'') ''t'' =
   Some ([\<lparr>req_url =
             ''https://g/api/v1/pulls/requested_review?state=open&limit=100&page=1&token=t'',
           authorization = Some ''token t''\<rparr>],
         Inl (GiteaApiError 500 ''Gitea API error (500): down''
                (Some ''https://g/api/v1/pulls/requested_review?state=open&limit=100&page=1&token=t'')))"
  using fetchPaged_first_fails_at[where plat = ex_plat and fetch = ex_fetch_pulls
      and url = "global_reviewRequestedUrl ''https://g''" and tok = "''t''"
      and u = "\<lparr>protocol = ''https:'', host = ''g'',
                pathname = ''/api/v1/pulls/requested_review'',
                searchParams = [(''state'', ''open'')]\<rparr>"
      and req = "\<lparr>req_url =
                    ''https://g/api/v1/pulls/requested_review?state=open&limit=100&page=1&token=t'',
                  authorization = Some ''token t''\<rparr>"
      and st = 500 and line = "''Internal Server Error''" and body = "''down''"]
  by (simp add: global_reviewRequestedUrl_def normalizeBaseUrl_g ex_url_simps search_request_def repos_request_def ex_fetch_pulls_def
      String_nat_500)

lemma ex_pulls_a:
  "fetchPaged ex_plat ex_fetch_pulls (pullsUrl ''https://g'' ''o'' ''a'') ''t'' =
   Some ([\<lparr>req_url = ''https://g/api/v1/repos/o/a/pulls?state=open&limit=100&page=1&token=t'',
           authorization = Some ''token t''\<rparr>],
         Inr [ex_pull 1 ''me'' None, ex_pull 2 ''you'' (Some [''me'']),
              ex_pull 3 ''you'' (Some [''they''])])"
  by (rule fetchPaged_one_page_at[where u = "\<lparr>protocol = ''https:'', host = ''g'',
          pathname = ''/api/v1/repos/o/a/pulls'', searchParams = [(''state'', ''open'')]\<rparr>"])
     (simp_all add: pullsUrl_def ex_url_simps search_request_def repos_request_def ex_fetch_pulls_def ok_response_def)

lemma ex_pulls_b:
  "fetchPaged ex_plat ex_fetch_pulls (pullsUrl ''https://g'' ''o'' ''b'') ''t'' =
   Some ([\<lparr>req_url = ''https://g/api/v1/repos/o/b/pulls?state=open&limit=100&page=1&token=t'',
           authorization = Some ''token t''\<rparr>],
         Inl (GiteaApiError 500 ''Gitea API error (500): down''
                (Some ''https://g/api/v1/repos/o/b/pulls?state=open&limit=100&page=1&token=t'')))"
  using fetchPaged_first_fails_at[where plat = ex_plat and fetch = ex_fetch_pulls
      and url = "pullsUrl ''https://g'' ''o'' ''b''" and tok = "''t''"
      and u = "\<lparr>protocol = ''https:'', host = ''g'', pathname = ''/api/v1/repos/o/b/pulls'',
                searchParams = [(''state'', ''open'')]\<rparr>"
      and req = "\<lparr>req_url =
                    ''https://g/api/v1/repos/o/b/pulls?state=open&limit=100&page=1&token=t'',
                  authorization = Some ''token t''\<rparr>"
      and st = 500 and line = "''Internal Server Error''" and body = "''down''"]
  by (simp add: pullsUrl_def ex_url_simps search_request_def repos_request_def ex_fetch_pulls_def String_nat_500)

lemma ex_pulls_c:
  "fetchPaged ex_plat ex_fetch_pulls (pullsUrl ''https://g'' ''o'' ''c'') ''t'' =
   Some ([\<lparr>req_url = ''https://g/api/v1/repos/o/c/pulls?state=open&limit=100&page=1&token=t'',
           authorization = Some ''token t''\<rparr>],
         Inr [ex_pull 4 ''me'' (Some [''me''])])"
  by (rule fetchPaged_one_page_at[where u = "\<lparr>protocol = ''https:'', host = ''g'',
          pathname = ''/api/v1/repos/o/c/pulls'', searchParams = [(''state'', ''open'')]\<rparr>"])
     (simp_all add: pullsUrl_def ex_url_simps search_request_def repos_request_def ex_fetch_pulls_def ok_response_def)

lemma ex_repo_id [simp]: "repo_id (ex_repo i n s) = i"
  by (simp add: ex_repo_def)

lemma ex_search:
  "search_loop ex_plat ex_fetch_search ''https://g'' ''t'' (Suc 0) 0 empty_acc =
   Some (Inr \<lparr>repos = [ex_repo 1 ''o/a'' ''search'', ex_repo 2 ''o/b'' ''search''],
              seenIds = {2, 1}\<rparr>)"
  apply (subst search_loop.simps)
  apply (simp add: normalizeBaseUrl_g ex_url_simps search_request_def repos_request_def ex_fetch_search_def ok_response_def
      add_page_def add_repo_def empty_acc_def)
  apply (subst search_loop.simps)
  apply (simp add: normalizeBaseUrl_g ex_url_simps search_request_def repos_request_def ex_fetch_search_def ok_response_def
      add_page_def add_repo_def empty_acc_def)
  done

lemma ex_user_repos:
  "user_repos_loop ex_plat ex_fetch_repos ''https://g'' ''t'' (Suc 0)
     \<lparr>repos = [ex_repo 1 ''o/a'' ''search'', ex_repo 2 ''o/b'' ''search''],
      seenIds = {2, 1}\<rparr> =
   Some (Inr \<lparr>repos = [ex_repo 1 ''o/a'' ''search'', ex_repo 2 ''o/b'' ''search'',
                       ex_repo 3 ''o/c'' ''user''],
              seenIds = {3, 2, 1}\<rparr>)"
  apply (subst user_repos_loop.simps)
  apply (simp add: normalizeBaseUrl_g ex_url_simps search_request_def repos_request_def ex_fetch_repos_def ok_response_def
      add_page_def add_repo_def)
  apply (subst user_repos_loop.simps)
  apply (simp add: normalizeBaseUrl_g ex_url_simps search_request_def repos_request_def ex_fetch_repos_def ok_response_def
      add_page_def add_repo_def)
  done

lemma ex_orgs:
  "orgs_loop ex_fetch_orgs ''https://g'' ''t'' (Suc 0) [] =
   Some (Inr [\<lparr>username = Some ''x'', org_name = None\<rparr>])"
  apply (subst orgs_loop.simps)
  apply (simp add: orgs_request_def normalizeBaseUrl_g PER_PAGE_def String_nat_100
      String_nat_Suc_0 ex_fetch_orgs_def ok_response_def)
  done

lemma ex_org_repos:
  "org_repos_loop ex_plat ex_fetch_repos ''https://g'' ''t'' ''x'' (Suc 0)
     \<lparr>repos = [ex_repo 1 ''o/a'' ''search'', ex_repo 2 ''o/b'' ''search'',
               ex_repo 3 ''o/c'' ''user''],
      seenIds = {3, 2, 1}\<rparr> =
   Some (None, ex_acc)"
  apply (subst org_repos_loop.simps)
  apply (simp add: normalizeBaseUrl_g ex_url_simps search_request_def repos_request_def ex_fetch_repos_def ok_response_def
      add_page_def add_repo_def ex_acc_def)
  done

lemma ex_fetchAllRepos:
  "fetchAllRepos ex_plat ex_net ''https://g'' ''t'' = Some (Inr ex_acc)"
  by (simp add: fetchAllRepos_def ex_net_simps ex_search ex_user_repos ex_orgs ex_org_repos
      js_or_def truthy_def Let_def)

lemma ex_fetchCurrentUser:
  "fetchCurrentUser ex_fetch_user ''https://g'' ''t'' = Some \<lparr>auth_id = 7, auth_login = ''me''\<rparr>"
  by (simp add: fetchCurrentUser_def normalizeBaseUrl_g ex_fetch_user_def ok_response_def)

lemma ex_owner_and_name:
  "owner_and_name ''o/a'' = Some (''o'', ''a'')"
  "owner_and_name ''o/b'' = Some (''o'', ''b'')"
  "owner_and_name ''o/c'' = Some (''o'', ''c'')"
  by (simp_all add: owner_and_name_def)

section \<open>Properties of the pull-request inbox\<close>

lemma rejected_404_iff:
  "rejected_404 x \<longleftrightarrow> (\<exists>msg url. x = Inl (GiteaApiError 404 msg url))"
  by (cases x rule: rejected_404.cases) auto

lemma push_error_fallbackUsed [simp]:
  "fallbackUsed (push_error stage result dbg) = fallbackUsed dbg"
  by (simp add: push_error_def split: sum.splits)

lemma global_mode_debug:
  "outcome_debug (global_mode dbg c r) = Some d \<Longrightarrow> fallbackUsed d = Some False"
  by (auto simp: global_mode_def outcome_debug_def Let_def split: sum.splits)

lemma fallback_mode_debug:
  assumes "fallback_mode plat net baseUrl tok dbg c r = Some out"
    and "outcome_debug out = Some d"
  shows "fallbackUsed d = Some True"
  using assms
  by (auto simp: fallback_mode_def outcome_debug_def Let_def
      split: option.splits sum.splits prod.splits)

text \<open>
  C1. Let both global fetches settle. If one of them was rejected with a \<^verbatim>\<open>GiteaApiError\<close>
  of status 404, the resolver is in fallback mode: its outcome is that of the fallback
  scan. Otherwise it is not: when both fetches succeeded it returns their two results,
  and when one failed (with an error that is not such a 404) it throws that error, the
  one of the first fetch if both failed. The debug record that comes with an outcome
  has \<^verbatim>\<open>fallbackUsed\<close> set to true if and only if one of the fetches failed with such a 404.
\<close>

theorem fetchPullRequestInbox_modes:
  assumes "fetchPaged plat (fetch_pulls net) (global_createdUrl baseUrl) tok =
           Some (sent1, createdResult)"
    and "fetchPaged plat (fetch_pulls net) (global_reviewRequestedUrl baseUrl) tok =
         Some (sent2, reviewResult)"
  shows "((\<exists>msg url. createdResult = Inl (GiteaApiError 404 msg url)) \<or>
          (\<exists>msg url. reviewResult = Inl (GiteaApiError 404 msg url)) \<longrightarrow>
            fetchPullRequestInbox plat net baseUrl tok =
            fallback_mode plat net baseUrl tok (initial_debug baseUrl) createdResult reviewResult)
       \<and> (\<forall>createdValue reviewValue.
            createdResult = Inr createdValue \<and> reviewResult = Inr reviewValue \<longrightarrow>
            (\<exists>dbg. fetchPullRequestInbox plat net baseUrl tok =
                     Some (Inr \<lparr>created = createdValue, reviewRequested = reviewValue,
                                debug = dbg\<rparr>)
                   \<and> fallbackUsed dbg = Some False))
       \<and> (\<forall>reason. createdResult = Inl reason \<and> \<not> rejected_404 createdResult
                     \<and> \<not> rejected_404 reviewResult \<longrightarrow>
            (\<exists>dbg. fetchPullRequestInbox plat net baseUrl tok = Some (Inl (reason, Some dbg))
                   \<and> fallbackUsed dbg = Some False))
       \<and> (\<forall>createdValue reason.
            createdResult = Inr createdValue \<and> reviewResult = Inl reason
            \<and> \<not> rejected_404 reviewResult \<longrightarrow>
            (\<exists>dbg. fetchPullRequestInbox plat net baseUrl tok = Some (Inl (reason, Some dbg))
                   \<and> fallbackUsed dbg = Some False))
       \<and> (\<forall>out dbg. fetchPullRequestInbox plat net baseUrl tok = Some out
                     \<and> outcome_debug out = Some dbg \<longrightarrow>
            (fallbackUsed dbg = Some True \<longleftrightarrow>
              (\<exists>msg url. createdResult = Inl (GiteaApiError 404 msg url)) \<or>
              (\<exists>msg url. reviewResult = Inl (GiteaApiError 404 msg url))))"
proof -
  let ?any404 = "rejected_404 createdResult \<or> rejected_404 reviewResult"
  let ?inbox = "fetchPullRequestInbox plat net baseUrl tok"
  have any404: "?any404 \<longleftrightarrow>
      (\<exists>msg url. createdResult = Inl (GiteaApiError 404 msg url)) \<or>
      (\<exists>msg url. reviewResult = Inl (GiteaApiError 404 msg url))"
    by (simp add: rejected_404_iff)
  have fallback: "?inbox =
      fallback_mode plat net baseUrl tok (initial_debug baseUrl) createdResult reviewResult"
    if "?any404"
    using that by (auto simp add: fetchPullRequestInbox_def assms Let_def)
  have global: "?inbox = Some (global_mode (initial_debug baseUrl) createdResult reviewResult)"
    if "\<not> ?any404"
    using that by (simp add: fetchPullRequestInbox_def assms Let_def)
  have both: "\<exists>dbg. ?inbox = Some (Inr \<lparr>created = createdValue, reviewRequested = reviewValue,
                                         debug = dbg\<rparr>) \<and> fallbackUsed dbg = Some False"
    if "createdResult = Inr createdValue" "reviewResult = Inr reviewValue"
    for createdValue reviewValue
    using that global by (simp add: global_mode_def Let_def)
  have first: "\<exists>dbg. ?inbox = Some (Inl (reason, Some dbg)) \<and> fallbackUsed dbg = Some False"
    if "createdResult = Inl reason" "\<not> ?any404" for reason
    using that global by (simp add: global_mode_def Let_def)
  have second: "\<exists>dbg. ?inbox = Some (Inl (reason, Some dbg)) \<and> fallbackUsed dbg = Some False"
    if "createdResult = Inr createdValue" "reviewResult = Inl reason" "\<not> rejected_404 reviewResult"
    for createdValue reason
    using that global by (simp add: global_mode_def Let_def)
  have flag: "fallbackUsed dbg = Some True \<longleftrightarrow> ?any404"
    if "?inbox = Some out" "outcome_debug out = Some dbg" for out dbg
  proof (cases ?any404)
    case True
    with that fallback fallback_mode_debug[of plat net baseUrl tok _ createdResult reviewResult out dbg]
    show ?thesis by simp
  next
    case False
    with that global global_mode_debug[of _ createdResult reviewResult dbg]
    show ?thesis by auto
  qed
  show ?thesis
    using fallback both first second flag unfolding any404 [symmetric]
    by blast
qed


theorem fetchPullRequestInbox_modes_witness:
  "(\<exists>dbg. fetchPullRequestInbox ex_plat ex_net ''https://h'' ''t'' =
           Some (Inr \<lparr>created = [ex_pull 1 ''me'' None],
                      reviewRequested = [ex_pull 2 ''you'' (Some [''me''])], debug = dbg\<rparr>)
         \<and> fallbackUsed dbg = Some False)
   \<and> fetchPullRequestInbox ex_plat ex_net ''https://g'' ''t'' =
       fallback_mode ex_plat ex_net ''https://g'' ''t'' (initial_debug ''https://g'')
         (Inl (GiteaApiError 404 ''Gitea API error (404): Not Found''
                (Some ''https://g/api/v1/pulls/created?state=open&limit=100&page=1&token=t'')))
         (Inl (GiteaApiError 500 ''Gitea API error (500): down''
                (Some ''https://g/api/v1/pulls/requested_review?state=open&limit=100&page=1&token=t'')))"
proof -
  have h: "\<exists>dbg. fetchPullRequestInbox ex_plat ex_net ''https://h'' ''t'' =
           Some (Inr \<lparr>created = [ex_pull 1 ''me'' None],
                      reviewRequested = [ex_pull 2 ''you'' (Some [''me''])], debug = dbg\<rparr>)
         \<and> fallbackUsed dbg = Some False"
    using fetchPullRequestInbox_modes[of ex_plat ex_net "''https://h''" "''t''" _
        "Inr [ex_pull 1 ''me'' None]" _ "Inr [ex_pull 2 ''you'' (Some [''me''])]"]
      ex_created_h ex_review_h
    by (simp add: ex_net_simps)
  have g: "fetchPullRequestInbox ex_plat ex_net ''https://g'' ''t'' =
       fallback_mode ex_plat ex_net ''https://g'' ''t'' (initial_debug ''https://g'')
         (Inl (GiteaApiError 404 ''Gitea API error (404): Not Found''
                (Some ''https://g/api/v1/pulls/created?state=open&limit=100&page=1&token=t'')))
         (Inl (GiteaApiError 500 ''Gitea API error (500): down''
                (Some ''https://g/api/v1/pulls/requested_review?state=open&limit=100&page=1&token=t'')))"
    using fetchPullRequestInbox_modes[of ex_plat ex_net "''https://g''" "''t''" _
        "Inl (GiteaApiError 404 ''Gitea API error (404): Not Found''
                (Some ''https://g/api/v1/pulls/created?state=open&limit=100&page=1&token=t''))" _
        "Inl (GiteaApiError 500 ''Gitea API error (500): down''
                (Some ''https://g/api/v1/pulls/requested_review?state=open&limit=100&page=1&token=t''))"]
      ex_created_g ex_review_g
    by (simp add: ex_net_simps)
  from h g show ?thesis ..
qed

subsection \<open>The fallback scan\<close>

lemma mapWithConcurrency_append:
  "mapWithConcurrency (xs @ ys) c fn s =
     (case mapWithConcurrency xs c fn s of
        None \<Rightarrow> None
      | Some (rs, s') \<Rightarrow>
          (case mapWithConcurrency ys c fn s' of
             None \<Rightarrow> None
           | Some (rs', s'') \<Rightarrow> Some (rs @ rs', s'')))"
  by (induction xs arbitrary: s) (auto split: option.splits)

lemma mapWithConcurrency_length:
  "mapWithConcurrency xs c fn s = Some (rs, s') \<Longrightarrow> length rs = length xs"
  by (induction xs arbitrary: s rs) (auto split: option.splits)

text \<open>The callback does not read the counter: it adds to it.\<close>

lemma scan_repo_shift:
  "scan_repo plat fetch apiBase tok me repo (Suc n) =
   map_option (\<lambda>(p, k). (p, Suc k)) (scan_repo plat fetch apiBase tok me repo n)"
  by (simp add: scan_repo_def split: option.splits sum.splits prod.splits)

lemma scan_repos_shift:
  "mapWithConcurrency rs c (scan_repo plat fetch apiBase tok me) (Suc n) =
   map_option (\<lambda>(ps, k). (ps, Suc k)) (mapWithConcurrency rs c (scan_repo plat fetch apiBase tok me) n)"
proof (induction rs arbitrary: n)
  case Nil
  then show ?case by simp
next
  case (Cons r rs)
  show ?case
  proof (cases "scan_repo plat fetch apiBase tok me r n")
    case None
    then show ?thesis by (simp add: scan_repo_shift)
  next
    case (Some a)
    obtain p k where a: "a = (p, k)" by (cases a)
    show ?thesis
      using Some a Cons.IH[of k]
      by (cases "mapWithConcurrency rs c (scan_repo plat fetch apiBase tok me) k")
         (auto simp: scan_repo_shift)
  qed
qed

lemma scan_repo_failed:
  assumes "owner_and_name (full_name repo) = Some (owner, name)"
    and "fetchPaged plat fetch (pullsUrl apiBase owner name) tok = Some (sent, Inl err)"
  shows "scan_repo plat fetch apiBase tok me repo n = Some (([], []), Suc n)"
  using assms by (simp add: scan_repo_def)

text \<open>
  C6. Let the fetch of one repository's open pull requests fail, and let the scan of
  the other repositories, those before it and those after it in the list, end with the
  partitions \<open>perRepo\<close> and the failure counter \<open>failures\<close>. Then the scan of the whole
  list ends too: the counter is \<open>failures + 1\<close>, the failed repository has the empty
  partition at its place, the partitions of the others are what they were, and the two
  flattened sequences are what they were.
\<close>

theorem failed_repo_isolated:
  assumes "owner_and_name (full_name repo) = Some (owner, name)"
    and "fetchPaged plat fetch (pullsUrl apiBase owner name) tok = Some (sent, Inl err)"
    and "mapWithConcurrency (before @ after) 6 (scan_repo plat fetch apiBase tok me) n =
         Some (perRepo, failures)"
  shows "\<exists>perRepo'.
           mapWithConcurrency (before @ repo # after) 6 (scan_repo plat fetch apiBase tok me) n =
           Some (perRepo', failures + 1)
         \<and> perRepo' = take (length before) perRepo @ ([], []) # drop (length before) perRepo
         \<and> concat (map fst perRepo') = concat (map fst perRepo)
         \<and> concat (map snd perRepo') = concat (map snd perRepo)"
proof -
  let ?scan = "scan_repo plat fetch apiBase tok me"
  from assms(3) obtain ps1 k ps2 where
    before: "mapWithConcurrency before 6 ?scan n = Some (ps1, k)" and
    after: "mapWithConcurrency after 6 ?scan k = Some (ps2, failures)" and
    perRepo: "perRepo = ps1 @ ps2"
    by (auto simp: mapWithConcurrency_append split: option.splits prod.splits)
  have len: "length ps1 = length before"
    using before by (rule mapWithConcurrency_length)
  have "mapWithConcurrency (repo # after) 6 ?scan k = Some (([], []) # ps2, Suc failures)"
    using scan_repo_failed[OF assms(1,2), of me k] after
    by (simp add: scan_repos_shift)
  then have "mapWithConcurrency (before @ repo # after) 6 ?scan n =
             Some (ps1 @ ([], []) # ps2, failures + 1)"
    using before by (simp add: mapWithConcurrency_append)
  then show ?thesis
    using len by (simp add: perRepo)
qed

text \<open>When every repository's fetch settles, so does the scan.\<close>

lemma scan_repo_settled:
  assumes "repo_scan_settles plat fetch apiBase tok repo"
  shows "\<exists>k. scan_repo plat fetch apiBase tok me repo n =
              Some ((filter (authored_by me) (repo_open_pulls plat fetch apiBase tok repo),
                     filter (review_requested_of me) (repo_open_pulls plat fetch apiBase tok repo)), k)"
  using assms
  by (auto simp: scan_repo_def repo_scan_settles_def repo_open_pulls_def
      split: option.splits sum.splits prod.splits)

lemma scan_repos_settled:
  assumes "\<forall>repo\<in>set rs. repo_scan_settles plat fetch apiBase tok repo"
  shows "\<exists>k. mapWithConcurrency rs c (scan_repo plat fetch apiBase tok me) n =
              Some (map (\<lambda>repo. (filter (authored_by me) (repo_open_pulls plat fetch apiBase tok repo),
                                 filter (review_requested_of me)
                                   (repo_open_pulls plat fetch apiBase tok repo))) rs, k)"
  using assms
proof (induction rs arbitrary: n)
  case Nil
  then show ?case by simp
next
  case (Cons r rs)
  from Cons.prems have "repo_scan_settles plat fetch apiBase tok r" by simp
  from scan_repo_settled[OF this, of me n] obtain k where
    k: "scan_repo plat fetch apiBase tok me r n =
        Some ((filter (authored_by me) (repo_open_pulls plat fetch apiBase tok r),
               filter (review_requested_of me) (repo_open_pulls plat fetch apiBase tok r)), k)"
    by blast
  from Cons.IH[of k] Cons.prems obtain k' where
    "mapWithConcurrency rs c (scan_repo plat fetch apiBase tok me) k =
      Some (map (\<lambda>repo. (filter (authored_by me) (repo_open_pulls plat fetch apiBase tok repo),
                         filter (review_requested_of me)
                           (repo_open_pulls plat fetch apiBase tok repo))) rs, k')"
    by auto
  with k show ?case by simp
qed

lemma concat_map_filter:
  "concat (map (\<lambda>x. filter P (f x)) xs) = filter P (concat (map f xs))"
  by (induction xs) auto


theorem failed_repo_isolated_witness:
  "mapWithConcurrency
     [ex_repo 1 ''o/a'' ''search'', ex_repo 2 ''o/b'' ''search'', ex_repo 3 ''o/c'' ''user''] 6
     (scan_repo ex_plat ex_fetch_pulls ''https://g'' ''t'' ''me'') 0 =
   Some ([([ex_pull 1 ''me'' None], [ex_pull 2 ''you'' (Some [''me''])]),
          ([], []),
          ([ex_pull 4 ''me'' (Some [''me''])], [ex_pull 4 ''me'' (Some [''me''])])], 1)"
proof -
  have name: "owner_and_name (full_name (ex_repo 2 ''o/b'' ''search'')) = Some (''o'', ''b'')"
    by (simp add: ex_repo_def ex_owner_and_name)
  have others: "mapWithConcurrency
      ([ex_repo 1 ''o/a'' ''search''] @ [ex_repo 3 ''o/c'' ''user'']) 6
      (scan_repo ex_plat ex_fetch_pulls ''https://g'' ''t'' ''me'') 0 =
    Some ([([ex_pull 1 ''me'' None], [ex_pull 2 ''you'' (Some [''me''])]),
           ([ex_pull 4 ''me'' (Some [''me''])], [ex_pull 4 ''me'' (Some [''me''])])], 0)"
    by (simp add: scan_repo_def ex_repo_def ex_owner_and_name ex_pulls_a ex_pulls_c
        authored_by_def review_requested_of_def ex_pull_def ex_user_def)
  show ?thesis
    using failed_repo_isolated[OF name ex_pulls_b others]
    by simp
qed

text \<open>
  C2. Let the resolver be in fallback mode: both global fetches have settled and one
  was rejected with status 404. If the current user cannot be resolved, it throws the
  error \<^verbatim>\<open>Could not determine current user\<close>. If the user is resolved, the repositories
  are discovered and the fetch of every repository's open pull requests settles, it
  returns; \<^verbatim>\<open>created\<close> is then the sequence of all the repositories' open pull requests,
  in the order of the repositories, filtered by the author's login being equal to the
  user's login, and \<^verbatim>\<open>reviewRequested\<close> is the same sequence filtered by some requested
  reviewer's login being equal to it.
\<close>

theorem fallback_partition:
  assumes "fetchPaged plat (fetch_pulls net) (global_createdUrl baseUrl) tok =
           Some (sent1, createdResult)"
    and "fetchPaged plat (fetch_pulls net) (global_reviewRequestedUrl baseUrl) tok =
         Some (sent2, reviewResult)"
    and "rejected_404 createdResult \<or> rejected_404 reviewResult"
  shows "(fetchCurrentUser (fetch_user net) baseUrl tok = None \<longrightarrow>
            (\<exists>dbg. fetchPullRequestInbox plat net baseUrl tok =
                     Some (Inl (Error ''Could not determine current user. Check your access token.'',
                                Some dbg))))
       \<and> (\<forall>me acc.
            fetchCurrentUser (fetch_user net) baseUrl tok = Some me
            \<and> fetchAllRepos plat net baseUrl tok = Some (Inr acc)
            \<and> (\<forall>repo\<in>set (repos acc).
                  repo_scan_settles plat (fetch_pulls net) (normalizeBaseUrl baseUrl) tok repo) \<longrightarrow>
            (\<exists>res. fetchPullRequestInbox plat net baseUrl tok = Some (Inr res)
                   \<and> created res =
                       filter (\<lambda>pr. \<exists>u. user pr = Some u \<and> login u = auth_login me)
                         (concat (map (repo_open_pulls plat (fetch_pulls net)
                                         (normalizeBaseUrl baseUrl) tok) (repos acc)))
                   \<and> reviewRequested res =
                       filter (\<lambda>pr. \<exists>rs r. requested_reviewers pr = Some rs \<and> r \<in> set rs
                                           \<and> login r = auth_login me)
                         (concat (map (repo_open_pulls plat (fetch_pulls net)
                                         (normalizeBaseUrl baseUrl) tok) (repos acc)))))"
proof -
  let ?inbox = "fetchPullRequestInbox plat net baseUrl tok"
  let ?pulls = "repo_open_pulls plat (fetch_pulls net) (normalizeBaseUrl baseUrl) tok"
  have fb: "?inbox = fallback_mode plat net baseUrl tok (initial_debug baseUrl)
                       createdResult reviewResult"
    using assms(3) by (auto simp add: fetchPullRequestInbox_def assms(1,2) Let_def)
  have no_user: "\<exists>dbg. ?inbox =
      Some (Inl (Error ''Could not determine current user. Check your access token.'', Some dbg))"
    if "fetchCurrentUser (fetch_user net) baseUrl tok = None"
    using that by (simp add: fb fallback_mode_def Let_def)
  have authored: "authored_by l = (\<lambda>pr. \<exists>u. user pr = Some u \<and> login u = l)" for l
    by (auto simp: authored_by_def fun_eq_iff split: option.splits)
  have requested: "review_requested_of l =
      (\<lambda>pr. \<exists>rs r. requested_reviewers pr = Some rs \<and> r \<in> set rs \<and> login r = l)" for l
    by (auto simp: review_requested_of_def fun_eq_iff list_ex_iff split: option.splits)
  have scan: "\<exists>res. ?inbox = Some (Inr res)
      \<and> created res = filter (authored_by (auth_login me)) (concat (map ?pulls (repos acc)))
      \<and> reviewRequested res =
          filter (review_requested_of (auth_login me)) (concat (map ?pulls (repos acc)))"
    if me: "fetchCurrentUser (fetch_user net) baseUrl tok = Some me"
      and acc: "fetchAllRepos plat net baseUrl tok = Some (Inr acc)"
      and settles: "\<forall>repo\<in>set (repos acc).
           repo_scan_settles plat (fetch_pulls net) (normalizeBaseUrl baseUrl) tok repo"
    for me acc
  proof -
    from scan_repos_settled[OF settles, of 6 "auth_login me" 0] obtain k where
      k: "mapWithConcurrency (repos acc) 6
            (scan_repo plat (fetch_pulls net) (normalizeBaseUrl baseUrl) tok (auth_login me)) 0 =
          Some (map (\<lambda>repo. (filter (authored_by (auth_login me)) (?pulls repo),
                             filter (review_requested_of (auth_login me)) (?pulls repo)))
                  (repos acc), k)"
      by blast
    show ?thesis
      by (simp add: fb fallback_mode_def Let_def me acc k comp_def concat_map_filter)
  qed
  show ?thesis
    using no_user scan unfolding authored requested by blast
qed

theorem fallback_partition_witness:
  "\<exists>res. fetchPullRequestInbox ex_plat ex_net ''https://g'' ''t'' = Some (Inr res)
         \<and> created res = [ex_pull 1 ''me'' None, ex_pull 4 ''me'' (Some [''me''])]
         \<and> reviewRequested res =
             [ex_pull 2 ''you'' (Some [''me'']), ex_pull 4 ''me'' (Some [''me''])]"
proof -
  have any404: "rejected_404
      (Inl (GiteaApiError 404 ''Gitea API error (404): Not Found''
             (Some ''https://g/api/v1/pulls/created?state=open&limit=100&page=1&token=t''))
         :: error + GiteaPullRequest list)
    \<or> rejected_404
      (Inl (GiteaApiError 500 ''Gitea API error (500): down''
             (Some ''https://g/api/v1/pulls/requested_review?state=open&limit=100&page=1&token=t''))
         :: error + GiteaPullRequest list)"
    by simp
  have c: "fetchPaged ex_plat (fetch_pulls ex_net) (global_createdUrl ''https://g'') ''t'' =
      Some ([\<lparr>req_url = ''https://g/api/v1/pulls/created?state=open&limit=100&page=1&token=t'',
              authorization = Some ''token t''\<rparr>],
            Inl (GiteaApiError 404 ''Gitea API error (404): Not Found''
                   (Some ''https://g/api/v1/pulls/created?state=open&limit=100&page=1&token=t'')))"
    using ex_created_g by (simp add: ex_net_simps)
  have r: "fetchPaged ex_plat (fetch_pulls ex_net) (global_reviewRequestedUrl ''https://g'') ''t'' =
      Some ([\<lparr>req_url =
                ''https://g/api/v1/pulls/requested_review?state=open&limit=100&page=1&token=t'',
              authorization = Some ''token t''\<rparr>],
            Inl (GiteaApiError 500 ''Gitea API error (500): down''
                   (Some ''https://g/api/v1/pulls/requested_review?state=open&limit=100&page=1&token=t'')))"
    using ex_review_g by (simp add: ex_net_simps)
  have me: "fetchCurrentUser (fetch_user ex_net) ''https://g'' ''t'' =
      Some \<lparr>auth_id = 7, auth_login = ''me''\<rparr>"
    using ex_fetchCurrentUser by (simp add: ex_net_simps)
  have settles: "\<forall>repo\<in>set (repos ex_acc).
      repo_scan_settles ex_plat (fetch_pulls ex_net) (normalizeBaseUrl ''https://g'') ''t'' repo"
    by (simp add: ex_acc_def repo_scan_settles_def ex_repo_def ex_owner_and_name
        ex_net_simps normalizeBaseUrl_g ex_pulls_a ex_pulls_b ex_pulls_c)
  have pulls: "concat (map (repo_open_pulls ex_plat (fetch_pulls ex_net)
                              (normalizeBaseUrl ''https://g'') ''t'') (repos ex_acc)) =
      [ex_pull 1 ''me'' None, ex_pull 2 ''you'' (Some [''me'']),
       ex_pull 3 ''you'' (Some [''they'']), ex_pull 4 ''me'' (Some [''me''])]"
    by (simp add: ex_acc_def repo_open_pulls_def ex_repo_def ex_owner_and_name
        ex_net_simps normalizeBaseUrl_g ex_pulls_a ex_pulls_b ex_pulls_c)
  from fallback_partition[OF c r any404] me ex_fetchAllRepos settles
  obtain res where
    "fetchPullRequestInbox ex_plat ex_net ''https://g'' ''t'' = Some (Inr res)"
    "created res =
       filter (\<lambda>pr. \<exists>u. user pr = Some u \<and> login u = ''me'')
         (concat (map (repo_open_pulls ex_plat (fetch_pulls ex_net)
                         (normalizeBaseUrl ''https://g'') ''t'') (repos ex_acc)))"
    "reviewRequested res =
       filter (\<lambda>pr. \<exists>rs r. requested_reviewers pr = Some rs \<and> r \<in> set rs \<and> login r = ''me'')
         (concat (map (repo_open_pulls ex_plat (fetch_pulls ex_net)
                         (normalizeBaseUrl ''https://g'') ''t'') (repos ex_acc)))"
    by fastforce
  then show ?thesis
    by (auto simp: pulls ex_pull_def ex_user_def)
qed

section \<open>Properties of repository discovery\<close>

lemma image_id_filter: "repo_id ` {x \<in> S. repo_id x \<noteq> i} = repo_id ` S - {i}"
  by auto

lemma earliest_copies_ids: "repo_id ` set (earliest_copies xs) = repo_id ` set xs"
proof (induction xs)
  case Nil
  then show ?case by simp
next
  case (Cons r rs)
  have "repo_id ` set (earliest_copies (r # rs)) =
        insert (repo_id r) (repo_id ` set (earliest_copies rs) - {repo_id r})"
    by (simp add: image_id_filter)
  also have "\<dots> = insert (repo_id r) (repo_id ` set rs)"
    using Cons.IH by auto
  finally show ?case by simp
qed

lemma earliest_copies_distinct: "distinct (map repo_id (earliest_copies xs))"
proof (induction xs)
  case Nil
  then show ?case by simp
next
  case (Cons r rs)
  have "distinct (map repo_id (filter (\<lambda>x. repo_id x \<noteq> repo_id r) (earliest_copies rs)))"
    using Cons.IH by (simp add: distinct_map_filter)
  then show ?case by auto
qed

lemma earliest_copies_filter:
  "filter (\<lambda>x. Q (repo_id x)) (earliest_copies xs) = earliest_copies (filter (\<lambda>x. Q (repo_id x)) xs)"
proof (induction xs)
  case Nil
  then show ?case by simp
next
  case (Cons r rs)
  have comm: "filter (\<lambda>x. Q (repo_id x)) (filter (\<lambda>x. repo_id x \<noteq> repo_id r) (earliest_copies rs)) =
        filter (\<lambda>x. repo_id x \<noteq> repo_id r) (filter (\<lambda>x. Q (repo_id x)) (earliest_copies rs))"
    by (simp add: conj_commute)
  show ?case
  proof (cases "Q (repo_id r)")
    case True
    then show ?thesis using Cons.IH comm by simp
  next
    case False
    have "filter (\<lambda>x. Q (repo_id x)) (filter (\<lambda>x. repo_id x \<noteq> repo_id r) (earliest_copies rs)) =
          filter (\<lambda>x. Q (repo_id x)) (earliest_copies rs)"
      using False by (auto intro: filter_cong)
    then show ?thesis using False Cons.IH by simp
  qed
qed

lemma earliest_copies_append:
  "earliest_copies (xs @ ys) =
   earliest_copies xs @ earliest_copies (filter (\<lambda>y. repo_id y \<notin> repo_id ` set xs) ys)"
proof (induction xs arbitrary: ys)
  case Nil
  then show ?case by simp
next
  case (Cons r rs)
  have "filter (\<lambda>x. repo_id x \<noteq> repo_id r)
          (earliest_copies (filter (\<lambda>y. repo_id y \<notin> repo_id ` set rs) ys)) =
        earliest_copies (filter (\<lambda>y. repo_id y \<notin> repo_id ` set (r # rs)) ys)"
    using earliest_copies_filter[of "\<lambda>i. i \<noteq> repo_id r" "filter (\<lambda>y. repo_id y \<notin> repo_id ` set rs) ys"]
    by (simp add: conj_commute)
  then show ?case using Cons.IH[of ys] by simp
qed

lemma earliest_copies_find:
  "r \<in> set (earliest_copies xs) \<Longrightarrow> find (\<lambda>x. repo_id x = repo_id r) xs = Some r"
proof (induction xs)
  case Nil
  then show ?case by simp
next
  case (Cons a xs)
  then show ?case by (cases "repo_id a = repo_id r") auto
qed

lemma earliest_copies_length: "length (earliest_copies xs) = card (repo_id ` set xs)"
proof -
  have "length (earliest_copies xs) = length (map repo_id (earliest_copies xs))"
    by simp
  also have "\<dots> = card (set (map repo_id (earliest_copies xs)))"
    using earliest_copies_distinct[of xs] by (simp only: distinct_card)
  also have "\<dots> = card (repo_id ` set xs)"
    by (simp add: earliest_copies_ids)
  finally show ?thesis .
qed

lemma filter_once:
  "distinct (map f ys) \<Longrightarrow> i \<in> f ` set ys \<Longrightarrow> length (filter (\<lambda>x. f x = i) ys) = Suc 0"
proof (induction ys)
  case Nil
  then show ?case by simp
next
  case (Cons a ys)
  show ?case
  proof (cases "f a = i")
    case True
    from Cons.prems(1) have "f a \<notin> f ` set ys" by simp
    with True have "\<forall>x\<in>set ys. f x \<noteq> i" by blast
    then have "filter (\<lambda>x. f x = i) ys = []" by (simp add: filter_empty_conv)
    then show ?thesis using True by simp
  next
    case False
    then show ?thesis using Cons by auto
  qed
qed

lemma earliest_copies_once:
  assumes "r \<in> set xs"
  shows "length (filter (\<lambda>x. repo_id x = repo_id r) (earliest_copies xs)) = 1"
proof -
  have "repo_id r \<in> repo_id ` set (earliest_copies xs)"
    using assms earliest_copies_ids[of xs] by auto
  then show ?thesis
    using filter_once[OF earliest_copies_distinct[of xs]] by simp
qed

lemma fold_add_repo:
  assumes "seenIds acc = repo_id ` set (repos acc)"
  shows "repos (fold add_repo data acc) =
           repos acc @ earliest_copies (filter (\<lambda>x. repo_id x \<notin> seenIds acc) data)
       \<and> seenIds (fold add_repo data acc) = seenIds acc \<union> repo_id ` set data"
  using assms
proof (induction data arbitrary: acc)
  case Nil
  then show ?case by simp
next
  case (Cons r rest)
  show ?case
  proof (cases "repo_id r \<in> seenIds acc")
    case True
    then have "add_repo r acc = acc" by (simp add: add_repo_def)
    then show ?thesis using Cons.IH[of acc] Cons.prems True by auto
  next
    case False
    let ?acc' = "add_repo r acc"
    have acc': "repos ?acc' = repos acc @ [r]" "seenIds ?acc' = insert (repo_id r) (seenIds acc)"
      using False by (simp_all add: add_repo_def)
    have inv': "seenIds ?acc' = repo_id ` set (repos ?acc')"
      using Cons.prems by (simp add: acc')
    have "filter (\<lambda>x. repo_id x \<noteq> repo_id r)
            (earliest_copies (filter (\<lambda>x. repo_id x \<notin> seenIds acc) rest)) =
          earliest_copies (filter (\<lambda>x. repo_id x \<notin> insert (repo_id r) (seenIds acc)) rest)"
      using earliest_copies_filter[of "\<lambda>i. i \<noteq> repo_id r" "filter (\<lambda>x. repo_id x \<notin> seenIds acc) rest"]
      by (simp add: conj_commute)
    then show ?thesis
      using Cons.IH[OF inv'] False by (auto simp: acc')
  qed
qed

text \<open>The accumulator after a page is the accumulator of the pages with this one.\<close>

lemma acc_of_Nil: "acc_of [] = empty_acc"
  by (simp add: acc_of_def empty_acc_def)

lemma acc_of_length: "length (repos (acc_of ps)) = distinct_ids ps"
  by (simp add: acc_of_def distinct_ids_def earliest_copies_length length_remdups_card_conv)

lemma add_page_acc_of: "add_page d (acc_of ps) = acc_of (ps @ [d])"
proof -
  have seen: "seenIds (acc_of ps) = repo_id ` set (repos (acc_of ps))"
    by (simp add: acc_of_def earliest_copies_ids)
  note f = fold_add_repo[OF seen, of d]
  have "repos (add_page d (acc_of ps)) = repos (acc_of (ps @ [d]))"
    using f by (simp add: add_page_def acc_of_def earliest_copies_append)
  moreover have "seenIds (add_page d (acc_of ps)) = seenIds (acc_of (ps @ [d]))"
    using f by (simp add: add_page_def acc_of_def image_Un)
  ultimately show ?thesis
    by (rule repo_acc.equality) simp
qed

text \<open>One turn of each loop, from the accumulator of the pages before.\<close>

lemma search_loop_step:
  assumes u: "URL_new plat (normalizeBaseUrl baseUrl @ ''/api/v1/repos/search'') = Inr u"
    and a: "search_answer (fetch (search_request plat u tok page)) = Some (d, t)"
  shows "search_loop plat fetch baseUrl tok page (distinct_ids before) (acc_of before) =
         (if search_continues before d t
          then search_loop plat fetch baseUrl tok (page + 1) (distinct_ids (before @ [d]))
                 (acc_of (before @ [d]))
          else Some (Inr (acc_of (before @ [d]))))"
proof -
  from a obtain response json_data where r: "fetch (search_request plat u tok page) = Inr response"
    and okr: "ok response"
    and j: "body_json response = Inr (SearchObject json_data t)"
    and d: "(case json_data of Some d \<Rightarrow> d | None \<Rightarrow> []) = d"
    by (cases "fetch (search_request plat u tok page)")
      (auto split: if_splits sum.splits search_json.splits)
  show ?thesis
    by (subst search_loop.simps)
      (auto simp: u r okr j d Let_def add_page_acc_of acc_of_length search_continues_def
        split: option.splits)
qed

lemma search_loop_yields:
  assumes u: "URL_new plat (normalizeBaseUrl baseUrl @ ''/api/v1/repos/search'') = Inr u"
    and y: "search_yields_from (\<lambda>page. fetch (search_request plat u tok page)) page before answers"
  shows "search_loop plat fetch baseUrl tok page (distinct_ids before) (acc_of before) =
         Some (Inr (acc_of (before @ map fst answers)))"
  using y
proof (induction answers arbitrary: page before)
  case Nil
  then show ?case by simp
next
  case (Cons a rest)
  obtain d t where a: "a = (d, t)" by (cases a)
  from Cons.prems a
  have ans: "search_answer (fetch (search_request plat u tok page)) = Some (d, t)"
    by simp
  note step = search_loop_step[where fetch = fetch and before = before, OF u ans]
  show ?case
  proof (cases "search_continues before d t")
    case True
    with Cons.prems a
    have "search_yields_from (\<lambda>page. fetch (search_request plat u tok page)) (page + 1)
            (before @ [d]) rest"
      by simp
    from Cons.IH[OF this] show ?thesis
      using step True by (simp add: a)
  next
    case False
    with Cons.prems a have "rest = []" by simp
    then show ?thesis
      using step False by (simp add: a)
  qed
qed

lemma page_ofD:
  assumes "page_of x = Some d"
  obtains response where "x = Inr response" "ok response" "body_json response = Inr (JArray d)"
  using assms
  by (cases x) (auto split: if_splits sum.splits json_list.splits)

lemma ends_sourceD:
  assumes "ends_source x"
  obtains response where "x = Inr response"
    "\<not> ok response \<or> body_json response = Inr JNotArray \<or> body_json response = Inr (JArray [])"
  using assms by (cases x) (auto simp: ends_source_def)

lemma user_repos_loop_step:
  assumes u: "URL_new plat (normalizeBaseUrl baseUrl @ ''/api/v1/user/repos'') = Inr u"
    and p: "page_of (fetch (repos_request plat u tok page)) = Some d"
    and ne: "d \<noteq> []"
  shows "user_repos_loop plat fetch baseUrl tok page (acc_of before) =
         (if distinct_ids (before @ [d]) = distinct_ids before
          then Some (Inr (acc_of (before @ [d])))
          else user_repos_loop plat fetch baseUrl tok (page + 1) (acc_of (before @ [d])))"
proof -
  from p obtain response where r: "fetch (repos_request plat u tok page) = Inr response"
    and okr: "ok response" and j: "body_json response = Inr (JArray d)"
    by (rule page_ofD)
  show ?thesis
    by (subst user_repos_loop.simps)
      (simp add: u r okr j ne Let_def add_page_acc_of acc_of_length)
qed

lemma user_repos_loop_ends:
  assumes u: "URL_new plat (normalizeBaseUrl baseUrl @ ''/api/v1/user/repos'') = Inr u"
    and e: "ends_source (fetch (repos_request plat u tok page))"
  shows "user_repos_loop plat fetch baseUrl tok page acc = Some (Inr acc)"
proof -
  from e obtain response where r: "fetch (repos_request plat u tok page) = Inr response"
    and c: "\<not> ok response \<or> body_json response = Inr JNotArray
            \<or> body_json response = Inr (JArray [])"
    by (rule ends_sourceD)
  show ?thesis
    using c by (subst user_repos_loop.simps) (auto simp: u r)
qed

lemma user_repos_loop_yields:
  assumes u: "URL_new plat (normalizeBaseUrl baseUrl @ ''/api/v1/user/repos'') = Inr u"
    and y: "source_yields_from (\<lambda>page. fetch (repos_request plat u tok page)) page before ps False"
  shows "user_repos_loop plat fetch baseUrl tok page (acc_of before) =
         Some (Inr (acc_of (before @ ps)))"
  using y
proof (induction ps arbitrary: page before)
  case Nil
  then show ?case
    using user_repos_loop_ends[where fetch = fetch, OF u] by simp
next
  case (Cons d rest)
  from Cons.prems
  have p: "page_of (fetch (repos_request plat u tok page)) = Some d" and ne: "d \<noteq> []"
    by simp_all
  note step = user_repos_loop_step[where fetch = fetch and before = before, OF u p ne]
  show ?case
  proof (cases "distinct_ids (before @ [d]) = distinct_ids before")
    case True
    with Cons.prems have "rest = []" by simp
    then show ?thesis using step True by simp
  next
    case False
    with Cons.prems
    have "source_yields_from (\<lambda>page. fetch (repos_request plat u tok page)) (page + 1)
            (before @ [d]) rest False"
      by simp
    from Cons.IH[OF this] show ?thesis
      using step False by simp
  qed
qed

lemma org_repos_loop_step:
  assumes u: "URL_new plat (normalizeBaseUrl baseUrl @ ''/api/v1/orgs/'' @ orgName @ ''/repos'') = Inr u"
    and p: "page_of (fetch (repos_request plat u tok page)) = Some d"
    and ne: "d \<noteq> []"
  shows "org_repos_loop plat fetch baseUrl tok orgName page (acc_of before) =
         (if distinct_ids (before @ [d]) = distinct_ids before
          then Some (None, acc_of (before @ [d]))
          else org_repos_loop plat fetch baseUrl tok orgName (page + 1) (acc_of (before @ [d])))"
proof -
  from p obtain response where r: "fetch (repos_request plat u tok page) = Inr response"
    and okr: "ok response" and j: "body_json response = Inr (JArray d)"
    by (rule page_ofD)
  show ?thesis
    using u by (subst org_repos_loop.simps)
      (simp add: r okr j ne Let_def add_page_acc_of acc_of_length)
qed

lemma org_repos_loop_ends:
  assumes u: "URL_new plat (normalizeBaseUrl baseUrl @ ''/api/v1/orgs/'' @ orgName @ ''/repos'') = Inr u"
    and e: "ends_source (fetch (repos_request plat u tok page))"
  shows "org_repos_loop plat fetch baseUrl tok orgName page acc = Some (None, acc)"
proof -
  from e obtain response where r: "fetch (repos_request plat u tok page) = Inr response"
    and c: "\<not> ok response \<or> body_json response = Inr JNotArray
            \<or> body_json response = Inr (JArray [])"
    by (rule ends_sourceD)
  show ?thesis
    using c u by (subst org_repos_loop.simps) (auto simp: r)
qed

lemma org_repos_loop_throws:
  assumes u: "URL_new plat (normalizeBaseUrl baseUrl @ ''/api/v1/orgs/'' @ orgName @ ''/repos'') = Inr u"
    and t: "throws_source (fetch (repos_request plat u tok page))"
  shows "\<exists>e. org_repos_loop plat fetch baseUrl tok orgName page acc = Some (Some e, acc)"
proof (cases "fetch (repos_request plat u tok page)")
  case (Inl m)
  then show ?thesis
    using u by (subst org_repos_loop.simps) simp
next
  case (Inr response)
  with t have "ok response" and "isl (body_json response)"
    by (simp_all add: throws_source_def)
  then show ?thesis
    using u by (subst org_repos_loop.simps) (auto simp: Inr isl_def)
qed

lemma org_repos_loop_yields:
  assumes u: "URL_new plat (normalizeBaseUrl baseUrl @ ''/api/v1/orgs/'' @ orgName @ ''/repos'') = Inr u"
    and y: "source_yields_from (\<lambda>page. fetch (repos_request plat u tok page)) page before ps thrown"
  shows "\<exists>e. org_repos_loop plat fetch baseUrl tok orgName page (acc_of before) =
              Some (if thrown then Some e else None, acc_of (before @ ps))"
  using y
proof (induction ps arbitrary: page before)
  case Nil
  then show ?case
    using org_repos_loop_ends[where fetch = fetch and acc = "acc_of before", OF u]
      org_repos_loop_throws[where fetch = fetch and acc = "acc_of before", OF u]
    by (cases thrown) auto
next
  case (Cons d rest)
  from Cons.prems
  have p: "page_of (fetch (repos_request plat u tok page)) = Some d" and ne: "d \<noteq> []"
    by simp_all
  note step = org_repos_loop_step[where fetch = fetch and before = before, OF u p ne]
  show ?case
  proof (cases "distinct_ids (before @ [d]) = distinct_ids before")
    case True
    with Cons.prems have "rest = []" and "\<not> thrown" by simp_all
    then show ?thesis using step True by simp
  next
    case False
    with Cons.prems
    have "source_yields_from (\<lambda>page. fetch (repos_request plat u tok page)) (page + 1)
            (before @ [d]) rest thrown"
      by simp
    from Cons.IH[OF this] show ?thesis
      using step False by simp
  qed
qed

lemma org_repos_loop_org_yields:
  assumes "org_yields plat fetch baseUrl tok orgName before ps thrown"
  shows "\<exists>e. org_repos_loop plat fetch baseUrl tok orgName 1 (acc_of before) =
              Some (if thrown then Some e else None, acc_of (before @ ps))"
proof (cases "URL_new plat (normalizeBaseUrl baseUrl @ ''/api/v1/orgs/'' @ orgName @ ''/repos'')")
  case (Inl m)
  with assms have "ps = []" and thrown
    by (simp_all add: org_yields_def)
  then show ?thesis
    using Inl by (subst org_repos_loop.simps) simp
next
  case (Inr u)
  with assms
  have "source_yields_from (\<lambda>page. fetch (repos_request plat u tok page)) 1 before ps thrown"
    by (simp add: org_yields_def)
  from org_repos_loop_yields[where fetch = fetch, OF Inr this] show ?thesis .
qed

lemma orgs_repos_yields:
  assumes "orgs_yield plat fetch baseUrl tok before (org_names orgs) runs"
  shows "\<exists>thrown. orgs_repos plat fetch baseUrl tok orgs (acc_of before) =
                   Some (thrown, acc_of (before @ concat (map fst runs)))"
  using assms
proof (induction orgs arbitrary: before runs)
  case Nil
  then show ?case by (simp add: org_names_def)
next
  case (Cons org rest)
  show ?case
  proof (cases "truthy (js_or (username org) (org_name org))")
    case False
    with Cons.prems have "orgs_yield plat fetch baseUrl tok before (org_names rest) runs"
      by (simp add: org_names_def)
    from Cons.IH[OF this] show ?thesis
      using False by (simp add: Let_def)
  next
    case True
    let ?name = "the (js_or (username org) (org_name org))"
    have names: "org_names (org # rest) = ?name # org_names rest"
      using True by (simp add: org_names_def)
    from Cons.prems names obtain run runs' where runs: "runs = run # runs'"
      by (cases runs) simp_all
    from Cons.prems names runs
    have oy: "org_yields plat fetch baseUrl tok ?name before (fst run) (snd run)"
      and nxt: "if snd run then runs' = []
                else orgs_yield plat fetch baseUrl tok (before @ fst run) (org_names rest) runs'"
      by simp_all
    from org_repos_loop_org_yields[OF oy] obtain e where
      loop: "org_repos_loop plat fetch baseUrl tok ?name 1 (acc_of before) =
             Some (if snd run then Some e else None, acc_of (before @ fst run))"
      by blast
    show ?thesis
    proof (cases "snd run")
      case thrown: True
      with nxt have "runs' = []" by simp
      then show ?thesis
        using True loop thrown runs by (simp add: Let_def)
    next
      case ended: False
      with nxt have "orgs_yield plat fetch baseUrl tok (before @ fst run) (org_names rest) runs'"
        by simp
      from Cons.IH[OF this] show ?thesis
        using True loop ended runs by (simp add: Let_def)
    qed
  qed
qed

lemma fetchAllRepos_yields:
  assumes "sources_yield plat net baseUrl tok answers userPages runs"
  shows "fetchAllRepos plat net baseUrl tok =
         Some (Inr (acc_of (all_pages answers userPages runs)))"
proof -
  from assms obtain us where
    us: "URL_new plat (normalizeBaseUrl baseUrl @ ''/api/v1/repos/search'') = Inr us"
    and sy: "search_yields_from (\<lambda>page. fetch_search net (search_request plat us tok page)) 1 []
               answers"
    by (auto simp: sources_yield_def search_yields_def split: sum.splits)
  have s: "search_loop plat (fetch_search net) baseUrl tok 1 0 empty_acc =
           Some (Inr (acc_of (map fst answers)))"
    using search_loop_yields[where fetch = "fetch_search net", OF us sy] by (simp add: acc_of_Nil distinct_ids_def)
  show ?thesis
  proof (cases "tok = []")
    case True
    with assms have "userPages = []" and "runs = []"
      by (simp_all add: sources_yield_def)
    then show ?thesis
      using s True by (simp add: fetchAllRepos_def all_pages_def)
  next
    case False
    with assms obtain uu where
      uu: "URL_new plat (normalizeBaseUrl baseUrl @ ''/api/v1/user/repos'') = Inr uu"
      and uy: "source_yields_from (\<lambda>page. fetch_repos net (repos_request plat uu tok page)) 1
                 (map fst answers) userPages False"
      by (auto simp: sources_yield_def user_yields_def split: sum.splits)
    have usr: "user_repos_loop plat (fetch_repos net) baseUrl tok 1 (acc_of (map fst answers)) =
               Some (Inr (acc_of (map fst answers @ userPages)))"
      using user_repos_loop_yields[where fetch = "fetch_repos net", OF uu uy] .
    from assms False obtain listed where
      o: "orgs_loop (fetch_orgs net) baseUrl tok 1 [] = Some listed"
      by (auto simp: sources_yield_def split: option.splits)
    show ?thesis
    proof (cases listed)
      case (Inl e)
      with assms False o have "runs = []"
        by (simp add: sources_yield_def)
      then show ?thesis
        using s usr o Inl False by (simp add: fetchAllRepos_def all_pages_def)
    next
      case (Inr allOrgs)
      with assms False o
      have "orgs_yield plat (fetch_repos net) baseUrl tok (map fst answers @ userPages)
              (org_names allOrgs) runs"
        by (simp add: sources_yield_def)
      from orgs_repos_yields[OF this] obtain thrown where
        "orgs_repos plat (fetch_repos net) baseUrl tok allOrgs
           (acc_of (map fst answers @ userPages)) =
         Some (thrown, acc_of ((map fst answers @ userPages) @ concat (map fst runs)))"
        by blast
      then show ?thesis
        using s usr o Inr False by (simp add: fetchAllRepos_def all_pages_def)
    qed
  qed
qed

text \<open>
  Conversely, what a loop returns is the accumulator of pages that its source has
  returned.
\<close>

lemma search_loop_complete:
  assumes "search_loop plat fetch baseUrl tok page prevCount acc = Some out"
  shows "\<forall>before acc'. prevCount = distinct_ids before \<and> acc = acc_of before \<and> out = Inr acc' \<longrightarrow>
           (\<exists>u answers. URL_new plat (normalizeBaseUrl baseUrl @ ''/api/v1/repos/search'') = Inr u
              \<and> search_yields_from (\<lambda>page. fetch (search_request plat u tok page)) page before answers
              \<and> acc' = acc_of (before @ map fst answers))"
proof (rule search_loop.raw_induct[where P = "\<lambda>plat fetch baseUrl tok page prevCount acc out.
    \<forall>before acc'. prevCount = distinct_ids before \<and> acc = acc_of before \<and> out = Inr acc' \<longrightarrow>
           (\<exists>u answers. URL_new plat (normalizeBaseUrl baseUrl @ ''/api/v1/repos/search'') = Inr u
              \<and> search_yields_from (\<lambda>page. fetch (search_request plat u tok page)) page before answers
              \<and> acc' = acc_of (before @ map fst answers))", OF _ assms], goal_cases)
  case (1 loop plat fetch baseUrl tok page prevCount acc out)
  show ?case
  proof (intro allI impI, elim conjE)
    fix before acc'
    assume pc: "prevCount = distinct_ids before" and acc: "acc = acc_of before"
      and out: "out = Inr acc'"
    from 1(2) out obtain u where u: "URL_new plat (normalizeBaseUrl baseUrl @ ''/api/v1/repos/search'') = Inr u"
      by (cases "URL_new plat (normalizeBaseUrl baseUrl @ ''/api/v1/repos/search'')") auto
    let ?req = "search_request plat u tok page"
    from 1(2) out u obtain response where r: "fetch ?req = Inr response"
      by (cases "fetch ?req") auto
    from 1(2) out u r have okr: "ok response"
      by (cases "ok response") auto
    from 1(2) out u r okr obtain j where j: "body_json response = Inr j"
      by (cases "body_json response") auto
    from 1(2) out u r okr j obtain json_data t where so: "j = SearchObject json_data t"
      by (cases j) auto
    define d where "d = (case json_data of Some d \<Rightarrow> d | None \<Rightarrow> [])"
    have ans: "search_answer (fetch ?req) = Some (d, t)"
      by (simp add: r okr j so d_def)
    show "\<exists>u answers. URL_new plat (normalizeBaseUrl baseUrl @ ''/api/v1/repos/search'') = Inr u
              \<and> search_yields_from (\<lambda>page. fetch (search_request plat u tok page)) page before answers
              \<and> acc' = acc_of (before @ map fst answers)"
    proof (cases "search_continues before d t")
      case False
      with 1(2) out u r okr j so have "acc' = acc_of (before @ [d])"
        by (auto simp: Let_def d_def[symmetric] acc pc add_page_acc_of acc_of_length
            search_continues_def split: if_splits option.splits)
      then show ?thesis
        using u ans False by (intro exI[of _ u] exI[of _ "[(d, t)]"]) simp
    next
      case True
      with 1(2) out u r okr j so
      have "loop plat fetch baseUrl tok (page + 1) (distinct_ids (before @ [d]))
              (acc_of (before @ [d])) = Some (Inr acc')"
        by (auto simp: Let_def d_def[symmetric] acc pc add_page_acc_of acc_of_length
            search_continues_def split: if_splits option.splits)
      from 1(1)[OF this] obtain u' answers where
        u': "URL_new plat (normalizeBaseUrl baseUrl @ ''/api/v1/repos/search'') = Inr u'"
        and y: "search_yields_from (\<lambda>page. fetch (search_request plat u' tok page)) (page + 1)
                  (before @ [d]) answers"
        and a': "acc' = acc_of ((before @ [d]) @ map fst answers)"
        by blast
      from u u' have "u' = u" by simp
      then show ?thesis
        using u ans True y a' by (intro exI[of _ u] exI[of _ "(d, t) # answers"]) simp
    qed
  qed
qed


lemma user_repos_loop_complete:
  assumes "user_repos_loop plat fetch baseUrl tok page acc = Some out"
  shows "\<forall>before acc'. acc = acc_of before \<and> out = Inr acc' \<longrightarrow>
           (\<exists>u ps. URL_new plat (normalizeBaseUrl baseUrl @ ''/api/v1/user/repos'') = Inr u
              \<and> source_yields_from (\<lambda>page. fetch (repos_request plat u tok page)) page before ps False
              \<and> acc' = acc_of (before @ ps))"
proof (rule user_repos_loop.raw_induct[where P = "\<lambda>plat fetch baseUrl tok page acc out.
    \<forall>before acc'. acc = acc_of before \<and> out = Inr acc' \<longrightarrow>
           (\<exists>u ps. URL_new plat (normalizeBaseUrl baseUrl @ ''/api/v1/user/repos'') = Inr u
              \<and> source_yields_from (\<lambda>page. fetch (repos_request plat u tok page)) page before ps False
              \<and> acc' = acc_of (before @ ps))", OF _ assms], goal_cases)
  case (1 loop plat fetch baseUrl tok page acc out)
  show ?case
  proof (intro allI impI, elim conjE)
    fix before acc'
    assume acc: "acc = acc_of before" and out: "out = Inr acc'"
    from 1(2) out obtain u where
      u: "URL_new plat (normalizeBaseUrl baseUrl @ ''/api/v1/user/repos'') = Inr u"
      by (cases "URL_new plat (normalizeBaseUrl baseUrl @ ''/api/v1/user/repos'')") auto
    let ?req = "repos_request plat u tok page"
    let ?goal = "\<exists>u ps. URL_new plat (normalizeBaseUrl baseUrl @ ''/api/v1/user/repos'') = Inr u
              \<and> source_yields_from (\<lambda>page. fetch (repos_request plat u tok page)) page before ps False
              \<and> acc' = acc_of (before @ ps)"
    from 1(2) out u obtain response where r: "fetch ?req = Inr response"
      by (cases "fetch ?req") auto
    have ended: ?goal if "ends_source (fetch ?req)" and "acc' = acc"
      using that u acc by (intro exI[of _ u] exI[of _ "[]"]) simp
    show ?goal
    proof (cases "ok response")
      case False
      with 1(2) out u r show ?thesis
        by (intro ended) (simp_all add: ends_source_def)
    next
      case True
      from 1(2) out u r True obtain j where j: "body_json response = Inr j"
        by (cases "body_json response") auto
      show ?thesis
      proof (cases j)
        case JNotArray
        with 1(2) out u r True j show ?thesis
          by (intro ended) (simp_all add: ends_source_def)
      next
        case (JArray d)
        show ?thesis
        proof (cases "d = []")
          case empty: True
          with 1(2) out u r True j JArray show ?thesis
            by (intro ended) (simp_all add: ends_source_def)
        next
          case ne: False
          have p: "page_of (fetch ?req) = Some d"
            by (simp add: r True j JArray)
          show ?thesis
          proof (cases "distinct_ids (before @ [d]) = distinct_ids before")
            case same: True
            with 1(2) out u r True j JArray ne have "acc' = acc_of (before @ [d])"
              by (simp add: Let_def acc add_page_acc_of acc_of_length)
            then show ?thesis
              using u p ne same by (intro exI[of _ u] exI[of _ "[d]"]) simp
          next
            case new: False
            with 1(2) out u r True j JArray ne
            have "loop plat fetch baseUrl tok (page + 1) (acc_of (before @ [d])) = Some (Inr acc')"
              by (simp add: Let_def acc add_page_acc_of acc_of_length)
            from 1(1)[OF this] obtain u' ps where
              u': "URL_new plat (normalizeBaseUrl baseUrl @ ''/api/v1/user/repos'') = Inr u'"
              and y: "source_yields_from (\<lambda>page. fetch (repos_request plat u' tok page)) (page + 1)
                        (before @ [d]) ps False"
              and a': "acc' = acc_of ((before @ [d]) @ ps)"
              by blast
            from u u' have "u' = u" by simp
            then show ?thesis
              using u p ne new y a' by (intro exI[of _ u] exI[of _ "d # ps"]) simp
          qed
        qed
      qed
    qed
  qed
qed

text \<open>What a run of an organization's loop from \<open>page\<close> on has returned.\<close>

lemma org_repos_loop_complete:
  assumes "org_repos_loop plat fetch baseUrl tok orgName page acc = Some out"
  shows "\<forall>before. acc = acc_of before \<longrightarrow>
           (case URL_new plat (normalizeBaseUrl baseUrl @ ''/api/v1/orgs/'' @ orgName @ ''/repos'') of
              Inl m \<Rightarrow> fst out \<noteq> None \<and> snd out = acc
            | Inr u \<Rightarrow>
                \<exists>ps. source_yields_from (\<lambda>page. fetch (repos_request plat u tok page)) page before ps
                       (fst out \<noteq> None)
                     \<and> snd out = acc_of (before @ ps))"
proof (rule org_repos_loop.raw_induct[where P = "\<lambda>plat fetch baseUrl tok orgName page acc out.
    \<forall>before. acc = acc_of before \<longrightarrow>
           (case URL_new plat (normalizeBaseUrl baseUrl @ ''/api/v1/orgs/'' @ orgName @ ''/repos'') of
              Inl m \<Rightarrow> fst out \<noteq> None \<and> snd out = acc
            | Inr u \<Rightarrow>
                \<exists>ps. source_yields_from (\<lambda>page. fetch (repos_request plat u tok page)) page before ps
                       (fst out \<noteq> None)
                     \<and> snd out = acc_of (before @ ps))", OF _ assms], goal_cases)
  case (1 loop plat fetch baseUrl tok orgName page acc out)
  show ?case
  proof (intro allI impI)
    fix before
    assume acc: "acc = acc_of before"
    let ?new = "URL_new plat (normalizeBaseUrl baseUrl @ ''/api/v1/orgs/'' @ orgName @ ''/repos'')"
    show "case ?new of
              Inl m \<Rightarrow> fst out \<noteq> None \<and> snd out = acc
            | Inr u \<Rightarrow>
                \<exists>ps. source_yields_from (\<lambda>page. fetch (repos_request plat u tok page)) page before ps
                       (fst out \<noteq> None)
                     \<and> snd out = acc_of (before @ ps)"
    proof (cases ?new)
      case (Inl m)
      with 1(2) show ?thesis by auto
    next
      case (Inr u)
      let ?req = "repos_request plat u tok page"
      let ?goal = "\<exists>ps. source_yields_from (\<lambda>page. fetch (repos_request plat u tok page)) page before ps
                       (fst out \<noteq> None)
                     \<and> snd out = acc_of (before @ ps)"
      have ended: ?goal if "ends_source (fetch ?req)" and "out = (None, acc)"
        using that acc by (intro exI[of _ "[]"]) simp
      have threw: ?goal if "throws_source (fetch ?req)" and "fst out \<noteq> None" and "snd out = acc"
        using that acc by (intro exI[of _ "[]"]) simp
      have ?goal
      proof (cases "fetch ?req")
        case (Inl m)
        with 1(2) Inr show ?thesis
          by (intro threw) (auto simp: throws_source_def)
      next
        case r: (Inr response)
        show ?thesis
        proof (cases "ok response")
          case False
          with 1(2) Inr r show ?thesis
            by (intro ended) (auto simp: ends_source_def)
        next
          case True
          show ?thesis
          proof (cases "body_json response")
            case (Inl m)
            with 1(2) Inr r True show ?thesis
              by (intro threw) (auto simp: throws_source_def)
          next
            case j: (Inr j)
            show ?thesis
            proof (cases j)
              case JNotArray
              with 1(2) Inr r True j show ?thesis
                by (intro ended) (auto simp: ends_source_def)
            next
              case (JArray d)
              show ?thesis
              proof (cases "d = []")
                case empty: True
                with 1(2) Inr r True j JArray show ?thesis
                  by (intro ended) (auto simp: ends_source_def)
              next
                case ne: False
                have p: "page_of (fetch ?req) = Some d"
                  by (simp add: r True j JArray)
                show ?thesis
                proof (cases "distinct_ids (before @ [d]) = distinct_ids before")
                  case same: True
                  with 1(2) Inr r True j JArray ne have "out = (None, acc_of (before @ [d]))"
                    by (auto simp: Let_def acc add_page_acc_of acc_of_length)
                  then show ?thesis
                    using p ne same by (intro exI[of _ "[d]"]) simp
                next
                  case new: False
                  with 1(2) Inr r True j JArray ne
                  have "loop plat fetch baseUrl tok orgName (page + 1) (acc_of (before @ [d])) = Some out"
                    by (auto simp: Let_def acc add_page_acc_of acc_of_length)
                  from 1(1)[OF this] Inr obtain ps where
                    y: "source_yields_from (\<lambda>page. fetch (repos_request plat u tok page)) (page + 1)
                          (before @ [d]) ps (fst out \<noteq> None)"
                    and a': "snd out = acc_of ((before @ [d]) @ ps)"
                    by auto
                  then show ?thesis
                    using p ne new by (intro exI[of _ "d # ps"]) simp
                qed
              qed
            qed
          qed
        qed
      qed
      then show ?thesis using Inr by simp
    qed
  qed
qed

lemma org_repos_loop_org_yields_complete:
  assumes "org_repos_loop plat fetch baseUrl tok orgName 1 (acc_of before) = Some (thrown, acc')"
  shows "\<exists>ps. org_yields plat fetch baseUrl tok orgName before ps (thrown \<noteq> None)
             \<and> acc' = acc_of (before @ ps)"
proof (cases "URL_new plat (normalizeBaseUrl baseUrl @ ''/api/v1/orgs/'' @ orgName @ ''/repos'')")
  case (Inl m)
  with org_repos_loop_complete[OF assms] show ?thesis
    by (intro exI[of _ "[]"]) (simp add: org_yields_def)
next
  case (Inr u)
  with org_repos_loop_complete[OF assms] show ?thesis
    by (auto simp: org_yields_def)
qed

lemma orgs_repos_complete:
  assumes "orgs_repos plat fetch baseUrl tok orgs (acc_of before) = Some (thrown, acc')"
  shows "\<exists>runs. orgs_yield plat fetch baseUrl tok before (org_names orgs) runs
               \<and> acc' = acc_of (before @ concat (map fst runs))"
  using assms
proof (induction orgs arbitrary: before)
  case Nil
  then show ?case by (intro exI[of _ "[]"]) (simp add: org_names_def)
next
  case (Cons org rest)
  show ?case
  proof (cases "truthy (js_or (username org) (org_name org))")
    case False
    with Cons.prems have "orgs_repos plat fetch baseUrl tok rest (acc_of before) = Some (thrown, acc')"
      by (simp add: Let_def)
    from Cons.IH[OF this] show ?thesis
      using False by (simp add: org_names_def)
  next
    case True
    let ?name = "the (js_or (username org) (org_name org))"
    have names: "org_names (org # rest) = ?name # org_names rest"
      using True by (simp add: org_names_def)
    from Cons.prems True obtain thrown1 acc1 where
      loop: "org_repos_loop plat fetch baseUrl tok ?name 1 (acc_of before) = Some (thrown1, acc1)"
      by (auto simp: Let_def split: option.splits)
    from org_repos_loop_org_yields_complete[OF loop] obtain ps where
      oy: "org_yields plat fetch baseUrl tok ?name before ps (thrown1 \<noteq> None)"
      and acc1: "acc1 = acc_of (before @ ps)"
      by blast
    show ?thesis
    proof (cases thrown1)
      case (Some e)
      with Cons.prems True loop have "acc' = acc1"
        by (simp add: Let_def)
      then show ?thesis
        using oy acc1 Some names by (intro exI[of _ "[(ps, True)]"]) simp
    next
      case None
      with Cons.prems True loop acc1
      have "orgs_repos plat fetch baseUrl tok rest (acc_of (before @ ps)) = Some (thrown, acc')"
        by (simp add: Let_def)
      from Cons.IH[OF this] obtain runs where
        "orgs_yield plat fetch baseUrl tok (before @ ps) (org_names rest) runs"
        and "acc' = acc_of ((before @ ps) @ concat (map fst runs))"
        by blast
      then show ?thesis
        using oy None names by (intro exI[of _ "(ps, False) # runs"]) simp
    qed
  qed
qed

lemma fetchAllRepos_complete:
  assumes "fetchAllRepos plat net baseUrl tok = Some (Inr acc)"
  shows "\<exists>answers userPages runs. sources_yield plat net baseUrl tok answers userPages runs
           \<and> acc = acc_of (all_pages answers userPages runs)"
proof -
  from assms obtain acc1 where
    s: "search_loop plat (fetch_search net) baseUrl tok 1 0 empty_acc = Some (Inr acc1)"
    by (auto simp: fetchAllRepos_def split: option.splits sum.splits if_splits prod.splits)
  have "0 = distinct_ids [] \<and> empty_acc = acc_of [] \<and> Inr acc1 = (Inr acc1 :: error + repo_acc)"
    by (simp add: distinct_ids_def acc_of_Nil)
  with search_loop_complete[OF s] obtain us answers where
    us: "URL_new plat (normalizeBaseUrl baseUrl @ ''/api/v1/repos/search'') = Inr us"
    and sy: "search_yields_from (\<lambda>page. fetch_search net (search_request plat us tok page)) 1 []
               answers"
    and acc1: "acc1 = acc_of (map fst answers)"
    by fastforce
  have search: "search_yields plat (fetch_search net) baseUrl tok answers"
    using us sy by (simp add: search_yields_def)
  show ?thesis
  proof (cases "tok = []")
    case True
    with assms s have "acc = acc1" by (simp add: fetchAllRepos_def)
    then show ?thesis
      using search True acc1
      by (intro exI[of _ answers] exI[of _ "[]"]) (simp add: sources_yield_def all_pages_def)
  next
    case False
    from assms s False obtain acc2 where
      u: "user_repos_loop plat (fetch_repos net) baseUrl tok 1 acc1 = Some (Inr acc2)"
      by (auto simp: fetchAllRepos_def split: option.splits sum.splits prod.splits)
    from user_repos_loop_complete[OF u] acc1 obtain uu userPages where
      uu: "URL_new plat (normalizeBaseUrl baseUrl @ ''/api/v1/user/repos'') = Inr uu"
      and uy: "source_yields_from (\<lambda>page. fetch_repos net (repos_request plat uu tok page)) 1
                 (map fst answers) userPages False"
      and acc2: "acc2 = acc_of (map fst answers @ userPages)"
      by blast
    have user: "user_yields plat (fetch_repos net) baseUrl tok (map fst answers) userPages"
      using uu uy by (simp add: user_yields_def)
    from assms s u False obtain listed where
      o: "orgs_loop (fetch_orgs net) baseUrl tok 1 [] = Some listed"
      by (auto simp: fetchAllRepos_def split: option.splits sum.splits prod.splits)
    show ?thesis
    proof (cases listed)
      case (Inl e)
      with assms s u o False have "acc = acc2" by (simp add: fetchAllRepos_def)
      then show ?thesis
        using search user o Inl False acc2
        by (intro exI[of _ answers] exI[of _ userPages] exI[of _ "[]"])
          (simp add: sources_yield_def all_pages_def)
    next
      case (Inr allOrgs)
      from assms s u o Inr False acc2 obtain thrown where
        "orgs_repos plat (fetch_repos net) baseUrl tok allOrgs
           (acc_of (map fst answers @ userPages)) = Some (thrown, acc)"
        by (auto simp: fetchAllRepos_def split: option.splits sum.splits prod.splits)
      from orgs_repos_complete[OF this] obtain runs where
        "orgs_yield plat (fetch_repos net) baseUrl tok (map fst answers @ userPages)
           (org_names allOrgs) runs"
        and "acc = acc_of ((map fst answers @ userPages) @ concat (map fst runs))"
        by blast
      then show ?thesis
        using search user o Inr False
        by (intro exI[of _ answers] exI[of _ userPages] exI[of _ runs])
          (simp add: sources_yield_def all_pages_def)
    qed
  qed
qed

text \<open>
  On the server \<^verbatim>\<open>https://g\<close> the search returns a page with the repositories 1, 2 and 1
  again and then an empty page, the user's repositories are one page with 2 and 3, and
  the organization \<^verbatim>\<open>x\<close> returns one page with repository 1.
\<close>

lemma ex_search_yields:
  "search_yields ex_plat ex_fetch_search ''https://g'' ''t''
     [([ex_repo 1 ''o/a'' ''search'', ex_repo 2 ''o/b'' ''search'',
        ex_repo 1 ''o/a'' ''search again''], None),
      ([], None)]"
  by (simp add: search_yields_def normalizeBaseUrl_g ex_url_simps search_request_def
      ex_fetch_search_def ok_response_def search_continues_def distinct_ids_def)

lemma ex_user_yields:
  "user_yields ex_plat ex_fetch_repos ''https://g'' ''t''
     [[ex_repo 1 ''o/a'' ''search'', ex_repo 2 ''o/b'' ''search'',
       ex_repo 1 ''o/a'' ''search again''], []]
     [[ex_repo 2 ''o/b'' ''user'', ex_repo 3 ''o/c'' ''user'']]"
  by (simp add: user_yields_def normalizeBaseUrl_g ex_url_simps repos_request_def
      ex_fetch_repos_def ok_response_def ends_source_def distinct_ids_def)

lemma ex_orgs_yield:
  "orgs_yield ex_plat ex_fetch_repos ''https://g'' ''t''
     [[ex_repo 1 ''o/a'' ''search'', ex_repo 2 ''o/b'' ''search'',
       ex_repo 1 ''o/a'' ''search again''], [],
      [ex_repo 2 ''o/b'' ''user'', ex_repo 3 ''o/c'' ''user'']]
     [''x'']
     [([[ex_repo 1 ''o/a'' ''org'']], False)]"
  by (simp add: org_yields_def normalizeBaseUrl_g ex_url_simps repos_request_def
      ex_fetch_repos_def ok_response_def distinct_ids_def)

lemma ex_sources_yield:
  "sources_yield ex_plat ex_net ''https://g'' ''t''
     [([ex_repo 1 ''o/a'' ''search'', ex_repo 2 ''o/b'' ''search'',
        ex_repo 1 ''o/a'' ''search again''], None),
      ([], None)]
     [[ex_repo 2 ''o/b'' ''user'', ex_repo 3 ''o/c'' ''user'']]
     [([[ex_repo 1 ''o/a'' ''org'']], False)]"
  using ex_search_yields ex_user_yields ex_orgs_yield
  by (simp add: sources_yield_def ex_net_simps ex_orgs org_names_def js_or_def truthy_def)

text \<open>
  C3. Let the three sources return pages, possibly overlapping: the search the pages
  \<open>answers\<close>, then, with an access token, the user's repositories the pages \<open>userPages\<close>
  and the organizations the pages of \<open>runs\<close>. Then \<^verbatim>\<open>fetchAllRepos\<close> returns an array that
  holds every repository identifier of these pages exactly once and no other element;
  the element it holds for an identifier is the first one with this identifier in the
  sequence of all the pages, taken in the order search, user, organizations and page
  by page. So the array is the list of the earliest copies: a later occurrence of an
  identifier adds nothing and replaces nothing. And every array that \<^verbatim>\<open>fetchAllRepos\<close>
  returns is obtained in this way, from the pages that the sources have returned.
\<close>

theorem fetchAllRepos_dedup:
  "(sources_yield plat net baseUrl tok answers userPages runs \<longrightarrow>
      (\<exists>acc. fetchAllRepos plat net baseUrl tok = Some (Inr acc)
         \<and> distinct (map repo_id (repos acc))
         \<and> (\<forall>r\<in>set (concat (all_pages answers userPages runs)).
               length (filter (\<lambda>x. repo_id x = repo_id r) (repos acc)) = 1)
         \<and> (\<forall>r\<in>set (repos acc).
               find (\<lambda>x. repo_id x = repo_id r) (concat (all_pages answers userPages runs)) =
               Some r)
         \<and> repos acc = earliest_copies (concat (all_pages answers userPages runs))))
   \<and> (fetchAllRepos plat net baseUrl tok = Some (Inr returned) \<longrightarrow>
        distinct (map repo_id (repos returned))
        \<and> (\<exists>answers userPages runs.
              sources_yield plat net baseUrl tok answers userPages runs
              \<and> repos returned = earliest_copies (concat (all_pages answers userPages runs))))"
proof (intro conjI impI)
  assume yields: "sources_yield plat net baseUrl tok answers userPages runs"
  let ?pages = "concat (all_pages answers userPages runs)"
  have "fetchAllRepos plat net baseUrl tok =
        Some (Inr (acc_of (all_pages answers userPages runs)))"
    using yields by (rule fetchAllRepos_yields)
  moreover have "repos (acc_of (all_pages answers userPages runs)) = earliest_copies ?pages"
    by (simp add: acc_of_def)
  moreover have "distinct (map repo_id (earliest_copies ?pages))"
    by (rule earliest_copies_distinct)
  moreover have "\<forall>r\<in>set ?pages.
      length (filter (\<lambda>x. repo_id x = repo_id r) (earliest_copies ?pages)) = 1"
    using earliest_copies_once by blast
  moreover have "\<forall>r\<in>set (earliest_copies ?pages).
      find (\<lambda>x. repo_id x = repo_id r) ?pages = Some r"
    using earliest_copies_find by blast
  ultimately show "\<exists>acc. fetchAllRepos plat net baseUrl tok = Some (Inr acc)
         \<and> distinct (map repo_id (repos acc))
         \<and> (\<forall>r\<in>set ?pages. length (filter (\<lambda>x. repo_id x = repo_id r) (repos acc)) = 1)
         \<and> (\<forall>r\<in>set (repos acc). find (\<lambda>x. repo_id x = repo_id r) ?pages = Some r)
         \<and> repos acc = earliest_copies ?pages"
    by (intro exI[of _ "acc_of (all_pages answers userPages runs)"]) simp
next
  assume returns: "fetchAllRepos plat net baseUrl tok = Some (Inr returned)"
  from fetchAllRepos_complete[OF returns] obtain answers userPages runs where
    yields: "sources_yield plat net baseUrl tok answers userPages runs"
    and acc: "returned = acc_of (all_pages answers userPages runs)"
    by blast
  have rep: "repos returned = earliest_copies (concat (all_pages answers userPages runs))"
    by (simp add: acc acc_of_def)
  show "distinct (map repo_id (repos returned))"
    by (simp only: rep earliest_copies_distinct)
  show "\<exists>answers userPages runs.
          sources_yield plat net baseUrl tok answers userPages runs
          \<and> repos returned = earliest_copies (concat (all_pages answers userPages runs))"
    using yields rep by blast
qed

theorem fetchAllRepos_dedup_witness:
  "sources_yield ex_plat ex_net ''https://g'' ''t''
     [([ex_repo 1 ''o/a'' ''search'', ex_repo 2 ''o/b'' ''search'',
        ex_repo 1 ''o/a'' ''search again''], None),
      ([], None)]
     [[ex_repo 2 ''o/b'' ''user'', ex_repo 3 ''o/c'' ''user'']]
     [([[ex_repo 1 ''o/a'' ''org'']], False)]
   \<and> fetchAllRepos ex_plat ex_net ''https://g'' ''t'' =
       Some (Inr \<lparr>repos = [ex_repo 1 ''o/a'' ''search'', ex_repo 2 ''o/b'' ''search'',
                           ex_repo 3 ''o/c'' ''user''],
                  seenIds = {3, 2, 1}\<rparr>)
   \<and> earliest_copies
        [ex_repo 1 ''o/a'' ''search'', ex_repo 2 ''o/b'' ''search'',
         ex_repo 1 ''o/a'' ''search again'', ex_repo 2 ''o/b'' ''user'',
         ex_repo 3 ''o/c'' ''user'', ex_repo 1 ''o/a'' ''org''] =
       [ex_repo 1 ''o/a'' ''search'', ex_repo 2 ''o/b'' ''search'', ex_repo 3 ''o/c'' ''user'']
   \<and> distinct (map repo_id (repos ex_acc))
   \<and> (\<exists>answers userPages runs.
         sources_yield ex_plat ex_net ''https://g'' ''t'' answers userPages runs
         \<and> repos ex_acc = earliest_copies (concat (all_pages answers userPages runs)))"
proof -
  note inst = fetchAllRepos_dedup[of ex_plat ex_net "''https://g''" "''t''"
       "[([ex_repo 1 ''o/a'' ''search'', ex_repo 2 ''o/b'' ''search'',
           ex_repo 1 ''o/a'' ''search again''], None),
         ([], None)]"
       "[[ex_repo 2 ''o/b'' ''user'', ex_repo 3 ''o/c'' ''user'']]"
       "[([[ex_repo 1 ''o/a'' ''org'']], False)]" ex_acc]
  from inst ex_sources_yield obtain acc where
    ret: "fetchAllRepos ex_plat ex_net ''https://g'' ''t'' = Some (Inr acc)"
    and rep: "repos acc = earliest_copies (concat (all_pages
       [([ex_repo 1 ''o/a'' ''search'', ex_repo 2 ''o/b'' ''search'',
          ex_repo 1 ''o/a'' ''search again''], None),
        ([], None)]
       [[ex_repo 2 ''o/b'' ''user'', ex_repo 3 ''o/c'' ''user'']]
       [([[ex_repo 1 ''o/a'' ''org'']], False)]))"
    by blast
  from ret have acc: "acc = ex_acc"
    by (simp add: ex_fetchAllRepos)
  from inst ex_fetchAllRepos
  have returned: "distinct (map repo_id (repos ex_acc))
    \<and> (\<exists>answers userPages runs.
         sources_yield ex_plat ex_net ''https://g'' ''t'' answers userPages runs
         \<and> repos ex_acc = earliest_copies (concat (all_pages answers userPages runs)))"
    by blast
  have "earliest_copies
        [ex_repo 1 ''o/a'' ''search'', ex_repo 2 ''o/b'' ''search'',
         ex_repo 1 ''o/a'' ''search again'', ex_repo 2 ''o/b'' ''user'',
         ex_repo 3 ''o/c'' ''user'', ex_repo 1 ''o/a'' ''org''] =
       [ex_repo 1 ''o/a'' ''search'', ex_repo 2 ''o/b'' ''search'', ex_repo 3 ''o/c'' ''user'']"
    using rep by (simp add: acc ex_acc_def all_pages_def)
  then show ?thesis
    using ex_sources_yield ex_fetchAllRepos returned
    by (simp only: ex_acc_def)
qed

section \<open>Properties of the check-status enrichment\<close>

lemma owner_and_name_empty [simp]: "owner_and_name [] = None"
  by (simp add: owner_and_name_def)

lemma getRepoOwnerAndName_sources:
  "getRepoOwnerAndName plat pull = None \<or>
   getRepoOwnerAndName plat pull = source_owner_and_name (repository_full_name pull) \<or>
   getRepoOwnerAndName plat pull = source_owner_and_name (base_repo_full_name pull) \<or>
   getRepoOwnerAndName plat pull =
     source_owner_and_name (inferRepoFullNameFromPullUrl plat (html_url pull))"
  by (auto simp: getRepoOwnerAndName_def getPullRepoFullName_def js_or_def truthy_def
      source_owner_and_name_def Let_def split: option.splits)

lemma status_map_fold:
  assumes "\<And>r next. f r next = next(fst r \<mapsto> snd r)"
  shows "fold f rs m = m ++ map_of (rev rs)"
proof (induction rs arbitrary: m)
  case Nil
  then show ?case by simp
next
  case (Cons r rs)
  have "fold f (r # rs) m = fold f rs (f r m)"
    by simp
  also have "\<dots> = fold f rs (m(fst r \<mapsto> snd r))"
    by (simp only: assms)
  also have "\<dots> = m(fst r \<mapsto> snd r) ++ map_of (rev rs)"
    by (rule Cons.IH)
  also have "\<dots> = m ++ map_of (rev (r # rs))"
    by (cases r) (simp add: map_of_append map_add_assoc [symmetric] map_add_upd_left)
  finally show ?case .
qed

lemma status_map_eq: "status_map rs = map_of (rev rs)"
  unfolding status_map_def
  by (subst status_map_fold) simp_all

lemma status_map_dom:
  assumes "k \<in> fst ` set rs"
  shows "\<exists>v. status_map rs k = Some v \<and> (k, v) \<in> set rs"
proof -
  from assms have "map_of (rev rs) k \<noteq> None"
    by (simp add: map_of_eq_None_iff)
  then obtain v where v: "map_of (rev rs) k = Some v" by blast
  then have "(k, v) \<in> set rs"
    by (auto dest: map_of_SomeD)
  with v show ?thesis by (simp add: status_map_eq)
qed

lemma status_map_distinct:
  assumes "distinct (map fst rs)" and "(k, v) \<in> set rs"
  shows "status_map rs k = Some v"
  using assms by (simp add: status_map_eq distinct_rev rev_map [symmetric])

lemma enrich_pull_id [simp]:
  "fst (snd (enrich_pull plat fetch baseUrl tok pull)) = pr_id pull"
  by (simp add: enrich_pull_def Let_def split: prod.splits sum.splits option.splits)

lemma enrich_pull_state:
  "snd (snd (enrich_pull plat fetch baseUrl tok pull)) = ''unknown'' \<or>
   (\<exists>req response. req \<in> set (fst (enrich_pull plat fetch baseUrl tok pull))
      \<and> fetch req = Inr response \<and> ok response
      \<and> body_json response =
          Inr (StatusObject (Some (snd (snd (enrich_pull plat fetch baseUrl tok pull))))))"
  by (auto simp: enrich_pull_def fetchCommitStatus_def Let_def
      split: prod.splits sum.splits option.splits if_splits status_json.splits)

text \<open>
  C7. A pull request without a head commit SHA, and one for which none of the three
  sources (the embedded repository reference, the repository of the base branch, the
  path of the web URL) gives an owner and a name, gets the entry \<^verbatim>\<open>unknown\<close> and sends no
  request. A pull request whose status fetch is made and fails gets the entry
  \<^verbatim>\<open>unknown\<close> too. The entry of a pull request depends on the answers to its own
  requests only, so the failure of one fetch changes no other entry; and when the
  identifiers of the list are distinct, the mapping holds each pull request's own
  entry.
\<close>

theorem enrich_unknown:
  "(\<not> truthy (head_sha pull)
      \<or> (source_owner_and_name (repository_full_name pull) = None
          \<and> source_owner_and_name (base_repo_full_name pull) = None
          \<and> source_owner_and_name (inferRepoFullNameFromPullUrl plat (html_url pull)) = None) \<longrightarrow>
      enrich_pull plat fetch baseUrl tok pull = ([], (pr_id pull, ''unknown'')))
   \<and> (\<forall>owner name sha err.
        getRepoOwnerAndName plat pull = Some (owner, name) \<and> head_sha pull = Some sha
        \<and> sha \<noteq> [] \<and> fetchCommitStatus fetch baseUrl owner name sha tok = Inl err \<longrightarrow>
        enrich_pull plat fetch baseUrl tok pull =
          ([status_request baseUrl owner name sha tok], (pr_id pull, ''unknown'')))
   \<and> (\<forall>fetch'. (\<forall>req\<in>set (fst (enrich_pull plat fetch baseUrl tok pull)). fetch' req = fetch req) \<longrightarrow>
        enrich_pull plat fetch' baseUrl tok pull = enrich_pull plat fetch baseUrl tok pull)
   \<and> (\<forall>all. pull \<in> set all \<and> distinct (map pr_id all) \<longrightarrow>
        snd (enrich_statuses plat fetch baseUrl tok all) (pr_id pull) =
          Some (snd (snd (enrich_pull plat fetch baseUrl tok pull))))"
proof -
  have unresolved: "getRepoOwnerAndName plat pull = None"
    if "source_owner_and_name (repository_full_name pull) = None"
      "source_owner_and_name (base_repo_full_name pull) = None"
      "source_owner_and_name (inferRepoFullNameFromPullUrl plat (html_url pull)) = None"
    using that getRepoOwnerAndName_sources[of plat pull] by auto
  have skip: "enrich_pull plat fetch baseUrl tok pull = ([], (pr_id pull, ''unknown''))"
    if "\<not> truthy (head_sha pull) \<or> getRepoOwnerAndName plat pull = None"
    using that by (auto simp: enrich_pull_def Let_def)
  have failed: "enrich_pull plat fetch baseUrl tok pull =
      ([status_request baseUrl owner name sha tok], (pr_id pull, ''unknown''))"
    if "getRepoOwnerAndName plat pull = Some (owner, name)" "head_sha pull = Some sha" "sha \<noteq> []"
      "fetchCommitStatus fetch baseUrl owner name sha tok = Inl err"
    for owner name sha err
    using that by (simp add: enrich_pull_def Let_def truthy_def)
  have own: "enrich_pull plat fetch' baseUrl tok pull = enrich_pull plat fetch baseUrl tok pull"
    if "\<forall>req\<in>set (fst (enrich_pull plat fetch baseUrl tok pull)). fetch' req = fetch req"
    for fetch'
    using that
    by (auto simp: enrich_pull_def fetchCommitStatus_def Let_def split: prod.splits)
  have mapped: "snd (enrich_statuses plat fetch baseUrl tok all) (pr_id pull) =
      Some (snd (snd (enrich_pull plat fetch baseUrl tok pull)))"
    if "pull \<in> set all" "distinct (map pr_id all)" for all
  proof -
    let ?rs = "map snd (map (enrich_pull plat fetch baseUrl tok) all)"
    have d: "distinct (map fst ?rs)"
      using that(2) by (simp add: comp_def)
    have "(pr_id pull, snd (snd (enrich_pull plat fetch baseUrl tok pull))) \<in> set ?rs"
    proof -
      have "snd (enrich_pull plat fetch baseUrl tok pull) \<in> set ?rs"
        using that(1) by auto
      moreover have "snd (enrich_pull plat fetch baseUrl tok pull) =
          (pr_id pull, snd (snd (enrich_pull plat fetch baseUrl tok pull)))"
        by (simp add: prod_eq_iff)
      ultimately show ?thesis by simp
    qed
    from status_map_distinct[OF d this] show ?thesis
      by (simp add: enrich_statuses_def Let_def)
  qed
  show ?thesis
    using unresolved skip failed own mapped by blast
qed


lemma ex_infer:
  "inferRepoFullNameFromPullUrl ex_plat ''https://g/o/a/pulls/1'' = Some ''o/a''"
  by (simp add: inferRepoFullNameFromPullUrl_def ex_plat_def ex_parse_query_def Let_def)

lemma ex_getRepoOwnerAndName:
  "getRepoOwnerAndName ex_plat ((ex_pull i author reviewers)\<lparr>head_sha := sha\<rparr>) = Some (''o'', ''a'')"
  by (simp add: getRepoOwnerAndName_def getPullRepoFullName_def js_or_def truthy_def
      ex_pull_def ex_infer ex_owner_and_name Let_def)

lemma ex_status_bad:
  "fetchCommitStatus ex_fetch_status ''https://g'' ''o'' ''a'' ''bad'' ''t'' =
   Inl (GiteaApiError 500 ''Gitea API error (500): Internal Server Error''
          (Some ''https://g/api/v1/repos/o/a/commits/bad/status''))"
  by (simp add: fetchCommitStatus_def status_request_def statusUrl_def normalizeBaseUrl_g
      ex_fetch_status_def failed_response_def api_error_message_def String_nat_500)

theorem enrich_unknown_witness:
  "enrich_pull ex_plat ex_fetch_status ''https://g'' ''t'' ex_pull_no_sha = ([], (5, ''unknown''))
   \<and> enrich_pull ex_plat ex_fetch_status ''https://g'' ''t'' ex_pull_bad_sha =
       ([\<lparr>req_url = ''https://g/api/v1/repos/o/a/commits/bad/status'',
          authorization = Some ''token t''\<rparr>], (6, ''unknown''))"
proof -
  have no_sha: "\<not> truthy (head_sha ex_pull_no_sha)"
    by (simp add: ex_pull_no_sha_def truthy_def)
  have first: "enrich_pull ex_plat ex_fetch_status ''https://g'' ''t'' ex_pull_no_sha =
      ([], (5, ''unknown''))"
    using enrich_unknown[of ex_pull_no_sha ex_plat ex_fetch_status "''https://g''" "''t''"] no_sha
    by (simp add: ex_pull_no_sha_def ex_pull_def)
  have repo: "getRepoOwnerAndName ex_plat ex_pull_bad_sha = Some (''o'', ''a'')"
    by (simp add: ex_pull_bad_sha_def ex_getRepoOwnerAndName)
  have sha: "head_sha ex_pull_bad_sha = Some ''bad''"
    by (simp add: ex_pull_bad_sha_def)
  have second: "enrich_pull ex_plat ex_fetch_status ''https://g'' ''t'' ex_pull_bad_sha =
      ([status_request ''https://g'' ''o'' ''a'' ''bad'' ''t''], (pr_id ex_pull_bad_sha, ''unknown''))"
    using enrich_unknown[of ex_pull_bad_sha ex_plat ex_fetch_status "''https://g''" "''t''"]
      repo sha ex_status_bad
    by blast
  show ?thesis
    using first second
    by (simp add: status_request_def statusUrl_def normalizeBaseUrl_g auth_header_def
        ex_pull_bad_sha_def ex_pull_def)
qed

text \<open>
  C8, as the code has it. The status mapping assigns to the identifier of every input
  pull request a string that is \<^verbatim>\<open>unknown\<close> or is, unchanged, the \<^verbatim>\<open>state\<close> of an ok
  response of the commit-status endpoint to one of the requests of the run.
\<close>

theorem status_map_values:
  "\<forall>pull\<in>set all.
     \<exists>s. snd (enrich_statuses plat fetch baseUrl tok all) (pr_id pull) = Some s
        \<and> (s = ''unknown''
            \<or> (\<exists>req response.
                  req \<in> set (fst (enrich_statuses plat fetch baseUrl tok all))
                  \<and> fetch req = Inr response \<and> ok response
                  \<and> body_json response = Inr (StatusObject (Some s))))"
proof
  fix pull assume pull: "pull \<in> set all"
  let ?e = "enrich_pull plat fetch baseUrl tok"
  let ?rs = "map snd (map ?e all)"
  have "pr_id pull \<in> fst ` set ?rs"
  proof -
    have "snd (?e pull) \<in> set ?rs" using pull by auto
    then have "fst (snd (?e pull)) \<in> fst ` set ?rs" by (rule imageI)
    then show ?thesis by simp
  qed
  from status_map_dom[OF this] obtain s where
    s: "status_map ?rs (pr_id pull) = Some s" and mem: "(pr_id pull, s) \<in> set ?rs"
    by blast
  from mem obtain p where p: "p \<in> set all" and ps: "snd (?e p) = (pr_id pull, s)"
    by auto
  then have st: "snd (snd (?e p)) = s" by simp
  have sent: "set (fst (?e p)) \<subseteq> set (fst (enrich_statuses plat fetch baseUrl tok all))"
    using p by (auto simp: enrich_statuses_def Let_def)
  have "s = ''unknown'' \<or>
        (\<exists>req response. req \<in> set (fst (enrich_statuses plat fetch baseUrl tok all))
           \<and> fetch req = Inr response \<and> ok response
           \<and> body_json response = Inr (StatusObject (Some s)))"
    using enrich_pull_state[of plat fetch baseUrl tok p] sent unfolding st by blast
  with s show "\<exists>s. snd (enrich_statuses plat fetch baseUrl tok all) (pr_id pull) = Some s
        \<and> (s = ''unknown''
            \<or> (\<exists>req response.
                  req \<in> set (fst (enrich_statuses plat fetch baseUrl tok all))
                  \<and> fetch req = Inr response \<and> ok response
                  \<and> body_json response = Inr (StatusObject (Some s))))"
    by (auto simp: enrich_statuses_def Let_def)
qed

lemma ex_status_warning:
  "fetchCommitStatus ex_fetch_status ''https://g'' ''o'' ''a'' ''abc'' ''t'' = Inr (Some ''warning'')"
  by (simp add: fetchCommitStatus_def status_request_def statusUrl_def normalizeBaseUrl_g
      ex_fetch_status_def ok_response_def)

lemma ex_enrich_warning:
  "enrich_pull ex_plat ex_fetch_status ''https://g'' ''t'' (ex_pull 1 ''me'' None) =
   ([status_request ''https://g'' ''o'' ''a'' ''abc'' ''t''], (1, ''warning''))"
proof -
  have repo: "getRepoOwnerAndName ex_plat (ex_pull 1 ''me'' None) = Some (''o'', ''a'')"
    using ex_getRepoOwnerAndName[where i = 1 and author = "''me''" and reviewers = None
        and sha = "Some ''abc''"]
    by (simp add: ex_pull_def)
  have sha: "head_sha (ex_pull 1 ''me'' None) = Some ''abc''"
    and ident: "pr_id (ex_pull 1 ''me'' None) = 1"
    by (simp_all add: ex_pull_def)
  show ?thesis
    by (simp add: enrich_pull_def repo sha ident Let_def ex_status_warning truthy_def)
qed

theorem status_map_values_witness:
  "\<exists>s. snd (enrich_statuses ex_plat ex_fetch_status ''https://g'' ''t''
              [ex_pull 1 ''me'' None, ex_pull_no_sha]) 5 = Some s
      \<and> (s = ''unknown''
          \<or> (\<exists>req response.
                req \<in> set (fst (enrich_statuses ex_plat ex_fetch_status ''https://g'' ''t''
                                  [ex_pull 1 ''me'' None, ex_pull_no_sha]))
                \<and> ex_fetch_status req = Inr response \<and> ok response
                \<and> body_json response = Inr (StatusObject (Some s))))"
proof -
  have "ex_pull_no_sha \<in> set [ex_pull 1 ''me'' None, ex_pull_no_sha]"
    by simp
  moreover have "pr_id ex_pull_no_sha = 5"
    by (simp add: ex_pull_no_sha_def ex_pull_def)
  ultimately show ?thesis
    using status_map_values[of "[ex_pull 1 ''me'' None, ex_pull_no_sha]" ex_plat ex_fetch_status
        "''https://g''" "''t''"]
    by (metis (no_types, lifting))
qed

text \<open>
  The claim as it was stated fails when the endpoint answers with a state outside the
  five: the state \<^verbatim>\<open>warning\<close> of a commit goes into the mapping as it is.
\<close>

theorem status_map_counterexample:
  "snd (enrich_statuses ex_plat ex_fetch_status ''https://g'' ''t'' [ex_pull 1 ''me'' None]) 1 =
     Some ''warning''
   \<and> ''warning'' \<notin> {''success'', ''failure'', ''pending'', ''error'', ''unknown''}"
  by (simp add: enrich_statuses_def ex_enrich_warning status_map_def Let_def)

section \<open>Properties of the cache\<close>

lemma live_refresh_effects:
  assumes "live_refresh plat cdc net baseUrl tok now hasCached w = Some w'"
  shows "(\<exists>res. fetchPullRequestInbox plat net baseUrl tok = Some (Inr res)
            \<and> effects w' = effects w @ [LiveFetch, CacheWrite])
       \<or> (\<exists>err dbg. fetchPullRequestInbox plat net baseUrl tok = Some (Inl (err, dbg))
            \<and> effects w' = effects w @ [LiveFetch, ShowToast (error_message err)])"
  using assms
  by (auto simp: live_refresh_def Let_def split: option.splits sum.splits prod.splits)

lemma live_refresh_storage_free:
  "map_option ui (live_refresh plat cdc net baseUrl tok now hasCached (w\<lparr>storage := store'\<rparr>)) =
   map_option ui (live_refresh plat cdc net baseUrl tok now hasCached w)"
  by (auto simp: live_refresh_def Let_def split: option.splits sum.splits prod.splits)

text \<open>
  C9, as the code has it. The freshness test of a non-forced refresh is true if and
  only if the cached timestamp is not 0 and \<open>now - timestamp < ttl * 60000\<close>, strictly;
  without a timestamp it is false. It is the test the refresh uses: with a base URL, an
  access token and a cached payload, a non-forced refresh ends after reading the cache,
  without a live fetch, exactly when the test holds.
\<close>

theorem isFresh_iff:
  "(isFresh (Some timestamp) now ttl \<longleftrightarrow> timestamp \<noteq> 0 \<and> now - timestamp < ttl * 60000)
   \<and> \<not> isFresh None now ttl
   \<and> (baseUrl \<noteq> [] \<and> tok \<noteq> []
        \<and> loadCachedInbox cdc (storage w) baseUrl = (Some payload, Some timestamp) \<longrightarrow>
        ((\<exists>w'. refreshInbox plat cdc net baseUrl tok ttl now now2 False w = Some w'
               \<and> effects w' = effects w @ [CacheRead])
         \<longleftrightarrow> timestamp \<noteq> 0 \<and> now - timestamp < ttl * 60000))"
proof -
  have check: "isFresh (Some timestamp) now ttl \<longleftrightarrow> timestamp \<noteq> 0 \<and> now - timestamp < ttl * 60000"
    by (simp add: isFresh_def)
  have none: "\<not> isFresh None now ttl"
    by (simp add: isFresh_def)
  have use: "(\<exists>w'. refreshInbox plat cdc net baseUrl tok ttl now now2 False w = Some w'
               \<and> effects w' = effects w @ [CacheRead])
         \<longleftrightarrow> isFresh (Some timestamp) now ttl"
    if conf: "baseUrl \<noteq> []" "tok \<noteq> []"
      and cached: "loadCachedInbox cdc (storage w) baseUrl = (Some payload, Some timestamp)"
  proof (cases "isFresh (Some timestamp) now ttl")
    case True
    then show ?thesis
      using conf cached by (simp add: refreshInbox_def Let_def)
  next
    case False
    have "effects w' \<noteq> effects w @ [CacheRead]"
      if "refreshInbox plat cdc net baseUrl tok ttl now now2 False w = Some w'" for w'
    proof -
      from that False conf cached obtain w3 where
        "live_refresh plat cdc net baseUrl tok now2 True w3 = Some w'"
        "effects w3 = effects w @ [CacheRead]"
        by (auto simp: refreshInbox_def Let_def)
      from live_refresh_effects[OF this(1)] this(2) show ?thesis
        by auto
    qed
    with False show ?thesis by blast
  qed
  show ?thesis
    using check none use by blast
qed

lemma ex_loadCachedInbox:
  "loadCachedInbox ex_codec (storage ex_world) ''https://h'' =
   (Some \<lparr>payload_created = [], payload_reviewRequested = [], payload_statusById = None\<rparr>,
    Some 5000)"
  by (simp add: loadCachedInbox_def prCacheKey_def prCacheTimeKey_def ex_codec_def ex_world_def
      truthy_def Let_def)

theorem isFresh_iff_witness:
  "\<exists>w'. refreshInbox ex_plat ex_codec ex_net ''https://h'' ''t'' 60 6000 7000 False ex_world = Some w'
        \<and> effects w' = effects ex_world @ [CacheRead]"
proof -
  have "(5000 :: int) \<noteq> 0 \<and> 6000 - 5000 < (60 :: int) * 60000"
    by simp
  then show ?thesis
    using isFresh_iff[of 5000 6000 60 "''https://h''" "''t''" ex_codec ex_world _ ex_plat ex_net 7000]
      ex_loadCachedInbox
    by blast
qed

text \<open>
  The claim without the condition on the timestamp fails for a cache entry stamped 0:
  at the time 1000 and with a TTL of 60 minutes, \<open>now - timestamp < ttl * 60000\<close> holds
  and the test is false.
\<close>

theorem isFresh_zero_counterexample:
  "\<not> (isFresh (Some 0) 1000 60 \<longleftrightarrow> (1000 :: int) - 0 < 60 * 60000)"
  by (simp add: isFresh_def)

lemma isValidBaseUrl_nonempty: "isValidBaseUrl plat baseUrl \<Longrightarrow> baseUrl \<noteq> []"
  by (auto simp: isValidBaseUrl_def)

lemma InboxList_configured:
  "Command_view plat settingsLoaded baseUrl tok = InboxList \<Longrightarrow> baseUrl \<noteq> [] \<and> tok \<noteq> []"
  by (auto simp: Command_view_def dest: isValidBaseUrl_nonempty split: if_splits)

text \<open>
  C10. A forced refresh is started from an item of the inbox list, which is rendered
  only with a valid base URL and an access token. It does not read the cache: the
  state it leaves does not depend on what the store holds, and its first effect is the
  live fetch, whatever the age of the cache entry. When the live fetch succeeds, the
  cache then holds the new payload and the time of the write; when it fails, the store
  is what it was, payload and timestamp.
\<close>

theorem forced_refresh:
  assumes "Command_view plat settingsLoaded baseUrl tok = InboxList"
  shows "(\<forall>res. fetchPullRequestInbox plat net baseUrl tok = Some (Inr res) \<longrightarrow>
            (\<exists>w'. refreshInbox plat cdc net baseUrl tok ttl now1 now2 True w = Some w'
                 \<and> effects w' = effects w @ [LiveFetch, CacheWrite]
                 \<and> storage w' =
                     (storage w)
                       (prCacheKey cdc baseUrl \<mapsto>
                          JSON_stringify cdc \<lparr>payload_created = created res,
                                               payload_reviewRequested = reviewRequested res,
                                               payload_statusById = None\<rparr>,
                        prCacheTimeKey cdc baseUrl \<mapsto> String_int now2)
                 \<and> createdPulls (ui w') = created res
                 \<and> reviewRequestedPulls (ui w') = reviewRequested res))
       \<and> (\<forall>err dbg. fetchPullRequestInbox plat net baseUrl tok = Some (Inl (err, dbg)) \<longrightarrow>
            (\<exists>w'. refreshInbox plat cdc net baseUrl tok ttl now1 now2 True w = Some w'
                 \<and> effects w' = effects w @ [LiveFetch, ShowToast (error_message err)]
                 \<and> storage w' = storage w
                 \<and> errorMessage (ui w') = Some (error_message err)))
       \<and> (fetchPullRequestInbox plat net baseUrl tok = None \<longrightarrow>
            refreshInbox plat cdc net baseUrl tok ttl now1 now2 True w = None)
       \<and> (\<forall>store'. map_option ui (refreshInbox plat cdc net baseUrl tok ttl now1 now2 True
                                      (w\<lparr>storage := store'\<rparr>)) =
                     map_option ui (refreshInbox plat cdc net baseUrl tok ttl now1 now2 True w))"
proof -
  from InboxList_configured[OF assms] have conf: "baseUrl \<noteq> []" "tok \<noteq> []"
    by simp_all
  let ?w1 = "w\<lparr>ui := (ui w)\<lparr>errorMessage := None, debugInfo := None, lastError := None\<rparr>\<rparr>"
  have forced: "refreshInbox plat cdc net baseUrl tok ttl now1 now2 True v =
      live_refresh plat cdc net baseUrl tok now2 False
        (v\<lparr>ui := (ui v)\<lparr>errorMessage := None, debugInfo := None, lastError := None\<rparr>\<rparr>)" for v
    using conf by (simp add: refreshInbox_def Let_def)
  have success: "\<exists>w'. refreshInbox plat cdc net baseUrl tok ttl now1 now2 True w = Some w'
                 \<and> effects w' = effects w @ [LiveFetch, CacheWrite]
                 \<and> storage w' =
                     (storage w)
                       (prCacheKey cdc baseUrl \<mapsto>
                          JSON_stringify cdc \<lparr>payload_created = created res,
                                               payload_reviewRequested = reviewRequested res,
                                               payload_statusById = None\<rparr>,
                        prCacheTimeKey cdc baseUrl \<mapsto> String_int now2)
                 \<and> createdPulls (ui w') = created res
                 \<and> reviewRequestedPulls (ui w') = reviewRequested res"
    if "fetchPullRequestInbox plat net baseUrl tok = Some (Inr res)" for res
    using that by (simp add: forced live_refresh_def saveCachedInbox_def Let_def)
  have failure: "\<exists>w'. refreshInbox plat cdc net baseUrl tok ttl now1 now2 True w = Some w'
                 \<and> effects w' = effects w @ [LiveFetch, ShowToast (error_message err)]
                 \<and> storage w' = storage w
                 \<and> errorMessage (ui w') = Some (error_message err)"
    if "fetchPullRequestInbox plat net baseUrl tok = Some (Inl (err, dbg))" for err dbg
    using that by (simp add: forced live_refresh_def Let_def)
  have never: "refreshInbox plat cdc net baseUrl tok ttl now1 now2 True w = None"
    if "fetchPullRequestInbox plat net baseUrl tok = None"
    using that by (simp add: forced live_refresh_def Let_def)
  have unread: "map_option ui (refreshInbox plat cdc net baseUrl tok ttl now1 now2 True
                                      (w\<lparr>storage := store'\<rparr>)) =
                     map_option ui (refreshInbox plat cdc net baseUrl tok ttl now1 now2 True w)"
    for store'
  proof -
    have "(w\<lparr>storage := store'\<rparr>)
            \<lparr>ui := (ui (w\<lparr>storage := store'\<rparr>))
                     \<lparr>errorMessage := None, debugInfo := None, lastError := None\<rparr>\<rparr> =
          ?w1\<lparr>storage := store'\<rparr>"
      by (cases w) simp
    then have "refreshInbox plat cdc net baseUrl tok ttl now1 now2 True (w\<lparr>storage := store'\<rparr>) =
               live_refresh plat cdc net baseUrl tok now2 False (?w1\<lparr>storage := store'\<rparr>)"
      using forced[of "w\<lparr>storage := store'\<rparr>"] by (simp only:)
    moreover have "refreshInbox plat cdc net baseUrl tok ttl now1 now2 True w =
               live_refresh plat cdc net baseUrl tok now2 False ?w1"
      by (rule forced)
    ultimately show ?thesis
      using live_refresh_storage_free[where w = ?w1 and store' = store' and hasCached = False
          and plat = plat and cdc = cdc and net = net and baseUrl = baseUrl and tok = tok
          and now = now2]
      by (simp only:)
  qed
  show ?thesis
    using success failure never unread by blast
qed


lemma ex_inbox_h:
  "fetchPullRequestInbox ex_plat ex_net ''https://h'' ''t'' =
     Some (Inr \<lparr>created = [ex_pull 1 ''me'' None],
                reviewRequested = [ex_pull 2 ''you'' (Some [''me''])],
                debug = (initial_debug ''https://h'')
                          \<lparr>usedGlobalEndpoints := Some True, fallbackUsed := Some False,
                           createdCount := Some 1, reviewRequestedCount := Some 1\<rparr>\<rparr>)"
proof -
  have "fetchPullRequestInbox ex_plat ex_net ''https://h'' ''t'' =
        Some (global_mode (initial_debug ''https://h'') (Inr [ex_pull 1 ''me'' None])
                (Inr [ex_pull 2 ''you'' (Some [''me''])]))"
    by (simp add: fetchPullRequestInbox_def ex_net_simps ex_created_h ex_review_h)
  then show ?thesis
    by (simp add: global_mode_def)
qed

lemma ex_view_h: "Command_view ex_plat True ''https://h'' ''t'' = InboxList"
  by (simp add: Command_view_def isValidBaseUrl_def ex_plat_def ex_parse_query_def)

theorem forced_refresh_witness:
  "\<exists>w'. refreshInbox ex_plat ex_codec ex_net ''https://h'' ''t'' 60 6000 7000 True ex_world = Some w'
        \<and> effects w' = [LiveFetch, CacheWrite]
        \<and> storage w' ''gitea-pr-inbox-cache:https://h'' = Some ''fresh''
        \<and> storage w' ''gitea-pr-inbox-cache-time:https://h'' = Some ''7000''
        \<and> createdPulls (ui w') = [ex_pull 1 ''me'' None]"
proof -
  note res = ex_inbox_h
  have "String_nat 7000 = ''7000''"
    by (simp add: String_nat.simps digit_char_def)
  then have time: "String_int 7000 = ''7000''"
    by (simp add: String_int_def)
  have keys: "prCacheKey ex_codec ''https://h'' = ''gitea-pr-inbox-cache:https://h''"
    "prCacheTimeKey ex_codec ''https://h'' = ''gitea-pr-inbox-cache-time:https://h''"
    by (simp_all add: prCacheKey_def prCacheTimeKey_def ex_codec_def)
  have written: "JSON_stringify ex_codec p = ''fresh''" for p
    by (simp add: ex_codec_def)
  have none: "effects ex_world = []"
    by (simp add: ex_world_def)
  from forced_refresh[OF ex_view_h, of ex_net ex_codec 60 6000 7000 ex_world]
  have "\<forall>res. fetchPullRequestInbox ex_plat ex_net ''https://h'' ''t'' = Some (Inr res) \<longrightarrow>
          (\<exists>w'. refreshInbox ex_plat ex_codec ex_net ''https://h'' ''t'' 60 6000 7000 True ex_world =
                  Some w'
               \<and> effects w' = effects ex_world @ [LiveFetch, CacheWrite]
               \<and> storage w' =
                   (storage ex_world)
                     (prCacheKey ex_codec ''https://h'' \<mapsto>
                        JSON_stringify ex_codec \<lparr>payload_created = created res,
                                                  payload_reviewRequested = reviewRequested res,
                                                  payload_statusById = None\<rparr>,
                      prCacheTimeKey ex_codec ''https://h'' \<mapsto> String_int 7000)
               \<and> createdPulls (ui w') = created res
               \<and> reviewRequestedPulls (ui w') = reviewRequested res)"
    by (rule conjunct1)
  from this[rule_format, OF res] obtain w' where
    w': "refreshInbox ex_plat ex_codec ex_net ''https://h'' ''t'' 60 6000 7000 True ex_world = Some w'"
    and e: "effects w' = effects ex_world @ [LiveFetch, CacheWrite]"
    and s: "storage w' =
       (storage ex_world)
         (''gitea-pr-inbox-cache:https://h'' \<mapsto> ''fresh'',
          ''gitea-pr-inbox-cache-time:https://h'' \<mapsto> ''7000'')"
    and c: "createdPulls (ui w') = [ex_pull 1 ''me'' None]"
    unfolding keys written time by auto
  have "storage w' ''gitea-pr-inbox-cache:https://h'' = Some ''fresh''"
    "storage w' ''gitea-pr-inbox-cache-time:https://h'' = Some ''7000''"
    by (simp_all add: s)
  with w' e c none show ?thesis
    by simp
qed

end
